theory Spec2Isabelle
  imports Complex_Main "HOL-Library.Word" "HOL-Library.Multiset"
begin

section \<open>Local search: the or-opt operator (problems/cvrp/local_search/or_opt.cpp)\<close>

subsection \<open>Amounts\<close>

text \<open>
  Modelled from the spec: the class \<open>amount_t\<close> (structures/vroom/amount.h) is not part of
  the sources at hand. The spec describes amounts and capacities as integer vectors that
  are added, subtracted and compared componentwise, all of one dimension (the dimension
  of \<open>zero_amount()\<close>). Components are unbounded integers here: the source's
  \<open>int64_t\<close> has no defined overflow.
\<close>

type_synonym amount_t = "int list"

definition amount_add :: "amount_t \<Rightarrow> amount_t \<Rightarrow> amount_t" where
  "amount_add a b = map2 (+) a b"

definition amount_sub :: "amount_t \<Rightarrow> amount_t \<Rightarrow> amount_t" where
  "amount_sub a b = map2 (-) a b"

definition amount_le :: "amount_t \<Rightarrow> amount_t \<Rightarrow> bool" where
  "amount_le a b = list_all (\<lambda>(x, y). x \<le> y) (zip a b)"

definition zero_amount :: "nat \<Rightarrow> amount_t" where
  "zero_amount d = replicate d 0"

subsection \<open>Problem data and solution state\<close>

type_synonym index_t = nat

record job_t =
  job_id :: nat
  job_index :: index_t
  job_amount :: amount_t

record vehicle_t =
  vehicle_id :: nat
  vehicle_start :: "index_t option"
  vehicle_end :: "index_t option"
  vehicle_capacity :: amount_t

text \<open>
  The class \<open>input\<close> is not part of the sources at hand either; the operator reads its
  members \<open>_jobs\<close> and \<open>_vehicles\<close> and calls \<open>vehicle_ok_with_job\<close>, which is
  taken as a parameter (a field holding the function).
\<close>

record ls_input =
  ls_jobs :: "job_t list"
  ls_vehicles :: "vehicle_t list"
  ls_vehicle_ok_with_job :: "index_t \<Rightarrow> index_t \<Rightarrow> bool"

text \<open>
  The two objects the operator holds by reference and mutates: \<open>_sol\<close> (one raw route,
  a vector of job ranks, per vehicle) and \<open>_amounts\<close> (one cached amount per vehicle).
\<close>

record ls_state =
  ls_sol :: "index_t list list"
  ls_amounts :: "amount_t list"

record or_opt =
  source_vehicle :: index_t
  source_rank :: index_t
  target_vehicle :: index_t
  target_rank :: index_t

subsection \<open>The operator\<close>

text \<open>
  The assertions at the head of \<open>or_opt::compute_gain\<close>, which \<open>is_valid\<close> relies on
  ("Already asserted in compute_gain").
\<close>

definition compute_gain_asserts :: "or_opt \<Rightarrow> ls_state \<Rightarrow> bool" where
  "compute_gain_asserts p st =
     (source_vehicle p \<noteq> target_vehicle p \<and>
      2 \<le> length (ls_sol st ! source_vehicle p) \<and>
      source_rank p + 1 < length (ls_sol st ! source_vehicle p) \<and>
      target_rank p \<le> length (ls_sol st ! target_vehicle p))"

text \<open>
  Every subscript that \<open>is_valid\<close>, respectively \<open>apply\<close>, evaluates is inside its
  vector. C++ leaves a read or write outside a vector undefined; the model returns
  \<open>None\<close> there.
\<close>

definition is_valid_in_range :: "ls_input \<Rightarrow> or_opt \<Rightarrow> ls_state \<Rightarrow> bool" where
  "is_valid_in_range inp p st =
     (source_vehicle p < length (ls_sol st) \<and>
      source_rank p + 1 < length (ls_sol st ! source_vehicle p) \<and>
      ls_sol st ! source_vehicle p ! source_rank p < length (ls_jobs inp) \<and>
      ls_sol st ! source_vehicle p ! (source_rank p + 1) < length (ls_jobs inp) \<and>
      target_vehicle p < length (ls_amounts st) \<and>
      target_vehicle p < length (ls_vehicles inp))"

definition apply_in_range :: "ls_input \<Rightarrow> or_opt \<Rightarrow> ls_state \<Rightarrow> bool" where
  "apply_in_range inp p st =
     (source_vehicle p < length (ls_sol st) \<and>
      target_vehicle p < length (ls_sol st) \<and>
      source_vehicle p < length (ls_amounts st) \<and>
      target_vehicle p < length (ls_amounts st) \<and>
      source_rank p + 1 < length (ls_sol st ! source_vehicle p) \<and>
      target_rank p \<le> length (ls_sol st ! target_vehicle p) \<and>
      ls_sol st ! source_vehicle p ! source_rank p < length (ls_jobs inp) \<and>
      ls_sol st ! source_vehicle p ! (source_rank p + 1) < length (ls_jobs inp))"

definition is_valid :: "ls_input \<Rightarrow> or_opt \<Rightarrow> ls_state \<Rightarrow> bool option" where
  "is_valid inp p st =
     (if \<not> is_valid_in_range inp p st then None
      else
        let current_job_rank = ls_sol st ! source_vehicle p ! source_rank p;
            after_job_rank = ls_sol st ! source_vehicle p ! (source_rank p + 1);
            valid = ls_vehicle_ok_with_job inp (target_vehicle p) current_job_rank;
            valid = (valid \<and> ls_vehicle_ok_with_job inp (target_vehicle p) after_job_rank);
            valid = (valid \<and>
              amount_le
                (amount_add
                  (amount_add (ls_amounts st ! target_vehicle p)
                     (job_amount (ls_jobs inp ! current_job_rank)))
                  (job_amount (ls_jobs inp ! after_job_rank)))
                (vehicle_capacity (ls_vehicles inp ! target_vehicle p)))
        in Some valid)"

text \<open>\<open>std::vector::insert(begin() + pos, first, last)\<close> and \<open>erase(first, last)\<close>.\<close>

definition vector_insert :: "'a list \<Rightarrow> nat \<Rightarrow> 'a list \<Rightarrow> 'a list" where
  "vector_insert xs pos ys = take pos xs @ ys @ drop pos xs"

definition vector_erase :: "'a list \<Rightarrow> nat \<Rightarrow> nat \<Rightarrow> 'a list" where
  "vector_erase xs i j = take i xs @ drop j xs"

definition vector_range :: "'a list \<Rightarrow> nat \<Rightarrow> nat \<Rightarrow> 'a list" where
  "vector_range xs i j = take (j - i) (drop i xs)"

definition or_opt_apply :: "ls_input \<Rightarrow> or_opt \<Rightarrow> ls_state \<Rightarrow> ls_state option" where
  "or_opt_apply inp p st =
     (if \<not> apply_in_range inp p st then None
      else
        let s = source_vehicle p; t = target_vehicle p;
            mv_amount =
              amount_add
                (job_amount (ls_jobs inp ! (ls_sol st ! s ! source_rank p)))
                (job_amount (ls_jobs inp ! (ls_sol st ! s ! (source_rank p + 1))));
            am1 = (ls_amounts st)[t := amount_add (ls_amounts st ! t) mv_amount];
            am2 = am1[s := amount_sub (am1 ! s) mv_amount];
            sol1 = (ls_sol st)[t :=
                     vector_insert (ls_sol st ! t) (target_rank p)
                       (vector_range (ls_sol st ! s) (source_rank p) (source_rank p + 2))];
            sol2 = sol1[s := vector_erase (sol1 ! s) (source_rank p) (source_rank p + 2)]
        in Some \<lparr>ls_sol = sol2, ls_amounts = am2\<rparr>)"

text \<open>The or-opt move that undoes \<open>p\<close>: the same edge, from the target back to the source.\<close>

definition inverse_or_opt :: "or_opt \<Rightarrow> or_opt" where
  "inverse_or_opt p =
     \<lparr>source_vehicle = target_vehicle p, source_rank = target_rank p,
      target_vehicle = source_vehicle p, target_rank = source_rank p\<rparr>"

text \<open>All amounts at hand have the dimension \<open>d\<close> of the problem.\<close>

definition amounts_dim :: "nat \<Rightarrow> ls_input \<Rightarrow> ls_state \<Rightarrow> bool" where
  "amounts_dim d inp st =
     (list_all (\<lambda>a. length a = d) (ls_amounts st) \<and>
      list_all (\<lambda>j. length (job_amount j) = d) (ls_jobs inp) \<and>
      list_all (\<lambda>v. length (vehicle_capacity v) = d) (ls_vehicles inp))"

text \<open>The amount that \<open>apply\<close> moves: \<open>mv_amount\<close>, the sum of the two jobs' amounts.\<close>

definition moved_amount :: "ls_input \<Rightarrow> or_opt \<Rightarrow> ls_state \<Rightarrow> amount_t" where
  "moved_amount inp p st =
     amount_add
       (job_amount (ls_jobs inp ! (ls_sol st ! source_vehicle p ! source_rank p)))
       (job_amount (ls_jobs inp ! (ls_sol st ! source_vehicle p ! (source_rank p + 1))))"

text \<open>The componentwise sum of a list of amounts of dimension \<open>d\<close>.\<close>

definition amount_sum :: "nat \<Rightarrow> amount_t list \<Rightarrow> amount_t" where
  "amount_sum d xs = foldr amount_add xs (zero_amount d)"

subsection \<open>A small instance\<close>

text \<open>
  Three vehicles of capacity 10 and four jobs of amounts 1, 2, 3 and 4; vehicle 0 serves
  jobs 0, 1, 2, vehicle 1 serves job 3, vehicle 2 is idle. The move takes the edge
  (1, 2) of vehicle 0 to the front of vehicle 1.
\<close>

definition ex_ls_input :: ls_input where
  "ex_ls_input =
     \<lparr>ls_jobs = [\<lparr>job_id = 10, job_index = 1, job_amount = [1]\<rparr>,
                 \<lparr>job_id = 11, job_index = 2, job_amount = [2]\<rparr>,
                 \<lparr>job_id = 12, job_index = 3, job_amount = [3]\<rparr>,
                 \<lparr>job_id = 13, job_index = 4, job_amount = [4]\<rparr>],
      ls_vehicles = [\<lparr>vehicle_id = 1, vehicle_start = Some 0, vehicle_end = Some 0,
                       vehicle_capacity = [10]\<rparr>,
                     \<lparr>vehicle_id = 2, vehicle_start = Some 0, vehicle_end = Some 0,
                       vehicle_capacity = [10]\<rparr>,
                     \<lparr>vehicle_id = 3, vehicle_start = Some 0, vehicle_end = None,
                       vehicle_capacity = [10]\<rparr>],
      ls_vehicle_ok_with_job = (\<lambda>v j. j < 4)\<rparr>"

definition ex_ls_state :: ls_state where
  "ex_ls_state = \<lparr>ls_sol = [[0, 1, 2], [3], []], ls_amounts = [[6], [4], [0]]\<rparr>"

definition ex_or_opt :: or_opt where
  "ex_or_opt = \<lparr>source_vehicle = 0, source_rank = 1, target_vehicle = 1, target_rank = 0\<rparr>"

section \<open>Input parsing (function \<open>parse\<close> of the input parser)\<close>

subsection \<open>Results that may throw\<close>

text \<open>
  \<open>custom_exception\<close> is the one exception class the parser throws; its argument is the
  message. \<open>rapidjson_assert\<close> stands for a failed \<open>RAPIDJSON_ASSERT\<close>: reading a
  member of a value that is no object, an element outside an array, or a number through
  the wrong getter. The program aborts there (or is undefined when assertions are
  compiled out); no exception is thrown.
\<close>

datatype exn = custom_exception string | rapidjson_assert

definition throw :: "string \<Rightarrow> exn + 'a" where
  "throw msg = Inl (custom_exception msg)"

definition and_then :: "exn + 'a \<Rightarrow> ('a \<Rightarrow> exn + 'b) \<Rightarrow> exn + 'b" where
  "and_then m f = (case m of Inl e \<Rightarrow> Inl e | Inr x \<Rightarrow> f x)"

subsection \<open>\<open>std::to_string\<close> on unsigned numbers\<close>

definition digit_char :: "nat \<Rightarrow> char" where
  "digit_char d = char_of (48 + d)"

function to_string :: "nat \<Rightarrow> string" where
  "to_string n =
     (if n < 10 then [digit_char n] else to_string (n div 10) @ [digit_char (n mod 10)])"
  by pat_completeness auto
termination
  by (relation "measure id") auto

declare to_string.simps [simp del]

subsection \<open>The JSON document (rapidjson)\<close>

text \<open>
  A parsed document. rapidjson keeps an integer literal as an integer (\<open>JInt\<close>) and any
  other number as a double (\<open>JReal\<close>); \<open>IsUint\<close> holds for the integers that fit an
  \<open>unsigned\<close> of 32 bits.
\<close>

datatype json =
    JNull
  | JBool bool
  | JInt int
  | JReal real
  | JString string
  | JArray "json list"
  | JObject "(string \<times> json) list"

fun IsArray :: "json \<Rightarrow> bool" where
  "IsArray (JArray xs) = True"
| "IsArray j = False"

fun IsObject :: "json \<Rightarrow> bool" where
  "IsObject (JObject ms) = True"
| "IsObject j = False"

fun IsNumber :: "json \<Rightarrow> bool" where
  "IsNumber (JInt i) = True"
| "IsNumber (JReal r) = True"
| "IsNumber j = False"

fun IsUint :: "json \<Rightarrow> bool" where
  "IsUint (JInt i) = (0 \<le> i \<and> i < 2 ^ 32)"
| "IsUint j = False"

fun HasMember :: "json \<Rightarrow> string \<Rightarrow> exn + bool" where
  "HasMember (JObject ms) k = Inr (map_of ms k \<noteq> None)"
| "HasMember j k = Inl rapidjson_assert"

text \<open>\<open>object[key]\<close>.\<close>

fun member_at :: "json \<Rightarrow> string \<Rightarrow> exn + json" where
  "member_at (JObject ms) k =
     (case map_of ms k of Some v \<Rightarrow> Inr v | None \<Rightarrow> Inl rapidjson_assert)"
| "member_at j k = Inl rapidjson_assert"

text \<open>\<open>array[i]\<close>.\<close>

fun element_at :: "json \<Rightarrow> nat \<Rightarrow> exn + json" where
  "element_at (JArray xs) i = (if i < length xs then Inr (xs ! i) else Inl rapidjson_assert)"
| "element_at j i = Inl rapidjson_assert"

text \<open>The elements of an array, in order (what a loop over \<open>0 .. Size() - 1\<close> reads).\<close>

fun elements :: "json \<Rightarrow> exn + json list" where
  "elements (JArray xs) = Inr xs"
| "elements j = Inl rapidjson_assert"

fun Size :: "json \<Rightarrow> exn + nat" where
  "Size (JArray xs) = Inr (length xs)"
| "Size j = Inl rapidjson_assert"

fun Empty :: "json \<Rightarrow> exn + bool" where
  "Empty (JArray xs) = Inr (xs = [])"
| "Empty j = Inl rapidjson_assert"

fun GetUint :: "json \<Rightarrow> exn + nat" where
  "GetUint (JInt i) = (if 0 \<le> i \<and> i < 2 ^ 32 then Inr (nat i) else Inl rapidjson_assert)"
| "GetUint j = Inl rapidjson_assert"

fun GetDouble :: "json \<Rightarrow> exn + real" where
  "GetDouble (JInt i) = Inr (real_of_int i)"
| "GetDouble (JReal r) = Inr r"
| "GetDouble j = Inl rapidjson_assert"

subsection \<open>Command-line arguments and the \<open>input\<close> object\<close>

text \<open>
  \<open>cl_input\<close> is the outcome of rapidjson's \<open>Parse\<close> on the input string: a syntax
  error (its message and offset) or the document.
\<close>

record cl_args_t =
  use_libosrm :: bool
  osrm_address :: string
  osrm_port :: string
  osrm_profile :: string
  geometry :: bool
  cl_input :: "(string \<times> nat) + json"

datatype routing_wrapper = routed_wrapper string string string | libosrm_wrapper string

type_synonym optional_coords_t = "(real \<times> real) option"

text \<open>
  The class \<open>input\<close>, the class \<open>matrix\<close> and the type \<open>index_t\<close> are not among the sources
  at hand. The parser is therefore parameterised: by the width \<open>'i\<close> of \<open>index_t\<close> (an
  unsigned integer type, so assignments from \<open>GetUint()\<close> truncate and \<open>++\<close> wraps),
  and by the members of \<open>input\<close> and \<open>matrix\<close> it calls, each of which may throw.
\<close>

record (overloaded) ('inp, 'i) input_class =
  new_input :: "routing_wrapper \<Rightarrow> bool \<Rightarrow> 'inp"
  add_vehicle :: "'inp \<Rightarrow> nat \<Rightarrow> optional_coords_t \<Rightarrow> optional_coords_t \<Rightarrow> exn + 'inp"
  add_vehicle_indexed ::
    "'inp \<Rightarrow> nat \<Rightarrow> optional_coords_t \<Rightarrow> optional_coords_t \<Rightarrow>
     'i word option \<Rightarrow> 'i word option \<Rightarrow> exn + 'inp"
  add_job :: "'inp \<Rightarrow> nat \<Rightarrow> optional_coords_t \<Rightarrow> exn + 'inp"
  add_job_indexed :: "'inp \<Rightarrow> nat \<Rightarrow> optional_coords_t \<Rightarrow> 'i word \<Rightarrow> exn + 'inp"
  get_sub_matrix :: "nat list list \<Rightarrow> 'i word list \<Rightarrow> exn + nat list list"
  set_matrix :: "'inp \<Rightarrow> nat list list \<Rightarrow> 'inp"
  get_location_number :: "'inp \<Rightarrow> nat"

subsection \<open>The parser\<close>

text \<open>Helper to get an optional array of coordinates.\<close>

definition parse_coordinates :: "json \<Rightarrow> string \<Rightarrow> exn + optional_coords_t" where
  "parse_coordinates object k =
     and_then (HasMember object k) (\<lambda>has.
       if \<not> has then Inr None
       else and_then (member_at object k) (\<lambda>v.
         if \<not> IsArray v then Inr None
         else and_then (Size v) (\<lambda>n.
           if n < 2 then throw ''Invalid coordinates array size.''
           else and_then (and_then (element_at v 0) GetDouble) (\<lambda>c0.
                and_then (and_then (element_at v 1) GetDouble) (\<lambda>c1.
                  Inr (Some (c0, c1)))))))"

text \<open>
  Choice of the routing wrapper. \<open>LIBOSRM\<close> is the preprocessor flag of the same name.
\<close>

definition make_routing_wrapper :: "bool \<Rightarrow> cl_args_t \<Rightarrow> exn + routing_wrapper" where
  "make_routing_wrapper LIBOSRM cl_args =
     (if \<not> use_libosrm cl_args then
        Inr (routed_wrapper (osrm_address cl_args) (osrm_port cl_args) (osrm_profile cl_args))
      else if LIBOSRM then
        (if osrm_profile cl_args = [] then throw ''-l flag requires -m.''
         else Inr (libosrm_wrapper (osrm_profile cl_args)))
      else throw ''libosrm must be installed to use -l.'')"

text \<open>The checks "required in any case", up to the test on the number of vehicles.\<close>

definition required_checks :: "json \<Rightarrow> exn + unit" where
  "required_checks json_input =
     and_then (HasMember json_input ''jobs'') (\<lambda>has_jobs.
     and_then (if has_jobs then and_then (member_at json_input ''jobs'') (\<lambda>j. Inr (IsArray j))
               else Inr False) (\<lambda>jobs_ok.
     if \<not> jobs_ok then throw ''Incorrect jobs input.''
     else
     and_then (HasMember json_input ''vehicles'') (\<lambda>has_vehicles.
     and_then (if has_vehicles
               then and_then (member_at json_input ''vehicles'') (\<lambda>vs.
                      if \<not> IsArray vs then Inr False
                      else and_then (Empty vs) (\<lambda>e. Inr (\<not> e)))
               else Inr False) (\<lambda>vehicles_ok.
     if \<not> vehicles_ok then throw ''Incorrect vehicles input.''
     else
     and_then (member_at json_input ''vehicles'') (\<lambda>vs.
     and_then (element_at vs 0) (\<lambda>v0.
     if \<not> IsObject v0 then throw ''Ill-formed vehicle object.''
     else
     and_then (HasMember v0 ''id'') (\<lambda>has_id.
     if \<not> has_id then throw ''Missing mandatory vehicle id.''
     else
     and_then (Size vs) (\<lambda>n.
     if 1 < n then throw ''Multiple vehicles are not supported (yet).''
     else Inr ()))))))))"

text \<open>Loading the custom matrix while checking that it is square.\<close>

fun load_line :: "json list \<Rightarrow> exn + nat list" where
  "load_line [] = Inr []"
| "load_line (e # es) =
     (if \<not> IsNumber e then throw ''Input matrix has a non-number entry.''
      else and_then (GetUint e) (\<lambda>x.
           and_then (load_line es) (\<lambda>xs. Inr (x # xs))))"

fun load_matrix :: "nat \<Rightarrow> json list \<Rightarrow> exn + nat list list" where
  "load_matrix matrix_size [] = Inr []"
| "load_matrix matrix_size (row # rows) =
     and_then (Size row) (\<lambda>n.
       if n \<noteq> matrix_size then throw ''Input matrix is not square.''
       else and_then (and_then (elements row) load_line) (\<lambda>l.
            and_then (load_matrix matrix_size rows) (\<lambda>ls. Inr (l # ls))))"

text \<open>
  The vehicle's optional \<open>start_index\<close> or \<open>end_index\<close> (the source has the same lines
  twice, once per key): absent, or a number below the matrix size.
\<close>

definition vehicle_index ::
  "json \<Rightarrow> string \<Rightarrow> nat \<Rightarrow> exn + ('i::len) word option" where
  "vehicle_index v0 k matrix_size =
     and_then (HasMember v0 k) (\<lambda>has.
       if \<not> has then Inr None
       else and_then (member_at v0 k) (\<lambda>x.
         if \<not> IsNumber x then throw (''Vehicle '' @ k @ '' is not a number.'')
         else and_then (GetUint x) (\<lambda>u.
           let idx = (of_nat u :: 'i word) in
           if matrix_size \<le> unat idx
           then throw (''Vehicle '' @ k @ '' does not match to matrix size.'')
           else Inr (Some idx))))"

text \<open>
  The loop over the jobs when a matrix is given. The loop state is the \<open>input\<close> object,
  \<open>necessary_indices\<close> and \<open>index_counter\<close>.
\<close>

fun add_jobs_matrix ::
  "('inp, 'i::len) input_class \<Rightarrow> nat \<Rightarrow> json list \<Rightarrow> 'inp \<times> 'i word list \<times> 'i word \<Rightarrow>
   exn + 'inp \<times> 'i word list \<times> 'i word" where
  "add_jobs_matrix ops matrix_size [] st = Inr st"
| "add_jobs_matrix ops matrix_size (job # jobs) (input_data, necessary_indices, index_counter) =
     (if \<not> IsObject job then throw ''Ill-formed job object.''
      else and_then (HasMember job ''id'') (\<lambda>has_id.
      if \<not> has_id then throw ''Missing mandatory job id.''
      else and_then (member_at job ''id'') (\<lambda>jid.
      if \<not> IsNumber jid then throw ''Job id is not a number.''
      else and_then (HasMember job ''location_index'') (\<lambda>has_loc.
      if \<not> has_loc then throw ''Missing mandatory job location_index.''
      else and_then (member_at job ''location_index'') (\<lambda>loc.
      if \<not> IsNumber loc then throw ''Job location_index is not a number.''
      else and_then (GetUint loc) (\<lambda>l.
      if matrix_size \<le> l then throw ''Job location_index does not match to matrix size.''
      else and_then (GetUint jid) (\<lambda>i.
           and_then (parse_coordinates job ''location'') (\<lambda>coords.
           and_then (add_job_indexed ops input_data i coords index_counter) (\<lambda>input_data'.
             add_jobs_matrix ops matrix_size jobs
               (input_data', necessary_indices @ [of_nat l], index_counter + 1))))))))))"

text \<open>The loop over the jobs when the matrix comes from the routing wrapper.\<close>

fun add_jobs_routed :: "('inp, 'i::len) input_class \<Rightarrow> json list \<Rightarrow> 'inp \<Rightarrow> exn + 'inp" where
  "add_jobs_routed ops [] input_data = Inr input_data"
| "add_jobs_routed ops (job # jobs) input_data =
     (if \<not> IsObject job then throw ''Ill-formed job object.''
      else and_then (HasMember job ''location'') (\<lambda>has_loc.
      if \<not> has_loc then throw ''Missing mandatory job location.''
      else and_then (HasMember job ''id'') (\<lambda>has_id.
      if \<not> has_id then throw ''Missing mandatory job id.''
      else and_then (and_then (member_at job ''id'') GetUint) (\<lambda>i.
           and_then (parse_coordinates job ''location'') (\<lambda>coords.
           and_then (add_job ops input_data i coords) (\<lambda>input_data'.
             add_jobs_routed ops jobs input_data'))))))"

text \<open>The branch taken when the document has a \<open>matrix\<close> member.\<close>

definition parse_with_matrix ::
  "('inp, 'i::len) input_class \<Rightarrow> json \<Rightarrow> 'inp \<Rightarrow> exn + 'inp" where
  "parse_with_matrix ops json_input input_data =
     and_then (member_at json_input ''matrix'') (\<lambda>m.
     and_then (Size m) (\<lambda>matrix_size.
     and_then (and_then (elements m) (load_matrix matrix_size)) (\<lambda>matrix_input.
     and_then (and_then (member_at json_input ''vehicles'') (\<lambda>vs. element_at vs 0)) (\<lambda>v0.
     let index_counter = (0 :: 'i word); necessary_indices = [] in
     and_then (vehicle_index v0 ''start_index'' matrix_size) (\<lambda>start_index.
     let (necessary_indices, start_index, index_counter) =
           (case start_index of
              None \<Rightarrow> (necessary_indices, None, index_counter)
            | Some i \<Rightarrow> (necessary_indices @ [i], Some index_counter, index_counter + 1)) in
     and_then (vehicle_index v0 ''end_index'' matrix_size) (\<lambda>end_index.
     let (necessary_indices, end_index, index_counter) =
           (case end_index of
              None \<Rightarrow> (necessary_indices, None, index_counter)
            | Some i \<Rightarrow> (necessary_indices @ [i], Some index_counter, index_counter + 1)) in
     and_then (and_then (member_at v0 ''id'') GetUint) (\<lambda>vid.
     and_then (parse_coordinates v0 ''start'') (\<lambda>start_coords.
     and_then (parse_coordinates v0 ''end'') (\<lambda>end_coords.
     and_then (add_vehicle_indexed ops input_data vid start_coords end_coords
                 start_index end_index) (\<lambda>input_data.
     and_then (and_then (member_at json_input ''jobs'') elements) (\<lambda>jobs.
     and_then (add_jobs_matrix ops matrix_size jobs
                 (input_data, necessary_indices, index_counter))
       (\<lambda>(input_data, necessary_indices, index_counter).
     and_then (get_sub_matrix ops matrix_input necessary_indices) (\<lambda>sub.
       Inr (set_matrix ops input_data sub))))))))))))))"

text \<open>The branch taken otherwise.\<close>

definition parse_routed ::
  "('inp, 'i::len) input_class \<Rightarrow> json \<Rightarrow> 'inp \<Rightarrow> exn + 'inp" where
  "parse_routed ops json_input input_data =
     and_then (and_then (member_at json_input ''vehicles'') (\<lambda>vs. element_at vs 0)) (\<lambda>v0.
     and_then (and_then (member_at v0 ''id'') GetUint) (\<lambda>vid.
     and_then (parse_coordinates v0 ''start'') (\<lambda>start_coords.
     and_then (parse_coordinates v0 ''end'') (\<lambda>end_coords.
     and_then (add_vehicle ops input_data vid start_coords end_coords) (\<lambda>input_data.
     and_then (and_then (member_at json_input ''jobs'') elements) (\<lambda>jobs.
       add_jobs_routed ops jobs input_data))))))"

definition parse ::
  "('inp, 'i::len) input_class \<Rightarrow> bool \<Rightarrow> cl_args_t \<Rightarrow> exn + 'inp" where
  "parse ops LIBOSRM cl_args =
     and_then (make_routing_wrapper LIBOSRM cl_args) (\<lambda>wrapper.
     let input_data = new_input ops wrapper (geometry cl_args) in
     case cl_input cl_args of
       Inl (msg, offset) \<Rightarrow> throw (msg @ '' (offset: '' @ to_string offset @ '')'')
     | Inr json_input \<Rightarrow>
         and_then (required_checks json_input) (\<lambda>_.
         and_then (HasMember json_input ''matrix'') (\<lambda>has_matrix.
         and_then (if has_matrix then parse_with_matrix ops json_input input_data
                   else parse_routed ops json_input input_data) (\<lambda>input_data.
         if get_location_number ops input_data \<le> 1
         then throw ''At least two locations required!''
         else Inr input_data))))"

subsection \<open>An instance of the \<open>input\<close> class, and two documents\<close>

text \<open>
  Modelled from the spec: the class \<open>input\<close> (structures/vroom/input/input.h) is not among
  the sources at hand. This instance records what the parser hands over (the vehicle
  with its optional start and end, the jobs with their locations) and the matrix, whose
  \<open>get_sub_matrix\<close> returns the principal sub-matrix in the given row and column order
  (spec, section 4.1). Its location number counts the vehicle's start and end, where
  given, and one location per job. No member throws.
\<close>

record simple_vehicle =
  sv_id :: nat
  sv_start :: optional_coords_t
  sv_end :: optional_coords_t
  sv_start_index :: "16 word option"
  sv_end_index :: "16 word option"

record simple_job =
  sj_id :: nat
  sj_location :: optional_coords_t
  sj_index :: "16 word option"

record simple_input =
  si_wrapper :: routing_wrapper
  si_geometry :: bool
  si_vehicles :: "simple_vehicle list"
  si_jobs :: "simple_job list"
  si_matrix :: "nat list list"

definition count_some :: "'a option \<Rightarrow> nat" where
  "count_some x = (case x of None \<Rightarrow> 0 | Some _ \<Rightarrow> 1)"

definition simple_location_number :: "simple_input \<Rightarrow> nat" where
  "simple_location_number inp =
     sum_list (map (\<lambda>v. if sv_start_index v = None \<and> sv_end_index v = None
                        then count_some (sv_start v) + count_some (sv_end v)
                        else count_some (sv_start_index v) + count_some (sv_end_index v))
                 (si_vehicles inp))
     + length (si_jobs inp)"

definition simple_input_class :: "(simple_input, 16) input_class" where
  "simple_input_class =
     \<lparr>new_input = (\<lambda>w g. \<lparr>si_wrapper = w, si_geometry = g, si_vehicles = [], si_jobs = [],
                           si_matrix = []\<rparr>),
      add_vehicle = (\<lambda>inp i s e. Inr (inp\<lparr>si_vehicles := si_vehicles inp @
         [\<lparr>sv_id = i, sv_start = s, sv_end = e, sv_start_index = None,
           sv_end_index = None\<rparr>]\<rparr>)),
      add_vehicle_indexed = (\<lambda>inp i s e si ei. Inr (inp\<lparr>si_vehicles := si_vehicles inp @
         [\<lparr>sv_id = i, sv_start = s, sv_end = e, sv_start_index = si,
           sv_end_index = ei\<rparr>]\<rparr>)),
      add_job = (\<lambda>inp i c. Inr (inp\<lparr>si_jobs := si_jobs inp @
         [\<lparr>sj_id = i, sj_location = c, sj_index = None\<rparr>]\<rparr>)),
      add_job_indexed = (\<lambda>inp i c k. Inr (inp\<lparr>si_jobs := si_jobs inp @
         [\<lparr>sj_id = i, sj_location = c, sj_index = Some k\<rparr>]\<rparr>)),
      get_sub_matrix = (\<lambda>m idx.
         Inr (map (\<lambda>i. map (\<lambda>j. m ! unat i ! unat j) idx) idx)),
      set_matrix = (\<lambda>inp m. inp\<lparr>si_matrix := m\<rparr>),
      get_location_number = simple_location_number\<rparr>"

definition ex_cl_args :: "json \<Rightarrow> cl_args_t" where
  "ex_cl_args doc =
     \<lparr>use_libosrm = False, osrm_address = ''0.0.0.0'', osrm_port = ''5000'',
      osrm_profile = ''car'', geometry = False, cl_input = Inr doc\<rparr>"

text \<open>
  A document with a matrix whose vehicle has a \<open>start_index\<close> and no \<open>end_index\<close>:
  \<^verbatim>\<open>{"vehicles": [{"id": 0, "start_index": 0}],
    "jobs": [{"id": 1, "location_index": 1}],
    "matrix": [[0, 7], [9, 0]]}\<close>
\<close>

definition ex_doc_no_end_index :: json where
  "ex_doc_no_end_index =
     JObject
       [(''vehicles'', JArray [JObject [(''id'', JInt 0), (''start_index'', JInt 0)]]),
        (''jobs'', JArray [JObject [(''id'', JInt 1), (''location_index'', JInt 1)]]),
        (''matrix'', JArray [JArray [JInt 0, JInt 7], JArray [JInt 9, JInt 0]])]"



subsection \<open>Well-formed parts of a document with a matrix\<close>

text \<open>
  A job that passes every check of the loop over the jobs, for a matrix of the given
  size: an object whose \<open>id\<close> is an unsigned number, whose \<open>location_index\<close> is an
  unsigned number below the matrix size, and whose \<open>location\<close>, if any, is readable.
\<close>

definition indexed_job_ok :: "nat \<Rightarrow> json \<Rightarrow> bool" where
  "indexed_job_ok matrix_size job =
     (IsObject job \<and>
      (case member_at job ''id'' of Inr jid \<Rightarrow> IsUint jid | Inl _ \<Rightarrow> False) \<and>
      (case member_at job ''location_index'' of
         Inr loc \<Rightarrow> (case GetUint loc of Inr l \<Rightarrow> l < matrix_size | Inl _ \<Rightarrow> False)
       | Inl _ \<Rightarrow> False) \<and>
      \<not> isl (parse_coordinates job ''location''))"

text \<open>The members of \<open>input\<close> and \<open>matrix\<close> that the matrix branch calls never throw.\<close>

definition never_throws :: "('inp, 'i::len) input_class \<Rightarrow> bool" where
  "never_throws ops =
     ((\<forall>inp i s e si ei. \<not> isl (add_vehicle_indexed ops inp i s e si ei)) \<and>
      (\<forall>inp i c k. \<not> isl (add_job_indexed ops inp i c k)) \<and>
      (\<forall>m idx. \<not> isl (get_sub_matrix ops m idx)))"

text \<open>
  The vehicle's member \<open>k\<close> is absent, or an unsigned number whose value as an \<open>index_t\<close>
  (\<open>as_index\<close> is the conversion to \<open>index_t\<close> and back) is below the matrix size.
\<close>

definition index_absent_or_valid :: "(nat \<Rightarrow> nat) \<Rightarrow> json \<Rightarrow> string \<Rightarrow> nat \<Rightarrow> bool" where
  "index_absent_or_valid as_index v0 k matrix_size =
     (HasMember v0 k = Inr False \<or>
      (case member_at v0 k of
         Inr x \<Rightarrow> (case GetUint x of Inr u \<Rightarrow> as_index u < matrix_size | Inl _ \<Rightarrow> False)
       | Inl _ \<Rightarrow> False))"

section \<open>Route validation (function \<open>choose_invalid_route\<close>)\<close>

subsection \<open>Problem data\<close>

text \<open>
  Modelled from the spec: the file of type definitions (structures/typedefs.h) is not
  among the sources at hand. The spec has \<open>Duration\<close> an unsigned integer and costs
  non-negative 32/64-bit integers; \<open>Duration\<close>, \<open>Cost\<close> and \<open>Priority\<close> are unsigned
  32-bit words here, with C++'s wrap-around. Their conversion to \<open>double\<close> is then
  exact, and a \<open>double\<close> is modelled as a real number. Ranks, counts and identifiers
  are natural numbers.
\<close>

type_synonym Duration = "32 word"
type_synonym Cost = "32 word"
type_synonym Priority = "32 word"
type_synonym Index = nat
type_synonym Id = nat
type_synonym Amount = amount_t

text \<open>A location is known by its index into the cost matrix.\<close>

type_synonym Location = Index

datatype STEP_TYPE = START | JOB | BREAK | END

datatype JOB_TYPE = SINGLE | PICKUP | DELIVERY

datatype VIOLATION =
  LEAD_TIME | DELAY | LOAD | MAX_TASKS | SKILLS | PRECEDENCE | MISSING_BREAK

datatype ERROR = INTERNAL | INPUT | ROUTING

datatype Exception = Exception ERROR string

record TimeWindow =
  tw_start :: Duration
  tw_end :: Duration

text \<open>
  Modelled from the spec: \<open>TimeWindow::is_default\<close> is not among the sources at hand;
  the spec treats the default time window as \<open>[0, +\<infinity>)\<close>, the largest \<open>Duration\<close>
  standing for the open end.
\<close>

definition is_default :: "TimeWindow \<Rightarrow> bool" where
  "is_default tw = (tw_start tw = 0 \<and> tw_end tw = - 1)"

record ForcedService =
  forced_at :: "Duration option"
  forced_after :: "Duration option"
  forced_before :: "Duration option"

record InputStep =
  step_type :: STEP_TYPE
  step_job_type :: JOB_TYPE
  step_rank :: Index
  forced_service :: ForcedService

record Job =
  j_id :: Id
  j_location :: Location
  j_type :: JOB_TYPE
  j_service :: Duration
  j_delivery :: Amount
  j_pickup :: Amount
  j_tws :: "TimeWindow list"
  j_priority :: Priority

text \<open>\<open>Break::Break(id, tws, service)\<close> (structures/vroom/break.cpp).\<close>

record Break =
  b_id :: Id
  b_tws :: "TimeWindow list"
  b_service :: Duration

record Vehicle =
  v_id :: Id
  v_start :: "Location option"
  v_end :: "Location option"
  v_capacity :: Amount
  v_tw :: TimeWindow
  v_breaks :: "Break list"
  v_description :: string

definition has_start :: "Vehicle \<Rightarrow> bool" where
  "has_start v = (v_start v \<noteq> None)"

definition has_end :: "Vehicle \<Rightarrow> bool" where
  "has_end v = (v_end v \<noteq> None)"

text \<open>
  The class \<open>Input\<close> is not among the sources at hand; the validator reads its jobs and
  vehicles, the cost matrix (\<open>get_matrix()[i][j]\<close>), \<open>vehicle_ok_with_job\<close> and
  \<open>zero_amount()\<close>, which are fields here.
\<close>

record Input =
  inp_jobs :: "Job list"
  inp_vehicles :: "Vehicle list"
  inp_matrix :: "Index \<Rightarrow> Index \<Rightarrow> Cost"
  inp_vehicle_ok_with_job :: "Index \<Rightarrow> Index \<Rightarrow> bool"
  inp_zero_amount :: Amount

subsection \<open>The solution: steps, violations, route\<close>

text \<open>
  Modelled from the spec: the classes \<open>Violations\<close>, \<open>Step\<close> and \<open>Route\<close>
  (structures/vroom/solution) are not among the sources at hand. The spec lists, for a
  step, its type, arrival, duration, service, waiting time, load and violations. A new
  \<open>Violations\<close> has no type and zero lead time and delay; a new step takes its type,
  location, identifier and service from its constructor's arguments and has zero
  arrival, duration and waiting time.
\<close>

record Violations =
  viol_lead_time :: Duration
  viol_delay :: Duration
  viol_start_lead_time :: Duration
  viol_end_delay :: Duration
  viol_types :: "VIOLATION set"

definition no_violations :: Violations where
  "no_violations =
     \<lparr>viol_lead_time = 0, viol_delay = 0, viol_start_lead_time = 0, viol_end_delay = 0,
      viol_types = {}\<rparr>"

record Step =
  s_type :: STEP_TYPE
  s_job_type :: "JOB_TYPE option"
  s_location :: "Location option"
  s_id :: Id
  s_service :: Duration
  s_load :: Amount
  s_arrival :: Duration
  s_duration :: Duration
  s_waiting_time :: Duration
  s_violations :: Violations

definition Step_at :: "STEP_TYPE \<Rightarrow> Location \<Rightarrow> Amount \<Rightarrow> Step" where
  "Step_at t l ld =
     \<lparr>s_type = t, s_job_type = None, s_location = Some l, s_id = 0, s_service = 0,
      s_load = ld, s_arrival = 0, s_duration = 0, s_waiting_time = 0,
      s_violations = no_violations\<rparr>"

definition Step_of_job :: "Job \<Rightarrow> Amount \<Rightarrow> Step" where
  "Step_of_job job ld =
     \<lparr>s_type = JOB, s_job_type = Some (j_type job), s_location = Some (j_location job),
      s_id = j_id job, s_service = j_service job, s_load = ld, s_arrival = 0,
      s_duration = 0, s_waiting_time = 0, s_violations = no_violations\<rparr>"

definition Step_of_break :: "Break \<Rightarrow> Amount \<Rightarrow> Step" where
  "Step_of_break b ld =
     \<lparr>s_type = BREAK, s_job_type = None, s_location = None, s_id = b_id b,
      s_service = b_service b, s_load = ld, s_arrival = 0, s_duration = 0,
      s_waiting_time = 0, s_violations = no_violations\<rparr>"

record Route =
  r_vehicle :: Id
  r_steps :: "Step list"
  r_cost :: Cost
  r_service :: Duration
  r_duration :: Duration
  r_waiting_time :: Duration
  r_priority :: Priority
  r_delivery :: Amount
  r_pickup :: Amount
  r_description :: string
  r_violations :: Violations

text \<open>Adding a violation type to a step, and to the last step of a vector.\<close>

definition add_type :: "VIOLATION \<Rightarrow> Step \<Rightarrow> Step" where
  "add_type t s =
     s\<lparr>s_violations := (s_violations s)\<lparr>viol_types := insert t (viol_types (s_violations s))\<rparr>\<rparr>"

subsection \<open>The MIP solver (GLPK)\<close>

text \<open>
  GLPK is an external library. A problem object is modelled by what the validator sets
  in it: direction, rows and columns with their names, kinds and bounds, the objective
  coefficients and the constraint matrix as the triples handed to \<open>glp_load_matrix\<close>.
  Rows and columns are numbered from 1.
\<close>

datatype glp_dir = GLP_MIN | GLP_MAX

datatype glp_bnd = GLP_FR | GLP_LO | GLP_UP | GLP_DB | GLP_FX

datatype glp_kind = GLP_CV | GLP_IV | GLP_BV

datatype glp_status = GLP_UNDEF | GLP_FEAS | GLP_NOFEAS | GLP_OPT

datatype glp_br_tech = GLP_BR_FFV | GLP_BR_LFV | GLP_BR_MFV | GLP_BR_DTH | GLP_BR_PCH

record glp_prob =
  prob_name :: string
  obj_dir :: glp_dir
  n_rows :: nat
  n_cols :: nat
  row_name :: "nat \<Rightarrow> string"
  row_bnds :: "nat \<Rightarrow> glp_bnd \<times> real \<times> real"
  col_name :: "nat \<Rightarrow> string"
  col_kind :: "nat \<Rightarrow> glp_kind"
  col_bnds :: "nat \<Rightarrow> glp_bnd \<times> real \<times> real"
  obj_coef :: "nat \<Rightarrow> real"
  a_matrix :: "(nat \<times> nat \<times> real) list"

record glp_iocp =
  presolve :: bool
  br_tech :: glp_br_tech

text \<open>What \<open>glp_mip_status\<close> and \<open>glp_mip_col_val\<close> read after \<open>glp_intopt\<close>.\<close>

record mip_solution =
  mip_status :: glp_status
  mip_col_val :: "nat \<Rightarrow> real"

text \<open>The solver itself is a parameter of the validator.\<close>

type_synonym glp_intopt_t = "glp_prob \<Rightarrow> glp_iocp \<Rightarrow> mip_solution"

text \<open>
  The solver's resources: the problem objects alive, and whether GLPK's environment
  block is allocated. The first GLPK call allocates the environment;
  \<open>glp_delete_prob\<close> frees one problem object and \<open>glp_free_env\<close> frees the
  environment with everything GLPK still holds.
\<close>

record glpk_env =
  env_allocated :: bool
  live_probs :: nat

definition glpk_released :: "glpk_env \<Rightarrow> bool" where
  "glpk_released e = (\<not> env_allocated e \<and> live_probs e = 0)"

definition glp_create_prob :: "glpk_env \<Rightarrow> glp_prob \<times> glpk_env" where
  "glp_create_prob e =
     (\<lparr>prob_name = [], obj_dir = GLP_MIN, n_rows = 0, n_cols = 0,
       row_name = (\<lambda>_. []), row_bnds = (\<lambda>_. (GLP_FR, 0, 0)),
       col_name = (\<lambda>_. []), col_kind = (\<lambda>_. GLP_CV), col_bnds = (\<lambda>_. (GLP_FX, 0, 0)),
       obj_coef = (\<lambda>_. 0), a_matrix = []\<rparr>,
      \<lparr>env_allocated = True, live_probs = live_probs e + 1\<rparr>)"

definition glp_delete_prob :: "glpk_env \<Rightarrow> glpk_env" where
  "glp_delete_prob e = e\<lparr>live_probs := live_probs e - 1\<rparr>"

definition glp_free_env :: "glpk_env \<Rightarrow> glpk_env" where
  "glp_free_env e = \<lparr>env_allocated = False, live_probs = 0\<rparr>"

definition glp_set_obj_coef :: "nat \<Rightarrow> real \<Rightarrow> glp_prob \<Rightarrow> glp_prob" where
  "glp_set_obj_coef j c lp = lp\<lparr>obj_coef := (obj_coef lp)(j := c)\<rparr>"

definition glp_set_row_name :: "nat \<Rightarrow> string \<Rightarrow> glp_prob \<Rightarrow> glp_prob" where
  "glp_set_row_name i s lp = lp\<lparr>row_name := (row_name lp)(i := s)\<rparr>"

definition glp_set_row_bnds :: "nat \<Rightarrow> glp_bnd \<Rightarrow> real \<Rightarrow> real \<Rightarrow> glp_prob \<Rightarrow> glp_prob" where
  "glp_set_row_bnds i t lb ub lp = lp\<lparr>row_bnds := (row_bnds lp)(i := (t, lb, ub))\<rparr>"

definition glp_set_col_name :: "nat \<Rightarrow> string \<Rightarrow> glp_prob \<Rightarrow> glp_prob" where
  "glp_set_col_name j s lp = lp\<lparr>col_name := (col_name lp)(j := s)\<rparr>"

definition glp_set_col_bnds :: "nat \<Rightarrow> glp_bnd \<Rightarrow> real \<Rightarrow> real \<Rightarrow> glp_prob \<Rightarrow> glp_prob" where
  "glp_set_col_bnds j t lb ub lp = lp\<lparr>col_bnds := (col_bnds lp)(j := (t, lb, ub))\<rparr>"

text \<open>Making a column binary also bounds it by 0 and 1.\<close>

definition glp_set_col_kind :: "nat \<Rightarrow> glp_kind \<Rightarrow> glp_prob \<Rightarrow> glp_prob" where
  "glp_set_col_kind j k lp =
     (if k = GLP_BV
      then lp\<lparr>col_kind := (col_kind lp)(j := k), col_bnds := (col_bnds lp)(j := (GLP_DB, 0, 1))\<rparr>
      else lp\<lparr>col_kind := (col_kind lp)(j := k)\<rparr>)"

definition glp_add_cols :: "nat \<Rightarrow> glp_prob \<Rightarrow> glp_prob" where
  "glp_add_cols k lp = lp\<lparr>n_cols := n_cols lp + k\<rparr>"

definition glp_add_rows :: "nat \<Rightarrow> glp_prob \<Rightarrow> glp_prob" where
  "glp_add_rows k lp = lp\<lparr>n_rows := n_rows lp + k\<rparr>"

definition glp_load_matrix :: "(nat \<times> nat \<times> real) list \<Rightarrow> glp_prob \<Rightarrow> glp_prob" where
  "glp_load_matrix entries lp = lp\<lparr>a_matrix := entries\<rparr>"

text \<open>The value of the objective function at an assignment of the columns.\<close>

definition objective_value :: "glp_prob \<Rightarrow> (nat \<Rightarrow> real) \<Rightarrow> real" where
  "objective_value lp x = (\<Sum>j \<leftarrow> [1 ..< n_cols lp + 1]. obj_coef lp j * x j)"

text \<open>
  \<open>get_duration\<close>: \<open>std::round\<close>, then the conversion to \<open>Duration\<close>. On the values
  that fit a \<open>Duration\<close> (the others have no defined conversion), rounding halves away
  from zero is rounding them up.
\<close>

definition get_duration :: "real \<Rightarrow> Duration" where
  "get_duration d = word_of_int (round d)"

text \<open>\<open>static_cast<double>\<close> of a \<open>Duration\<close>.\<close>

definition to_double :: "Duration \<Rightarrow> real" where
  "to_double d = real (unat d)"

subsection \<open>Ways out of the validator other than a return\<close>

text \<open>
  An \<open>Exception\<close> thrown by the validator itself, or \<open>std::bad_optional_access\<close>
  thrown by \<open>last_index.value()\<close> on an unset \<open>last_index\<close>. Assertions are compiled
  out (\<open>NDEBUG\<close>); reads outside a vector are undefined in C++ and are excluded by the
  well-formedness of the input where a property needs them.
\<close>

datatype failure = Thrown Exception | bad_optional_access

definition infeasible_route :: "Vehicle \<Rightarrow> failure" where
  "infeasible_route v =
     Thrown (Exception INPUT (''Infeasible route for vehicle '' @ to_string (v_id v) @ ''.''))"

subsection \<open>First pass: tasks, breaks, travel durations, planning horizon\<close>

record scan_state =
  sc_K :: nat
  sc_J :: "nat list"
  sc_B :: "nat list"
  sc_durations :: "Cost list"
  sc_horizon_start :: Duration
  sc_horizon_end :: Duration
  sc_last_index :: "Index option"
  sc_service_sum :: Duration
  sc_duration_sum :: Duration
  sc_default_job_tw :: nat
  sc_i :: nat

text \<open>The time windows of the task of a step (a job's, or a break's).\<close>

definition task_tws :: "Input \<Rightarrow> Vehicle \<Rightarrow> InputStep \<Rightarrow> TimeWindow list" where
  "task_tws input v step =
     (if step_type step = JOB then j_tws (inp_jobs input ! step_rank step)
      else b_tws (v_breaks v ! step_rank step))"

definition widen_horizon :: "TimeWindow list \<Rightarrow> scan_state \<Rightarrow> scan_state" where
  "widen_horizon tws s =
     s\<lparr>sc_horizon_start := min (sc_horizon_start s) (tw_start (hd tws)),
       sc_horizon_end := max (sc_horizon_end s) (tw_end (last tws))\<rparr>"

definition scan_step :: "Input \<Rightarrow> Vehicle \<Rightarrow> InputStep \<Rightarrow> scan_state \<Rightarrow> failure + scan_state" where
  "scan_step input v step s =
     (case step_type step of
        START \<Rightarrow>
          Inr (s\<lparr>sc_last_index := (if has_start v then v_start v else sc_last_index s),
                 sc_J := sc_J s @ [sc_i s], sc_B := sc_B s @ [0], sc_i := sc_i s + 1\<rparr>)
      | JOB \<Rightarrow>
          let job = inp_jobs input ! step_rank step;
              s = s\<lparr>sc_K := sc_K s + length (j_tws job),
                    sc_J := sc_J s @ [sc_i s], sc_B := sc_B s @ [0],
                    sc_service_sum := sc_service_sum s + j_service job\<rparr>;
              s = (if is_default (hd (j_tws job))
                   then s\<lparr>sc_default_job_tw := sc_default_job_tw s + 1\<rparr>
                   else widen_horizon (j_tws job) s);
              current_duration =
                (case sc_last_index s of
                   Some l \<Rightarrow> inp_matrix input l (j_location job)
                 | None \<Rightarrow> 0)
          in Inr (s\<lparr>sc_durations := sc_durations s @ [current_duration],
                    sc_duration_sum := sc_duration_sum s + current_duration,
                    sc_last_index := Some (j_location job),
                    sc_i := sc_i s + 1\<rparr>)
      | BREAK \<Rightarrow>
          let b = v_breaks v ! step_rank step;
              s = s\<lparr>sc_K := sc_K s + length (b_tws b),
                    sc_B := (sc_B s)[length (sc_B s) - 1 := last (sc_B s) + 1],
                    sc_i := sc_i s + 1,
                    sc_service_sum := sc_service_sum s + b_service b\<rparr>
          in Inr (if \<not> is_default (hd (b_tws b)) then widen_horizon (b_tws b) s else s)
      | END \<Rightarrow>
          (if has_end v then
             (case sc_last_index s of
                None \<Rightarrow> Inl bad_optional_access
              | Some l \<Rightarrow>
                  let current_duration = inp_matrix input l (the (v_end v))
                  in Inr (s\<lparr>sc_durations := sc_durations s @ [current_duration],
                            sc_duration_sum := sc_duration_sum s + current_duration\<rparr>))
           else Inr (s\<lparr>sc_durations := sc_durations s @ [0]\<rparr>)))"

fun scan_steps :: "Input \<Rightarrow> Vehicle \<Rightarrow> InputStep list \<Rightarrow> scan_state \<Rightarrow> failure + scan_state" where
  "scan_steps input v [] s = Inr s"
| "scan_steps input v (step # steps) s =
     (case scan_step input v step s of
        Inl f \<Rightarrow> Inl f
      | Inr s' \<Rightarrow> scan_steps input v steps s')"

definition scan_init :: "Vehicle \<Rightarrow> scan_state" where
  "scan_init v =
     (let s = \<lparr>sc_K = 0, sc_J = [], sc_B = [], sc_durations = [],
               sc_horizon_start = - 1, sc_horizon_end = 0, sc_last_index = None,
               sc_service_sum = 0, sc_duration_sum = 0, sc_default_job_tw = 0, sc_i = 0\<rparr>
      in if \<not> is_default (v_tw v)
         then s\<lparr>sc_horizon_start := min (sc_horizon_start s) (tw_start (v_tw v)),
                 sc_horizon_end := max (sc_horizon_end s) (tw_end (v_tw v))\<rparr>
         else s)"

text \<open>
  "Refine planning horizon": the makespan estimate and the planning horizon. The result
  is \<open>(makespan_estimate, horizon_start, horizon_end)\<close>.
\<close>

definition refine_horizon :: "scan_state \<Rightarrow> Duration \<times> Duration \<times> Duration" where
  "refine_horizon s =
     (let makespan_estimate = sc_duration_sum s + sc_service_sum s;
          horizon_start = sc_horizon_start s;
          horizon_end = sc_horizon_end s
      in if horizon_start = - 1
         then (makespan_estimate, 0, 10 * makespan_estimate)
         else
           let makespan_estimate =
                 (if makespan_estimate = 0 then horizon_end - horizon_start
                  else makespan_estimate);
               horizon_start =
                 (if makespan_estimate < horizon_start then horizon_start - makespan_estimate
                  else 0)
           in (makespan_estimate, horizon_start, horizon_end + makespan_estimate))"

subsection \<open>Second pass: bounds for the service times\<close>

record bounds_state =
  bs_horizon_start :: Duration
  bs_horizon_end :: Duration
  bs_t_i_LB :: "Duration list"
  bs_t_i_UB :: "Duration list"
  bs_previous_LB :: Duration
  bs_previous_service :: Duration
  bs_previous_travel :: Duration
  bs_first_relevant_tw_rank :: "nat list"
  bs_rank_in_J :: nat

text \<open>
  The rank of the last time window that starts at \<open>LB\<close> or before, as
  \<open>std::find_if\<close> over the reversed vector finds it.
\<close>

fun find_last_rank :: "('a \<Rightarrow> bool) \<Rightarrow> 'a list \<Rightarrow> nat option" where
  "find_last_rank P [] = None"
| "find_last_rank P (x # xs) =
     (case find_last_rank P xs of
        Some r \<Rightarrow> Some (r + 1)
      | None \<Rightarrow> if P x then Some 0 else None)"

definition first_relevant :: "TimeWindow list \<Rightarrow> Duration \<Rightarrow> nat" where
  "first_relevant tws LB =
     (case find_last_rank (\<lambda>tw. tw_start tw \<le> LB) tws of
        None \<Rightarrow> 0
      | Some tw_rank \<Rightarrow>
          if tw_end (tws ! tw_rank) < LB \<and> tw_rank \<noteq> length tws - 1 \<and>
             tw_start (tws ! (tw_rank + 1)) - LB < LB - tw_end (tws ! tw_rank)
          then tw_rank + 1
          else tw_rank)"

text \<open>The bounds a step's forced service gives, and the planning horizon it widens.\<close>

definition apply_forced ::
  "ForcedService \<Rightarrow> Duration \<times> Duration \<Rightarrow> (Duration \<times> Duration) \<times> Duration \<times> Duration" where
  "apply_forced fs h =
     (let (horizon_start, horizon_end) = h;
          LB = horizon_start; UB = horizon_end;
          (horizon_start, horizon_end, LB, UB) =
            (case forced_at fs of
               None \<Rightarrow> (horizon_start, horizon_end, LB, UB)
             | Some a \<Rightarrow> (min horizon_start a, max horizon_end a, a, a));
          (horizon_start, horizon_end, LB) =
            (case forced_after fs of
               None \<Rightarrow> (horizon_start, horizon_end, LB)
             | Some a \<Rightarrow> (min horizon_start a, max horizon_end a, a));
          (horizon_start, horizon_end, UB) =
            (case forced_before fs of
               None \<Rightarrow> (horizon_start, horizon_end, UB)
             | Some b \<Rightarrow> (min horizon_start b, max horizon_end b, b))
      in ((horizon_start, horizon_end), LB, UB))"

definition bounds_step ::
  "Input \<Rightarrow> Vehicle \<Rightarrow> Cost list \<Rightarrow> InputStep \<Rightarrow> bounds_state \<Rightarrow> bounds_state" where
  "bounds_step input v durations step s =
     (let ((horizon_start, horizon_end), LB, UB) =
            apply_forced (forced_service step) (bs_horizon_start s, bs_horizon_end s);
          s = s\<lparr>bs_horizon_start := horizon_start, bs_horizon_end := horizon_end\<rparr>;
          (LB, s) =
            (case step_type step of
               START \<Rightarrow> (LB, s\<lparr>bs_previous_LB := LB, bs_rank_in_J := bs_rank_in_J s + 1\<rparr>)
             | JOB \<Rightarrow>
                 let LB = max LB (bs_previous_LB s + bs_previous_service s
                                  + bs_previous_travel s)
                 in (LB, s\<lparr>bs_previous_LB := LB,
                           bs_previous_service := j_service (inp_jobs input ! step_rank step),
                           bs_previous_travel := durations ! bs_rank_in_J s,
                           bs_rank_in_J := bs_rank_in_J s + 1\<rparr>)
             | BREAK \<Rightarrow>
                 let LB = max LB (bs_previous_LB s + bs_previous_service s)
                 in (LB, s\<lparr>bs_previous_LB := LB,
                           bs_previous_service := b_service (v_breaks v ! step_rank step)\<rparr>)
             | END \<Rightarrow>
                 (max LB (bs_previous_LB s + bs_previous_service s + bs_previous_travel s),
                  s));
          s = s\<lparr>bs_t_i_LB := bs_t_i_LB s @ [LB], bs_t_i_UB := bs_t_i_UB s @ [UB]\<rparr>
      in if step_type step = JOB \<or> step_type step = BREAK
         then s\<lparr>bs_first_relevant_tw_rank :=
                  bs_first_relevant_tw_rank s @ [first_relevant (task_tws input v step) LB]\<rparr>
         else s)"

definition bounds_init :: "Duration \<Rightarrow> Duration \<Rightarrow> Cost list \<Rightarrow> bounds_state" where
  "bounds_init horizon_start horizon_end durations =
     \<lparr>bs_horizon_start = horizon_start, bs_horizon_end = horizon_end,
      bs_t_i_LB = [], bs_t_i_UB = [],
      bs_previous_LB = horizon_start, bs_previous_service = 0,
      bs_previous_travel = hd durations,
      bs_first_relevant_tw_rank = [], bs_rank_in_J = 0\<rparr>"

definition bounds_steps ::
  "Input \<Rightarrow> Vehicle \<Rightarrow> Cost list \<Rightarrow> InputStep list \<Rightarrow> bounds_state \<Rightarrow> bounds_state" where
  "bounds_steps input v durations steps s = fold (bounds_step input v durations) steps s"

subsection \<open>The mixed-integer program\<close>

text \<open>
  What the passes above hand to the construction of the program: \<open>n\<close> tasks, \<open>K\<close> time
  windows in all, \<open>J\<close>, \<open>B\<close>, the travel durations, the number of jobs with a default time
  window, the makespan estimate, the planning horizon and the bounds.
\<close>

record mip_data =
  md_n :: nat
  md_K :: nat
  md_J :: "nat list"
  md_B :: "nat list"
  md_durations :: "Cost list"
  md_default_job_tw :: nat
  md_makespan_estimate :: Duration
  md_horizon_start :: Duration
  md_horizon_end :: Duration
  md_t_i_LB :: "Duration list"
  md_t_i_UB :: "Duration list"
  md_first_relevant_tw_rank :: "nat list"

definition nb_constraints :: "mip_data \<Rightarrow> nat" where
  "nb_constraints d = 4 * md_n d + 3 + length (md_J d) + 2"

definition nb_non_zero :: "mip_data \<Rightarrow> nat" where
  "nb_non_zero d =
     2 * (3 * md_n d + 3) + 3 * md_K d + 2 * md_n d + 2 - md_default_job_tw d + 2
     + md_n d + 2"

definition start_Y_col :: "mip_data \<Rightarrow> nat" where
  "start_Y_col d = md_n d + 3"

definition start_X_col :: "mip_data \<Rightarrow> nat" where
  "start_X_col d = 2 * md_n d + 4 + 1"

definition start_delta_col :: "mip_data \<Rightarrow> nat" where
  "start_delta_col d = start_X_col d + md_K d"

definition nb_var :: "mip_data \<Rightarrow> nat" where
  "nb_var d = start_delta_col d + md_n d"

text \<open>"Set objective for first optimization round (violations and makespan)."\<close>

definition set_first_objective :: "mip_data \<Rightarrow> glp_prob \<Rightarrow> glp_prob" where
  "set_first_objective d lp =
     (let lp = glp_add_cols (nb_var d) lp;
          lp = fold (\<lambda>i. glp_set_obj_coef (start_Y_col d + i)
                            (to_double (md_makespan_estimate d)))
                 [0 ..< md_n d + 2] lp;
          lp = glp_set_obj_coef (md_n d + 2) 1 lp
      in glp_set_obj_coef 1 (- 1) lp)"

text \<open>
  Rows. The state of these loops is the problem object and \<open>current_row\<close>; \<open>next_row\<close>
  names a row, sets its bounds and moves on.
\<close>

definition next_row ::
  "string \<Rightarrow> glp_bnd \<Rightarrow> real \<Rightarrow> real \<Rightarrow> glp_prob \<times> nat \<Rightarrow> glp_prob \<times> nat" where
  "next_row name t lb ub st =
     (let (lp, current_row) = st
      in (glp_set_row_bnds current_row t lb ub (glp_set_row_name current_row name lp),
          current_row + 1))"

definition task_service :: "Input \<Rightarrow> Vehicle \<Rightarrow> InputStep \<Rightarrow> Duration" where
  "task_service input v step =
     (if step_type step = JOB then j_service (inp_jobs input ! step_rank step)
      else b_service (v_breaks v ! step_rank step))"

definition set_rows ::
  "Input \<Rightarrow> Vehicle \<Rightarrow> InputStep list \<Rightarrow> mip_data \<Rightarrow> glp_prob \<Rightarrow> glp_prob" where
  "set_rows input v steps d lp =
     (let n = md_n d;
          st = (glp_add_rows (nb_constraints d) lp, 1);
          st = next_row ''P0'' GLP_LO 0 0 st;
          st = fold (\<lambda>i. next_row (''P'' @ to_string (i + 1)) GLP_LO
                            (to_double (task_service input v (steps ! (1 + i)))) 0)
                 [0 ..< n] st;
          start_LB = (if is_default (v_tw v) then 0
                      else to_double (tw_start (v_tw v) - md_horizon_start d));
          st = next_row ''L0'' GLP_LO start_LB 0 st;
          st = fold (\<lambda>i. next_row (''L'' @ to_string (i + 1)) GLP_LO 0 0) [0 ..< n] st;
          st = fold (\<lambda>i. next_row (''D'' @ to_string (i + 1)) GLP_UP 0 0) [0 ..< n] st;
          st = next_row (''D'' @ to_string (n + 1)) GLP_UP 0
                 (to_double (tw_end (v_tw v) - md_horizon_start d)) st;
          st = fold (\<lambda>i. next_row (''S'' @ to_string i) GLP_FX 1 1) [1 ..< n + 1] st;
          st = fold (\<lambda>r. next_row (''Delta'' @ to_string (md_J d ! r)) GLP_FX
                            (to_double (md_durations d ! r)) (to_double (md_durations d ! r)))
                 [0 ..< length (md_J d)] st;
          st = next_row ''Makespan'' GLP_LO 0 0 st;
          (lp, current_row) = st
      in glp_set_row_bnds current_row GLP_LO 0 0 (glp_set_row_name current_row ''Sigma_Y'' lp))"

text \<open>
  Columns for the service times \<open>t_i\<close>. This is where contradictory bounds throw; the
  problem object exists by then.
\<close>

fun set_t_cols ::
  "Vehicle \<Rightarrow> mip_data \<Rightarrow> nat list \<Rightarrow> glp_prob \<times> nat \<Rightarrow> failure + glp_prob \<times> nat" where
  "set_t_cols v d [] st = Inr st"
| "set_t_cols v d (i # is) (lp, current_col) =
     (let lp = glp_set_col_name current_col (''t'' @ to_string i) lp;
          LB = md_t_i_LB d ! i;
          UB = md_t_i_UB d ! i
      in if UB < LB then Inl (infeasible_route v)
         else
           let lp =
                 (if LB = UB
                  then glp_set_col_bnds current_col GLP_FX
                         (to_double (LB - md_horizon_start d))
                         (to_double (LB - md_horizon_start d)) lp
                  else glp_set_col_bnds current_col GLP_DB
                         (to_double (LB - md_horizon_start d))
                         (to_double (UB - md_horizon_start d)) lp)
           in set_t_cols v d is (lp, current_col + 1))"

text \<open>Columns for the violations \<open>Y_i\<close>, the window choices \<open>X_i_k\<close> and the \<open>delta_i\<close>.\<close>

definition next_col ::
  "string \<Rightarrow> glp_bnd \<Rightarrow> real \<Rightarrow> real \<Rightarrow> glp_prob \<times> nat \<Rightarrow> glp_prob \<times> nat" where
  "next_col name t lb ub st =
     (let (lp, current_col) = st
      in (glp_set_col_bnds current_col t lb ub (glp_set_col_name current_col name lp),
          current_col + 1))"

definition next_X_col :: "nat \<Rightarrow> nat \<Rightarrow> nat \<Rightarrow> glp_prob \<times> nat \<Rightarrow> glp_prob \<times> nat" where
  "next_X_col first_rank i k st =
     (let (lp, current_col) = st;
          lp = glp_set_col_name current_col (''X'' @ to_string (i + 1) @ ''_'' @ to_string k) lp;
          lp = glp_set_col_kind current_col GLP_BV lp;
          lp = (if k < first_rank then glp_set_col_bnds current_col GLP_FX 0 0 lp else lp)
      in (lp, current_col + 1))"

definition set_other_cols ::
  "Input \<Rightarrow> Vehicle \<Rightarrow> InputStep list \<Rightarrow> mip_data \<Rightarrow> glp_prob \<times> nat \<Rightarrow> glp_prob" where
  "set_other_cols input v steps d st =
     (let n = md_n d;
          st = fold (\<lambda>i. next_col (''Y'' @ to_string i) GLP_LO 0 0) [0 ..< n + 2] st;
          st = fold (\<lambda>i st.
                   fold (next_X_col (md_first_relevant_tw_rank d ! i) i)
                     [0 ..< length (task_tws input v (steps ! (1 + i)))] st)
                 [0 ..< n] st;
          st = fold (\<lambda>i. next_col (''delta'' @ to_string i) GLP_LO 0 0) [0 ..< n + 1] st
      in fst st)"

text \<open>
  The non-zero elements of the matrix, in the order the source writes them into \<open>ia\<close>,
  \<open>ja\<close> and \<open>ar\<close>. The state of the loops over the tasks is the list written so far,
  \<open>constraint_rank\<close> and \<open>current_X_rank\<close>.
\<close>

definition lead_time_row ::
  "Input \<Rightarrow> Vehicle \<Rightarrow> InputStep list \<Rightarrow> mip_data \<Rightarrow> nat \<Rightarrow>
   (nat \<times> nat \<times> real) list \<times> nat \<times> nat \<Rightarrow> (nat \<times> nat \<times> real) list \<times> nat \<times> nat" where
  "lead_time_row input v steps d i st =
     (let (es, constraint_rank, current_X_rank) = st;
          es = es @ [(constraint_rank, i + 2, 1), (constraint_rank, md_n d + 4 + i, 1)];
          step = steps ! (1 + i);
          tws = task_tws input v step;
          (es, current_X_rank) =
            (if step_type step = JOB \<and> is_default (hd tws) then (es, current_X_rank + 1)
             else (es @ map (\<lambda>(k, tw). (constraint_rank, current_X_rank + k,
                                          - to_double (tw_start tw - md_horizon_start d)))
                          (enumerate 0 tws),
                   current_X_rank + length tws))
      in (es, constraint_rank + 1, current_X_rank))"

definition delay_row ::
  "Input \<Rightarrow> Vehicle \<Rightarrow> InputStep list \<Rightarrow> mip_data \<Rightarrow> nat \<Rightarrow>
   (nat \<times> nat \<times> real) list \<times> nat \<times> nat \<Rightarrow> (nat \<times> nat \<times> real) list \<times> nat \<times> nat" where
  "delay_row input v steps d i st =
     (let (es, constraint_rank, current_X_rank) = st;
          es = es @ [(constraint_rank, i + 2, 1), (constraint_rank, md_n d + 4 + i, - 1)];
          step = steps ! (1 + i);
          tws = task_tws input v step;
          (es, current_X_rank) =
            (if step_type step = JOB \<and> is_default (hd tws)
             then (es @ [(constraint_rank, current_X_rank, - to_double (md_horizon_end d))],
                   current_X_rank + 1)
             else (es @ map (\<lambda>(k, tw). (constraint_rank, current_X_rank + k,
                                          - to_double (tw_end tw - md_horizon_start d)))
                          (enumerate 0 tws),
                   current_X_rank + length tws))
      in (es, constraint_rank + 1, current_X_rank))"

definition decision_row ::
  "Input \<Rightarrow> Vehicle \<Rightarrow> InputStep list \<Rightarrow> nat \<Rightarrow>
   (nat \<times> nat \<times> real) list \<times> nat \<times> nat \<Rightarrow> (nat \<times> nat \<times> real) list \<times> nat \<times> nat" where
  "decision_row input v steps i st =
     (let (es, constraint_rank, current_X_rank) = st;
          tws = task_tws input v (steps ! (1 + i))
      in (es @ map (\<lambda>k. (constraint_rank, current_X_rank + k, 1)) [0 ..< length tws],
          constraint_rank + 1, current_X_rank + length tws))"

definition delta_row ::
  "nat \<Rightarrow> (nat \<times> nat \<times> real) list \<times> nat \<times> nat \<Rightarrow> (nat \<times> nat \<times> real) list \<times> nat \<times> nat" where
  "delta_row Bi st =
     (let (es, constraint_rank, current_delta_rank) = st;
          row_limit = current_delta_rank + 1 + Bi
      in (es @ map (\<lambda>k. (constraint_rank, k, 1)) [current_delta_rank ..< row_limit],
          constraint_rank + 1, row_limit))"

definition matrix_entries ::
  "Input \<Rightarrow> Vehicle \<Rightarrow> InputStep list \<Rightarrow> mip_data \<Rightarrow> (nat \<times> nat \<times> real) list" where
  "matrix_entries input v steps d =
     (let n = md_n d;
          es = concat (map (\<lambda>i. [(i, i, - 1), (i, i + 1, 1), (i, start_delta_col d + i - 1, - 1)])
                         [1 ..< n + 2]);
          constraint_rank = n + 2;
          es = es @ [(constraint_rank, 1, 1), (constraint_rank, start_Y_col d, 1)];
          constraint_rank = constraint_rank + 1;
          (es, constraint_rank, current_X_rank) =
            fold (lead_time_row input v steps d) [0 ..< n] (es, constraint_rank, start_X_col d);
          (es, constraint_rank, current_X_rank) =
            fold (delay_row input v steps d) [0 ..< n] (es, constraint_rank, start_X_col d);
          es = es @ [(constraint_rank, n + 2, 1), (constraint_rank, 2 * n + 4, - 1)];
          constraint_rank = constraint_rank + 1;
          (es, constraint_rank, current_X_rank) =
            fold (decision_row input v steps) [0 ..< n] (es, constraint_rank, start_X_col d);
          (es, constraint_rank, current_delta_rank) =
            fold delta_row (md_B d) (es, constraint_rank, start_delta_col d);
          es = es @ [(constraint_rank, 1, - 1), (constraint_rank, n + 2, 1)];
          constraint_rank = constraint_rank + 1
      in es @ map (\<lambda>i. (constraint_rank, i, 1)) [start_Y_col d ..< start_X_col d])"

text \<open>
  The whole construction, from \<open>glp_create_prob\<close> to \<open>glp_load_matrix\<close>. It fails only
  where \<open>set_t_cols\<close> throws.
\<close>

definition build_problem ::
  "Input \<Rightarrow> Vehicle \<Rightarrow> InputStep list \<Rightarrow> mip_data \<Rightarrow> glp_prob \<Rightarrow> failure + glp_prob" where
  "build_problem input v steps d lp =
     (let lp = lp\<lparr>prob_name := ''choose_ETA'', obj_dir := GLP_MIN\<rparr>;
          lp = set_first_objective d lp;
          lp = set_rows input v steps d lp
      in case set_t_cols v d [0 ..< md_n d + 2] (lp, 1) of
           Inl f \<Rightarrow> Inl f
         | Inr st \<Rightarrow>
             Inr (glp_load_matrix (matrix_entries input v steps d)
                    (set_other_cols input v steps d st)))"

subsection \<open>Second round: objective and pinned rows\<close>

text \<open>
  The weights of the \<open>delta\<close> columns and \<open>delta_sum_majorant\<close>. The state is the
  problem object, \<open>current_delta_rank\<close> and the majorant. The source adds
  \<open>B[i] * durations[i]\<close> as a \<open>double\<close>; the sum is kept as a \<open>Duration\<close>.
\<close>

definition delta_weights ::
  "mip_data \<Rightarrow> nat \<Rightarrow> glp_prob \<times> nat \<times> Duration \<Rightarrow> glp_prob \<times> nat \<times> Duration" where
  "delta_weights d i st =
     (let (lp, current_delta_rank, delta_sum_majorant) = st;
          lp = fold (\<lambda>k. glp_set_obj_coef k (real (k - current_delta_rank)))
                 [current_delta_rank + 1 ..< current_delta_rank + 1 + md_B d ! i] lp
      in (lp, current_delta_rank + (1 + md_B d ! i),
          delta_sum_majorant + of_nat (md_B d ! i) * (md_durations d ! i)))"

definition set_second_objective :: "mip_data \<Rightarrow> mip_solution \<Rightarrow> glp_prob \<Rightarrow> glp_prob" where
  "set_second_objective d sol1 lp =
     (let n = md_n d;
          (lp, current_delta_rank, delta_sum_majorant) =
            fold (delta_weights d) [0 ..< length (md_B d)] (lp, start_delta_col d, 0);
          lp = fold (\<lambda>i. glp_set_obj_coef (start_Y_col d + i) 0) [0 ..< n + 2] lp;
          lp = glp_set_obj_coef (n + 2) 0 lp;
          lp = glp_set_obj_coef 1 0 lp;
          M = (if delta_sum_majorant = 0 then 1 else delta_sum_majorant);
          lp = fold (\<lambda>i. glp_set_obj_coef i (to_double M)) [2 ..< n + 2] lp;
          best_makespan = get_duration (mip_col_val sol1 (n + 2))
                          - get_duration (mip_col_val sol1 1);
          lp = glp_set_row_bnds (nb_constraints d - 1) GLP_FX
                 (to_double best_makespan) (to_double best_makespan) lp;
          sum_y_i = fold (\<lambda>i s. s + get_duration (mip_col_val sol1 i))
                      [start_Y_col d ..< start_X_col d] 0
      in glp_set_row_bnds (nb_constraints d) GLP_FX (to_double sum_y_i) (to_double sum_y_i) lp)"

subsection \<open>Reading the solution\<close>

record mip_output =
  mo_v_start :: Duration
  mo_v_end :: Duration
  mo_start_lead_time :: Duration
  mo_end_delay :: Duration
  mo_start_travel :: Duration
  mo_task_ETA :: "Duration list"
  mo_task_travels :: "Duration list"
  mo_task_tw_ranks :: "Index list"

text \<open>
  "Populate vector storing picked time window ranks": for each task, the ranks \<open>k\<close> whose
  binary variable is 1. The state is \<open>current_X_rank\<close> and the vector.
\<close>

definition picked_ranks ::
  "Input \<Rightarrow> Vehicle \<Rightarrow> mip_solution \<Rightarrow> InputStep \<Rightarrow> nat \<times> Index list \<Rightarrow> nat \<times> Index list" where
  "picked_ranks input v sol step st =
     (let (current_X_rank, task_tw_ranks) = st
      in if step_type step = JOB \<or> step_type step = BREAK
         then
           let m = length (task_tws input v step)
           in (current_X_rank + m,
               task_tw_ranks @
                 filter (\<lambda>k. get_duration (mip_col_val sol (current_X_rank + k)) = 1) [0 ..< m])
         else st)"

definition read_solution ::
  "Input \<Rightarrow> Vehicle \<Rightarrow> InputStep list \<Rightarrow> mip_data \<Rightarrow> mip_solution \<Rightarrow> mip_output" where
  "read_solution input v steps d sol =
     (let n = md_n d; horizon_start = md_horizon_start d
      in \<lparr>mo_v_start = horizon_start + get_duration (mip_col_val sol 1),
          mo_v_end = horizon_start + get_duration (mip_col_val sol (n + 2)),
          mo_start_lead_time = get_duration (mip_col_val sol (start_Y_col d)),
          mo_end_delay = get_duration (mip_col_val sol (2 * n + 4)),
          mo_start_travel = get_duration (mip_col_val sol (start_delta_col d)),
          mo_task_ETA =
            map (\<lambda>i. horizon_start + get_duration (mip_col_val sol (i + 2))) [0 ..< n],
          mo_task_travels =
            map (\<lambda>i. get_duration (mip_col_val sol (start_delta_col d + 1 + i))) [0 ..< n],
          mo_task_tw_ranks =
            snd (fold (picked_ranks input v sol) steps (start_X_col d, []))\<rparr>)"

subsection \<open>Generating the route\<close>

text \<open>
  The state of the loop over the steps. The unordered sets that are only tested for
  membership are sets; \<open>expected_delivery_ranks\<close>, which the source iterates over at the
  end, is a list without repetition; the unordered map is a partial function.
\<close>

record route_state =
  rs_duration :: Cost
  rs_service :: Duration
  rs_forward_wt :: Duration
  rs_priority :: Priority
  rs_sum_pickups :: Amount
  rs_sum_deliveries :: Amount
  rs_lead_time :: Duration
  rs_delay :: Duration
  rs_v_types :: "VIOLATION set"
  rs_current_load :: Amount
  rs_previous_over_capacity :: bool
  rs_expected_delivery_ranks :: "Index list"
  rs_delivery_first_ranks :: "Index set"
  rs_delivery_to_pickup_step_rank :: "Index \<Rightarrow> nat option"
  rs_break_ids :: "Id set"
  rs_sol_steps :: "Step list"
  rs_previous_start :: Duration
  rs_previous_service :: Duration
  rs_previous_travel :: Duration
  rs_task_rank :: nat
  rs_unassigned_ranks :: "Index set"

text \<open>"Startup load is the sum of deliveries for jobs."\<close>

definition startup_load :: "Input \<Rightarrow> InputStep list \<Rightarrow> Amount" where
  "startup_load input steps =
     fold (\<lambda>step current_load.
             if step_type step = JOB \<and> step_job_type step = SINGLE
             then amount_add current_load (j_delivery (inp_jobs input ! step_rank step))
             else current_load)
       steps (inp_zero_amount input)"

text \<open>Recording a violation type in the last step and in the route's set of types.\<close>

definition flag :: "VIOLATION \<Rightarrow> route_state \<Rightarrow> route_state" where
  "flag t s =
     s\<lparr>rs_sol_steps := butlast (rs_sol_steps s) @ [add_type t (last (rs_sol_steps s))],
       rs_v_types := insert t (rs_v_types s)\<rparr>"

definition set_last_lead_time :: "Duration \<Rightarrow> route_state \<Rightarrow> route_state" where
  "set_last_lead_time lt s =
     (let c = last (rs_sol_steps s)
      in s\<lparr>rs_sol_steps := butlast (rs_sol_steps s) @
                [c\<lparr>s_violations := (s_violations c)\<lparr>viol_lead_time := lt\<rparr>\<rparr>],
           rs_lead_time := rs_lead_time s + lt\<rparr>)"

definition set_last_delay :: "Duration \<Rightarrow> route_state \<Rightarrow> route_state" where
  "set_last_delay dl s =
     (let c = last (rs_sol_steps s)
      in s\<lparr>rs_sol_steps := butlast (rs_sol_steps s) @
                [c\<lparr>s_violations := (s_violations c)\<lparr>viol_delay := dl\<rparr>\<rparr>],
           rs_delay := rs_delay s + dl\<rparr>)"

text \<open>
  "Handle violations" of the chosen time window, for the step just added (the source has
  these lines once for jobs and once for breaks).
\<close>

definition handle_tw_violations :: "TimeWindow \<Rightarrow> Duration \<Rightarrow> route_state \<Rightarrow> route_state" where
  "handle_tw_violations tw service_start s =
     (let s = (if service_start < tw_start tw
               then set_last_lead_time (tw_start tw - service_start) (flag LEAD_TIME s)
               else s)
      in if tw_end tw < service_start
         then set_last_delay (service_start - tw_end tw) (flag DELAY s)
         else s)"

text \<open>The step for a task arrives, waits and is appended (jobs and breaks alike).\<close>

definition push_task_step :: "Step \<Rightarrow> mip_output \<Rightarrow> route_state \<Rightarrow> route_state" where
  "push_task_step new_step out s =
     (let duration = rs_duration s + rs_previous_travel s;
          arrival = rs_previous_start s + rs_previous_service s + rs_previous_travel s;
          service_start = mo_task_ETA out ! rs_task_rank s;
          wt = service_start - arrival
      in s\<lparr>rs_duration := duration,
           rs_sol_steps := rs_sol_steps s @
             [new_step\<lparr>s_duration := duration, s_arrival := arrival, s_waiting_time := wt\<rparr>],
           rs_forward_wt := rs_forward_wt s + wt\<rparr>)"

definition precedence_check :: "Job \<Rightarrow> Index \<Rightarrow> route_state \<Rightarrow> route_state" where
  "precedence_check job job_rank s =
     (case j_type job of
        SINGLE \<Rightarrow> s
      | PICKUP \<Rightarrow>
          if job_rank + 1 \<in> rs_delivery_first_ranks s then flag PRECEDENCE s
          else s\<lparr>rs_expected_delivery_ranks :=
                    List.insert (job_rank + 1) (rs_expected_delivery_ranks s),
                 rs_delivery_to_pickup_step_rank :=
                   (case rs_delivery_to_pickup_step_rank s (job_rank + 1) of
                      Some _ \<Rightarrow> rs_delivery_to_pickup_step_rank s
                    | None \<Rightarrow> (rs_delivery_to_pickup_step_rank s)
                               (job_rank + 1 := Some (length (rs_sol_steps s) - 1)))\<rparr>
      | DELIVERY \<Rightarrow>
          if job_rank \<notin> set (rs_expected_delivery_ranks s)
          then (flag PRECEDENCE s)
                 \<lparr>rs_delivery_first_ranks := insert job_rank (rs_delivery_first_ranks s)\<rparr>
          else s\<lparr>rs_expected_delivery_ranks :=
                    removeAll job_rank (rs_expected_delivery_ranks s)\<rparr>)"

definition route_step ::
  "Input \<Rightarrow> Index \<Rightarrow> Vehicle \<Rightarrow> mip_output \<Rightarrow> InputStep \<Rightarrow> route_state \<Rightarrow> route_state" where
  "route_step input vehicle_rank v out step s =
     (case step_type step of
        START \<Rightarrow> s
      | JOB \<Rightarrow>
          let job_rank = step_rank step;
              job = inp_jobs input ! job_rank;
              s = s\<lparr>rs_service := rs_service s + j_service job,
                    rs_priority := rs_priority s + j_priority job,
                    rs_current_load :=
                      amount_sub (amount_add (rs_current_load s) (j_pickup job))
                        (j_delivery job),
                    rs_sum_pickups := amount_add (rs_sum_pickups s) (j_pickup job),
                    rs_sum_deliveries := amount_add (rs_sum_deliveries s) (j_delivery job)\<rparr>;
              s = push_task_step (Step_of_job job (rs_current_load s)) out s;
              service_start = mo_task_ETA out ! rs_task_rank s;
              tw_rank = mo_task_tw_ranks out ! rs_task_rank s;
              s = handle_tw_violations (j_tws job ! tw_rank) service_start s;
              over_capacity = (\<not> amount_le (rs_current_load s) (v_capacity v));
              s = (if rs_previous_over_capacity s \<or> over_capacity then flag LOAD s else s);
              s = s\<lparr>rs_previous_over_capacity := over_capacity\<rparr>;
              s = (if \<not> inp_vehicle_ok_with_job input vehicle_rank job_rank
                   then flag SKILLS s else s);
              s = precedence_check job job_rank s
          in s\<lparr>rs_unassigned_ranks := rs_unassigned_ranks s - {job_rank},
               rs_previous_start := service_start,
               rs_previous_service := j_service job,
               rs_previous_travel := mo_task_travels out ! rs_task_rank s,
               rs_task_rank := rs_task_rank s + 1\<rparr>
      | BREAK \<Rightarrow>
          let break_rank = step_rank step;
              b = v_breaks v ! break_rank;
              s = s\<lparr>rs_break_ids := rs_break_ids s - {b_id b},
                    rs_service := rs_service s + b_service b\<rparr>;
              s = push_task_step (Step_of_break b (rs_current_load s)) out s;
              service_start = mo_task_ETA out ! rs_task_rank s;
              tw_rank = mo_task_tw_ranks out ! rs_task_rank s;
              s = handle_tw_violations (b_tws b ! tw_rank) service_start s;
              s = (if rs_previous_over_capacity s then flag LOAD s else s)
          in s\<lparr>rs_previous_start := service_start,
               rs_previous_service := b_service b,
               rs_previous_travel := mo_task_travels out ! rs_task_rank s,
               rs_task_rank := rs_task_rank s + 1\<rparr>
      | END \<Rightarrow>
          if has_end v then
            let duration = rs_duration s + rs_previous_travel s;
                arrival = rs_previous_start s + rs_previous_service s + rs_previous_travel s;
                wt = mo_v_end out - arrival;
                s = s\<lparr>rs_duration := duration,
                      rs_sol_steps := rs_sol_steps s @
                        [(Step_at END (the (v_end v)) (rs_current_load s))
                           \<lparr>s_duration := duration, s_arrival := arrival,
                            s_waiting_time := wt\<rparr>],
                      rs_forward_wt := rs_forward_wt s + wt\<rparr>;
                s = (if tw_end (v_tw v) < mo_v_end out
                     then set_last_delay (mo_v_end out - tw_end (v_tw v)) (flag DELAY s)
                     else s)
            in if rs_previous_over_capacity s then flag LOAD s else s
          else s)"

text \<open>The state before the loop: the start step, if the vehicle has a start.\<close>

definition route_init ::
  "Input \<Rightarrow> Vehicle \<Rightarrow> InputStep list \<Rightarrow> mip_output \<Rightarrow> Index set \<Rightarrow> route_state" where
  "route_init input v steps out unassigned_ranks =
     (let current_load = startup_load input steps;
          s = \<lparr>rs_duration = 0, rs_service = 0, rs_forward_wt = 0, rs_priority = 0,
               rs_sum_pickups = inp_zero_amount input,
               rs_sum_deliveries = inp_zero_amount input,
               rs_lead_time = 0, rs_delay = 0, rs_v_types = {},
               rs_current_load = current_load,
               rs_previous_over_capacity = (\<not> amount_le current_load (v_capacity v)),
               rs_expected_delivery_ranks = [], rs_delivery_first_ranks = {},
               rs_delivery_to_pickup_step_rank = (\<lambda>_. None),
               rs_break_ids = set (map b_id (v_breaks v)),
               rs_sol_steps = [],
               rs_previous_start = mo_v_start out, rs_previous_service = 0,
               rs_previous_travel = mo_start_travel out, rs_task_rank = 0,
               rs_unassigned_ranks = unassigned_ranks\<rparr>
      in if has_start v then
           let s = s\<lparr>rs_sol_steps :=
                       [(Step_at START (the (v_start v)) current_load)
                          \<lparr>s_duration := 0, s_arrival := mo_v_start out\<rparr>]\<rparr>;
               s = (if mo_v_start out < tw_start (v_tw v)
                    then set_last_lead_time (tw_start (v_tw v) - mo_v_start out)
                           (flag LEAD_TIME s)
                    else s)
           in if rs_previous_over_capacity s then flag LOAD s else s
         else s\<lparr>rs_lead_time := rs_lead_time s + mo_start_lead_time out\<rparr>)"

text \<open>"Precedence violations for pickups without a delivery."\<close>

definition flag_pickup_without_delivery :: "Index \<Rightarrow> route_state \<Rightarrow> route_state" where
  "flag_pickup_without_delivery d_rank s =
     (let k = the (rs_delivery_to_pickup_step_rank s d_rank)
      in s\<lparr>rs_sol_steps := (rs_sol_steps s)[k := add_type PRECEDENCE (rs_sol_steps s ! k)],
           rs_v_types := insert PRECEDENCE (rs_v_types s)\<rparr>)"

definition generate_route ::
  "Input \<Rightarrow> Index \<Rightarrow> Vehicle \<Rightarrow> InputStep list \<Rightarrow> mip_output \<Rightarrow> Index set \<Rightarrow>
   Route \<times> Index set" where
  "generate_route input vehicle_rank v steps out unassigned_ranks =
     (let s = route_init input v steps out unassigned_ranks;
          s = fold (route_step input vehicle_rank v out) steps s;
          s = (if \<not> has_end v then s\<lparr>rs_delay := rs_delay s + mo_end_delay out\<rparr> else s);
          s = fold flag_pickup_without_delivery (rs_expected_delivery_ranks s) s;
          s = (if rs_break_ids s \<noteq> {}
               then s\<lparr>rs_v_types := insert MISSING_BREAK (rs_v_types s)\<rparr> else s)
      in (\<lparr>r_vehicle = v_id v, r_steps = rs_sol_steps s, r_cost = rs_duration s,
           r_service = rs_service s, r_duration = rs_duration s,
           r_waiting_time = rs_forward_wt s, r_priority = rs_priority s,
           r_delivery = rs_sum_deliveries s, r_pickup = rs_sum_pickups s,
           r_description = v_description v,
           r_violations =
             \<lparr>viol_lead_time = rs_lead_time s, viol_delay = rs_delay s,
              viol_start_lead_time = mo_start_lead_time out,
              viol_end_delay = mo_end_delay out, viol_types = rs_v_types s\<rparr>\<rparr>,
          rs_unassigned_ranks s))"

subsection \<open>\<open>choose_invalid_route\<close>\<close>

definition make_mip_data ::
  "InputStep list \<Rightarrow> scan_state \<Rightarrow> Duration \<Rightarrow> bounds_state \<Rightarrow> mip_data" where
  "make_mip_data steps sc makespan_estimate bs =
     \<lparr>md_n = length steps - 2, md_K = sc_K sc, md_J = sc_J sc, md_B = sc_B sc,
      md_durations = sc_durations sc, md_default_job_tw = sc_default_job_tw sc,
      md_makespan_estimate = makespan_estimate,
      md_horizon_start = bs_horizon_start bs, md_horizon_end = bs_horizon_end bs,
      md_t_i_LB = bs_t_i_LB bs, md_t_i_UB = bs_t_i_UB bs,
      md_first_relevant_tw_rank = bs_first_relevant_tw_rank bs\<rparr>"

text \<open>Everything the validator computes before it creates the problem object.\<close>

definition prepare ::
  "Input \<Rightarrow> Vehicle \<Rightarrow> InputStep list \<Rightarrow> failure + mip_data" where
  "prepare input v steps =
     (case scan_steps input v steps (scan_init v) of
        Inl f \<Rightarrow> Inl f
      | Inr sc \<Rightarrow>
          let (makespan_estimate, horizon_start, horizon_end) = refine_horizon sc;
              bs = bounds_steps input v (sc_durations sc) steps
                     (bounds_init horizon_start horizon_end (sc_durations sc))
          in Inr (make_mip_data steps sc makespan_estimate bs))"

definition infeasible_status :: "glp_status \<Rightarrow> bool" where
  "infeasible_status status = (status = GLP_UNDEF \<or> status = GLP_NOFEAS)"

definition choose_invalid_route ::
  "glp_intopt_t \<Rightarrow> Input \<Rightarrow> Index \<Rightarrow> InputStep list \<Rightarrow> Index set \<Rightarrow> glpk_env \<Rightarrow>
   (failure + Route \<times> Index set) \<times> glpk_env" where
  "choose_invalid_route glp_intopt input vehicle_rank steps unassigned_ranks env =
     (let v = inp_vehicles input ! vehicle_rank
      in case prepare input v steps of
           Inl f \<Rightarrow> (Inl f, env)
         | Inr d \<Rightarrow>
             let (lp, env) = glp_create_prob env
             in case build_problem input v steps d lp of
                  Inl f \<Rightarrow> (Inl f, env)
                | Inr lp \<Rightarrow>
                    let parm = \<lparr>presolve = True, br_tech = GLP_BR_MFV\<rparr>;
                        sol1 = glp_intopt lp parm
                    in if infeasible_status (mip_status sol1)
                       then (Inl (infeasible_route v), env)
                       else
                         let lp = set_second_objective d sol1 lp;
                             sol2 = glp_intopt lp parm
                         in if infeasible_status (mip_status sol2)
                            then (Inl (infeasible_route v), env)
                            else
                              let out = read_solution input v steps d sol2;
                                  env = glp_free_env (glp_delete_prob env)
                              in (Inr (generate_route input vehicle_rank v steps out
                                         unassigned_ranks),
                                  env))"

text \<open>Some step's upper bound lies below its lower bound.\<close>

definition contradictory_bounds :: "mip_data \<Rightarrow> bool" where
  "contradictory_bounds d =
     list_ex (\<lambda>i. md_t_i_UB d ! i < md_t_i_LB d ! i) [0 ..< md_n d + 2]"

subsection \<open>Well-formed input of the validator\<close>

text \<open>
  What the source takes for granted about a step sequence (its assertions and vector
  reads): a start step, at least one task, an end step; tasks are jobs or breaks whose
  ranks are inside the vectors of jobs and of the vehicle's breaks; every task has a
  time window.
\<close>

definition valid_task :: "Input \<Rightarrow> Vehicle \<Rightarrow> InputStep \<Rightarrow> bool" where
  "valid_task input v step =
     ((step_type step = JOB \<and> step_rank step < length (inp_jobs input) \<or>
       step_type step = BREAK \<and> step_rank step < length (v_breaks v)) \<and>
      task_tws input v step \<noteq> [])"

definition valid_steps :: "Input \<Rightarrow> Vehicle \<Rightarrow> InputStep list \<Rightarrow> bool" where
  "valid_steps input v steps =
     (2 < length steps \<and>
      step_type (hd steps) = START \<and>
      step_type (last steps) = END \<and>
      list_all (valid_task input v) (butlast (tl steps)))"


subsection \<open>Instances\<close>

text \<open>
  One vehicle (id 7) with time window \<open>[0, 15]\<close> and capacity 10, from location 0 and back;
  two single jobs with a service of 10 each and deliveries 2 and 3; a pickup and its
  delivery of amount 5; travel takes 1 between any two locations.
\<close>

definition default_tw :: TimeWindow where
  "default_tw = \<lparr>tw_start = 0, tw_end = - 1\<rparr>"

definition no_forced :: ForcedService where
  "no_forced = \<lparr>forced_at = None, forced_after = None, forced_before = None\<rparr>"

definition ex_jobs :: "Job list" where
  "ex_jobs =
     [\<lparr>j_id = 100, j_location = 1, j_type = SINGLE, j_service = 10, j_delivery = [2],
       j_pickup = [0], j_tws = [default_tw], j_priority = 0\<rparr>,
      \<lparr>j_id = 101, j_location = 2, j_type = SINGLE, j_service = 10, j_delivery = [3],
       j_pickup = [0], j_tws = [default_tw], j_priority = 0\<rparr>,
      \<lparr>j_id = 102, j_location = 3, j_type = PICKUP, j_service = 10, j_delivery = [0],
       j_pickup = [5], j_tws = [default_tw], j_priority = 0\<rparr>,
      \<lparr>j_id = 103, j_location = 4, j_type = DELIVERY, j_service = 10, j_delivery = [5],
       j_pickup = [0], j_tws = [default_tw], j_priority = 0\<rparr>]"

definition ex_vehicle :: Vehicle where
  "ex_vehicle =
     \<lparr>v_id = 7, v_start = Some 0, v_end = Some 0, v_capacity = [10],
      v_tw = \<lparr>tw_start = 0, tw_end = 15\<rparr>, v_breaks = [], v_description = ''van''\<rparr>"

definition ex_input :: "Vehicle \<Rightarrow> Input" where
  "ex_input v =
     \<lparr>inp_jobs = ex_jobs, inp_vehicles = [v],
      inp_matrix = (\<lambda>i j. if i = j then 0 else 1),
      inp_vehicle_ok_with_job = (\<lambda>_ _. True), inp_zero_amount = [0]\<rparr>"

definition ex_step :: "STEP_TYPE \<Rightarrow> JOB_TYPE \<Rightarrow> Index \<Rightarrow> InputStep" where
  "ex_step t jt r =
     \<lparr>step_type = t, step_job_type = jt, step_rank = r, forced_service = no_forced\<rparr>"

text \<open>Start, the two single jobs, end.\<close>

definition ex_steps :: "InputStep list" where
  "ex_steps = [ex_step START SINGLE 0, ex_step JOB SINGLE 0, ex_step JOB SINGLE 1,
               ex_step END SINGLE 0]"

text \<open>The same with the second job to be served before time 5.\<close>

definition ex_steps_forced :: "InputStep list" where
  "ex_steps_forced =
     [ex_step START SINGLE 0, ex_step JOB SINGLE 0,
      (ex_step JOB SINGLE 1)\<lparr>forced_service := no_forced\<lparr>forced_before := Some 5\<rparr>\<rparr>,
      ex_step END SINGLE 0]"

text \<open>Start, the pickup, its delivery, end.\<close>

definition ex_steps_shipment :: "InputStep list" where
  "ex_steps_shipment = [ex_step START SINGLE 0, ex_step JOB PICKUP 2, ex_step JOB DELIVERY 3,
                        ex_step END SINGLE 0]"

text \<open>
  A solver that answers with an optimal status and fixed column values (for the steps
  \<open>ex_steps\<close>: services start at 0, 1, 12 and 23, the end is 8 late, each job takes its
  one time window, every leg takes 1), and one that finds no solution.
\<close>

definition ex_values :: "nat \<Rightarrow> real" where
  "ex_values j = [0, 0, 1, 12, 23, 0, 0, 0, 8, 1, 1, 1, 1, 1] ! j"

definition ex_solver :: glp_intopt_t where
  "ex_solver lp parm = \<lparr>mip_status = GLP_OPT, mip_col_val = ex_values\<rparr>"

definition ex_solver_nofeas :: glp_intopt_t where
  "ex_solver_nofeas lp parm = \<lparr>mip_status = GLP_NOFEAS, mip_col_val = (\<lambda>_. 0)\<rparr>"

definition env0 :: glpk_env where
  "env0 = \<lparr>env_allocated = False, live_probs = 0\<rparr>"

definition ex_unassigned :: "Index set" where
  "ex_unassigned = {0, 1, 2, 3}"

text \<open>What the passes over \<open>ex_steps\<close> compute, and the route the validator returns.\<close>

definition ex_data :: mip_data where
  "ex_data =
     \<lparr>md_n = 2, md_K = 2, md_J = [0, 1, 2], md_B = [0, 0, 0],
        md_durations = [1, 1, 1], md_default_job_tw = 2,
        md_makespan_estimate = 23, md_horizon_start = 0,
        md_horizon_end = 38, md_t_i_LB = [0, 1, 12, 23],
        md_t_i_UB = [38, 38, 38, 38], md_first_relevant_tw_rank = [0, 0]\<rparr>"

definition ex_route :: Route where
  "ex_route =
   \<lparr>r_vehicle = 7,
          r_steps =
            [\<lparr>s_type = START, s_job_type = None, s_location = Some 0,
                s_id = 0, s_service = 0, s_load = [5], s_arrival = 0,
                s_duration = 0, s_waiting_time = 0,
                s_violations =
                  \<lparr>viol_lead_time = 0, viol_delay = 0,
                     viol_start_lead_time = 0, viol_end_delay = 0,
                     viol_types = {}\<rparr>\<rparr>,
             \<lparr>s_type = JOB, s_job_type = Some SINGLE, s_location = Some 1,
                s_id = 100, s_service = 10, s_load = [3], s_arrival = 1,
                s_duration = 1, s_waiting_time = 0,
                s_violations =
                  \<lparr>viol_lead_time = 0, viol_delay = 0,
                     viol_start_lead_time = 0, viol_end_delay = 0,
                     viol_types = {}\<rparr>\<rparr>,
             \<lparr>s_type = JOB, s_job_type = Some SINGLE, s_location = Some 2,
                s_id = 101, s_service = 10, s_load = [0], s_arrival = 12,
                s_duration = 2, s_waiting_time = 0,
                s_violations =
                  \<lparr>viol_lead_time = 0, viol_delay = 0,
                     viol_start_lead_time = 0, viol_end_delay = 0,
                     viol_types = {}\<rparr>\<rparr>,
             \<lparr>s_type = END, s_job_type = None, s_location = Some 0,
                s_id = 0, s_service = 0, s_load = [0], s_arrival = 23,
                s_duration = 3, s_waiting_time = 0,
                s_violations =
                  \<lparr>viol_lead_time = 0, viol_delay = 8,
                     viol_start_lead_time = 0, viol_end_delay = 0,
                     viol_types = {DELAY}\<rparr>\<rparr>],
          r_cost = 3, r_service = 20, r_duration = 3, r_waiting_time = 0,
          r_priority = 0, r_delivery = [5], r_pickup = [0],
          r_description = ''van'',
          r_violations =
            \<lparr>viol_lead_time = 0, viol_delay = 8, viol_start_lead_time = 0,
               viol_end_delay = 8, viol_types = {DELAY}\<rparr>\<rparr>"

subsection \<open>Quantities the claims speak of\<close>

text \<open>
  The sum of the service durations of a step sequence (jobs and breaks), and the sum of
  its travel durations; both are \<open>Duration\<close>s and wrap around as the source's sums do.
\<close>

definition step_service :: "Input \<Rightarrow> Vehicle \<Rightarrow> InputStep \<Rightarrow> Duration" where
  "step_service input v step =
     (case step_type step of
        JOB \<Rightarrow> j_service (inp_jobs input ! step_rank step)
      | BREAK \<Rightarrow> b_service (v_breaks v ! step_rank step)
      | _ \<Rightarrow> 0)"

definition service_total :: "Input \<Rightarrow> Vehicle \<Rightarrow> InputStep list \<Rightarrow> Duration" where
  "service_total input v steps = sum_list (map (step_service input v) steps)"

definition travel_total :: "mip_data \<Rightarrow> Duration" where
  "travel_total d = sum_list (md_durations d)"

text \<open>Two problem objects with the same objective: coefficients, columns, direction.\<close>

definition same_objective :: "glp_prob \<Rightarrow> glp_prob \<Rightarrow> bool" where
  "same_objective lp lp' =
     (obj_coef lp' = obj_coef lp \<and> n_cols lp' = n_cols lp \<and> obj_dir lp' = obj_dir lp)"

text \<open>A step that stands for a task: a job or a break.\<close>

definition is_task :: "InputStep \<Rightarrow> bool" where
  "is_task step = (step_type step = JOB \<or> step_type step = BREAK)"

text \<open>
  What of an output step the handling of time windows decides: its type, the time its
  service starts (arrival plus waiting time), whether it carries a lead time or a delay,
  and how much. And what the loads decide: its type and load.
\<close>

definition tw_view :: "Step \<Rightarrow> STEP_TYPE \<times> Duration \<times> bool \<times> Duration \<times> bool \<times> Duration" where
  "tw_view c =
     (s_type c, s_arrival c + s_waiting_time c,
      LEAD_TIME \<in> viol_types (s_violations c), viol_lead_time (s_violations c),
      DELAY \<in> viol_types (s_violations c), viol_delay (s_violations c))"

definition load_view :: "Step \<Rightarrow> STEP_TYPE \<times> Amount" where
  "load_view c = (s_type c, s_load c)"

text \<open>
  The view of a step of type \<open>ty\<close> served at \<open>ss\<close> with the time window \<open>tw\<close>: a lead
  time exactly when service starts before the window opens, a delay exactly when it
  starts after the window closes, each with the distance to the window.
\<close>

definition expected_view ::
  "STEP_TYPE \<Rightarrow> TimeWindow \<Rightarrow> Duration \<Rightarrow>
   STEP_TYPE \<times> Duration \<times> bool \<times> Duration \<times> bool \<times> Duration" where
  "expected_view ty tw ss =
     (ty, ss,
      ss < tw_start tw, (if ss < tw_start tw then tw_start tw - ss else 0),
      tw_end tw < ss, (if tw_end tw < ss then ss - tw_end tw else 0))"

text \<open>The solution of the second solving round, for the problem built for the first.\<close>

definition second_solution :: "glp_intopt_t \<Rightarrow> mip_data \<Rightarrow> glp_prob \<Rightarrow> mip_solution" where
  "second_solution glp_intopt d lp =
     (let parm = \<lparr>presolve = True, br_tech = GLP_BR_MFV\<rparr>;
          sol1 = glp_intopt lp parm
      in glp_intopt (set_second_objective d sol1 lp) parm)"

text \<open>
  The delivery amounts of the single jobs of a step sequence, in order. And the startup
  load as the spec words it: the sum of the deliveries of all the jobs of the sequence,
  the single ones and those of pickup-delivery pairs.
\<close>

definition single_deliveries :: "Input \<Rightarrow> InputStep list \<Rightarrow> Amount list" where
  "single_deliveries input steps =
     map (\<lambda>step. j_delivery (inp_jobs input ! step_rank step))
       (filter (\<lambda>step. step_type step = JOB \<and> step_job_type step = SINGLE) steps)"

definition spec_startup_load :: "nat \<Rightarrow> Input \<Rightarrow> InputStep list \<Rightarrow> Amount" where
  "spec_startup_load d input steps =
     amount_sum d
       (map (\<lambda>step. j_delivery (inp_jobs input ! step_rank step))
          (filter (\<lambda>step. step_type step = JOB) steps))"

text \<open>
  The first objective as the spec words it: (vehicle end minus vehicle start) times
  \<open>M_m\<close>, plus the sum of the \<open>Y_i\<close>. Column 1 is the vehicle's start \<open>t_0\<close>, column
  \<open>n + 2\<close> its end, and the \<open>Y_i\<close> start at \<open>start_Y_col\<close>.
\<close>

definition spec_first_objective :: "mip_data \<Rightarrow> Duration \<Rightarrow> (nat \<Rightarrow> real) \<Rightarrow> real" where
  "spec_first_objective d M_m x =
     (x (md_n d + 2) - x 1) * to_double M_m
     + (\<Sum>i \<leftarrow> [0 ..< md_n d + 2]. x (start_Y_col d + i))"

text \<open>The assignment with vehicle end 1 and every other column 0 (for \<open>n = 2\<close>).\<close>

definition ex_assignment :: "nat \<Rightarrow> real" where
  "ex_assignment j = (if j = 4 then 1 else 0)"




section \<open>Properties of the or-opt operator\<close>

subsection \<open>Amounts and vectors\<close>

lemma length_amount_add: "length (amount_add a b) = min (length a) (length b)"
  by (simp add: amount_add_def)

lemma length_amount_sub: "length (amount_sub a b) = min (length a) (length b)"
  by (simp add: amount_sub_def)

lemma nth_amount_add: "k < length a \<Longrightarrow> k < length b \<Longrightarrow> amount_add a b ! k = a ! k + b ! k"
  by (simp add: amount_add_def)

lemma nth_amount_sub: "k < length a \<Longrightarrow> k < length b \<Longrightarrow> amount_sub a b ! k = a ! k - b ! k"
  by (simp add: amount_sub_def)

lemma amount_le_iff: "length a = length b \<Longrightarrow> amount_le a b \<longleftrightarrow> (\<forall>k<length a. a ! k \<le> b ! k)"
  by (auto simp: amount_le_def list_all_length)

lemma amount_add_sub_cancel: "length a = length m \<Longrightarrow> amount_sub (amount_add a m) m = a"
  by (rule nth_equalityI) (simp_all add: length_amount_add length_amount_sub nth_amount_add nth_amount_sub)

lemma amount_sub_add_cancel: "length a = length m \<Longrightarrow> amount_add (amount_sub a m) m = a"
  by (rule nth_equalityI) (simp_all add: length_amount_add length_amount_sub nth_amount_add nth_amount_sub)

lemma insert_then_erase:
  "pos \<le> length xs \<Longrightarrow> vector_erase (vector_insert xs pos ys) pos (pos + length ys) = xs"
  by (simp add: vector_erase_def vector_insert_def)

lemma erase_then_insert:
  "i + 2 \<le> length xs \<Longrightarrow> vector_insert (vector_erase xs i (i + 2)) i (vector_range xs i (i + 2)) = xs"
proof -
  assume h: "i + 2 \<le> length xs"
  have "drop (i + 2) xs = drop 2 (drop i xs)" by (simp add: add.commute)
  then have "take 2 (drop i xs) @ drop (i + 2) xs = drop i xs"
    by (simp only: append_take_drop_id)
  then have "take i xs @ take 2 (drop i xs) @ drop (i + 2) xs = xs"
    by (simp only: append_take_drop_id)
  then show ?thesis using h
    by (simp add: vector_erase_def vector_insert_def vector_range_def)
qed

lemma vector_range_pair:
  "i + 1 < length xs \<Longrightarrow> vector_range xs i (i + 2) = [xs ! i, xs ! (i + 1)]"
  by (simp add: vector_range_def numeral_2_eq_2 flip: Cons_nth_drop_Suc)

lemma sum_list_map_update:
  fixes f :: "'a \<Rightarrow> 'b::comm_monoid_add"
  shows "i < length xs \<Longrightarrow>
    sum_list (map f (xs[i := y])) + f (xs ! i) = sum_list (map f xs) + f y"
proof (induction xs arbitrary: i)
  case Nil
  then show ?case by simp
next
  case (Cons x xs)
  show ?case
  proof (cases i)
    case 0
    then show ?thesis by (simp add: ac_simps)
  next
    case (Suc j)
    with Cons.prems have "j < length xs" by simp
    from Cons.IH [OF this] show ?thesis using Suc by (simp add: ac_simps)
  qed
qed

lemma length_amount_sum:
  "list_all (\<lambda>a. length a = d) xs \<Longrightarrow> length (amount_sum d xs) = d"
  by (induction xs) (simp_all add: amount_sum_def zero_amount_def length_amount_add)

lemma nth_amount_sum:
  "list_all (\<lambda>a. length a = d) xs \<Longrightarrow> k < d \<Longrightarrow>
     amount_sum d xs ! k = sum_list (map (\<lambda>a. a ! k) xs)"
proof (induction xs)
  case Nil
  then show ?case by (simp add: amount_sum_def zero_amount_def)
next
  case (Cons a xs)
  then have "length (amount_sum d xs) = d" by (simp add: length_amount_sum)
  with Cons show ?case
    using nth_amount_add [of k a "amount_sum d xs"]
    by (simp add: amount_sum_def)
qed

lemma mset_concat_update:
  "i < length xss \<Longrightarrow>
     mset (concat (xss[i := ys])) + mset (xss ! i) = mset (concat xss) + mset ys"
  using sum_list_map_update [of i xss mset ys] by (simp add: mset_concat)

lemma amount_sum_update2:
  assumes dims: "list_all (\<lambda>a. length a = d) xs"
    and rng: "s < length xs" "t < length xs" and ne: "s \<noteq> t"
    and lm: "length m = d"
  shows "amount_sum d (xs[t := amount_add (xs ! t) m, s := amount_sub (xs ! s) m]) =
         amount_sum d xs"
proof (rule nth_equalityI)
  let ?ys = "xs[t := amount_add (xs ! t) m, s := amount_sub (xs ! s) m]"
  have ls: "length (xs ! s) = d" and lt: "length (xs ! t) = d"
    using dims rng by (simp_all add: list_all_length)
  have "length (?ys ! n) = d" if "n < length xs" for n
  proof -
    have "length (xs ! n) = d" using dims that by (simp add: list_all_length)
    then show ?thesis
      using ls lt lm that
      by (cases "n = s"; cases "n = t") (simp_all add: length_amount_add length_amount_sub)
  qed
  then have dims': "list_all (\<lambda>a. length a = d) ?ys"
    by (simp add: list_all_length)
  show "length (amount_sum d ?ys) = length (amount_sum d xs)"
    using dims dims' by (simp add: length_amount_sum)
  fix k assume "k < length (amount_sum d ?ys)"
  then have k: "k < d" using dims' by (simp add: length_amount_sum)
  let ?f = "\<lambda>a::amount_t. a ! k"
  let ?zs = "xs[t := amount_add (xs ! t) m]"
  have 1: "sum_list (map ?f ?zs) + ?f (xs ! t) = sum_list (map ?f xs) + ?f (amount_add (xs ! t) m)"
    using rng by (rule_tac sum_list_map_update) simp
  have 2: "sum_list (map ?f (?zs[s := amount_sub (xs ! s) m])) + ?f (?zs ! s)
         = sum_list (map ?f ?zs) + ?f (amount_sub (xs ! s) m)"
    using rng by (rule_tac sum_list_map_update) simp
  have zs: "?zs ! s = xs ! s" using ne by simp
  have "sum_list (map ?f ?ys) = sum_list (map ?f xs)"
    using 1 2 k ls lt lm by (simp add: zs nth_amount_add nth_amount_sub)
  then show "amount_sum d ?ys ! k = amount_sum d xs ! k"
    using dims dims' k by (simp add: nth_amount_sum)
qed

lemma mset_concat_update2:
  assumes rng: "s < length xss" "t < length xss" and ne: "s \<noteq> t"
    and T': "mset T' = mset (xss ! t) + M" and S': "mset (xss ! s) = mset S' + M"
  shows "mset (concat (xss[t := T', s := S'])) = mset (concat xss)"
proof -
  let ?zs = "xss[t := T']"
  have 1: "mset (concat ?zs) + mset (xss ! t) = mset (concat xss) + mset T'"
    using rng by (simp add: mset_concat_update)
  have 2: "mset (concat (?zs[s := S'])) + mset (?zs ! s) = mset (concat ?zs) + mset S'"
    using rng by (simp add: mset_concat_update)
  have zs: "?zs ! s = xss ! s" using ne by simp
  from 2 have "mset (concat (?zs[s := S'])) + mset (xss ! s) + mset (xss ! t)
      = mset (concat ?zs) + mset (xss ! t) + mset S'"
    by (simp add: zs)
  also have "\<dots> = mset (concat xss) + mset T' + mset S'" by (simp add: 1)
  finally have "mset (concat (?zs[s := S'])) + (mset S' + M + mset (xss ! t))
      = mset (concat xss) + (mset (xss ! t) + M + mset S')"
    by (simp add: T' S' ac_simps)
  then show ?thesis by (simp add: ac_simps)
qed

lemma distinct_concat_nth:
  "distinct (concat xss) \<Longrightarrow> i < length xss \<Longrightarrow> distinct (xss ! i)"
  by (induction xss arbitrary: i) (auto simp: nth_Cons split: nat.splits)

lemma distinct_concat_disjoint_lt:
  "distinct (concat xss) \<Longrightarrow> i < j \<Longrightarrow> j < length xss \<Longrightarrow>
     set (xss ! i) \<inter> set (xss ! j) = {}"
proof (induction xss arbitrary: i j)
  case Nil
  then show ?case by simp
next
  case (Cons xs xss)
  obtain j' where j: "j = Suc j'" using Cons.prems(2) by (cases j) auto
  show ?case
  proof (cases i)
    case 0
    have "xss ! j' \<in> set xss" using Cons.prems(3) j by simp
    then show ?thesis using Cons.prems(1) 0 j by auto
  next
    case (Suc i')
    then show ?thesis using Cons j by simp
  qed
qed

lemma distinct_concat_disjoint:
  assumes "distinct (concat xss)" "i \<noteq> j" "i < length xss" "j < length xss"
  shows "set (xss ! i) \<inter> set (xss ! j) = {}"
proof (cases "i < j")
  case True
  then show ?thesis using assms by (simp add: distinct_concat_disjoint_lt)
next
  case False
  then have "j < i" using assms(2) by simp
  then have "set (xss ! j) \<inter> set (xss ! i) = {}"
    using assms by (simp add: distinct_concat_disjoint_lt)
  then show ?thesis by blast
qed

lemma distinct_pair_not_in_rest:
  assumes "distinct xs" "i + 1 < length xs"
  shows "xs ! i \<notin> set (take i xs @ drop (i + 2) xs)"
    and "xs ! (i + 1) \<notin> set (take i xs @ drop (i + 2) xs)"
proof -
  have xs: "xs = take i xs @ [xs ! i, xs ! (i + 1)] @ drop (i + 2) xs"
    using erase_then_insert [of i xs] vector_range_pair [of i xs] assms(2)
    by (simp add: vector_insert_def vector_erase_def)
  have "distinct (take i xs @ [xs ! i, xs ! (i + 1)] @ drop (i + 2) xs)"
    using assms(1) xs by simp
  then show "xs ! i \<notin> set (take i xs @ drop (i + 2) xs)"
    and "xs ! (i + 1) \<notin> set (take i xs @ drop (i + 2) xs)"
    by auto
qed

subsection \<open>Validity\<close>

lemma amounts_dim_nth:
  "amounts_dim d inp st \<Longrightarrow> v < length (ls_amounts st) \<Longrightarrow> length (ls_amounts st ! v) = d"
  by (simp add: amounts_dim_def list_all_length)

lemma amounts_dim_job:
  "amounts_dim d inp st \<Longrightarrow> j < length (ls_jobs inp) \<Longrightarrow> length (job_amount (ls_jobs inp ! j)) = d"
  by (simp add: amounts_dim_def list_all_length)

lemma amounts_dim_capacity:
  "amounts_dim d inp st \<Longrightarrow> v < length (ls_vehicles inp) \<Longrightarrow>
     length (vehicle_capacity (ls_vehicles inp ! v)) = d"
  by (simp add: amounts_dim_def list_all_length)

text \<open>
  Claim C7. For an or-opt move whose subscripts are in range, \<open>is_valid\<close> returns a
  value (it never fails), and that value is true exactly when the target vehicle is
  compatible with both jobs of the moved edge and, in every component, the target
  route's cached amount plus the two jobs' amounts is at most the target vehicle's
  capacity. \<open>is_valid\<close> is a \<open>const\<close> member that writes nothing: its model returns
  no state.
\<close>

theorem or_opt_is_valid_iff:
  assumes ok: "is_valid_in_range inp p st" and dim: "amounts_dim d inp st"
  shows "is_valid inp p st =
     Some (ls_vehicle_ok_with_job inp (target_vehicle p)
             (ls_sol st ! source_vehicle p ! source_rank p) \<and>
           ls_vehicle_ok_with_job inp (target_vehicle p)
             (ls_sol st ! source_vehicle p ! (source_rank p + 1)) \<and>
           (\<forall>k<d. ls_amounts st ! target_vehicle p ! k
                   + job_amount (ls_jobs inp ! (ls_sol st ! source_vehicle p ! source_rank p)) ! k
                   + job_amount (ls_jobs inp ! (ls_sol st ! source_vehicle p ! (source_rank p + 1))) ! k
                 \<le> vehicle_capacity (ls_vehicles inp ! target_vehicle p) ! k))"
proof -
  define a where "a = ls_sol st ! source_vehicle p ! source_rank p"
  define b where "b = ls_sol st ! source_vehicle p ! (source_rank p + 1)"
  define t where "t = target_vehicle p"
  have la: "length (job_amount (ls_jobs inp ! a)) = d"
    and lb: "length (job_amount (ls_jobs inp ! b)) = d"
    and lt: "length (ls_amounts st ! t) = d"
    and lc: "length (vehicle_capacity (ls_vehicles inp ! t)) = d"
    using ok dim
    by (simp_all add: is_valid_in_range_def a_def b_def t_def amounts_dim_nth amounts_dim_job
          amounts_dim_capacity)
  have "amount_le
          (amount_add (amount_add (ls_amounts st ! t) (job_amount (ls_jobs inp ! a)))
             (job_amount (ls_jobs inp ! b)))
          (vehicle_capacity (ls_vehicles inp ! t))
        \<longleftrightarrow> (\<forall>k<d. ls_amounts st ! t ! k + job_amount (ls_jobs inp ! a) ! k
                     + job_amount (ls_jobs inp ! b) ! k
                   \<le> vehicle_capacity (ls_vehicles inp ! t) ! k)"
    using la lb lt lc
    by (simp add: amount_le_iff length_amount_add nth_amount_add)
  then show ?thesis
    using ok by (simp add: is_valid_def Let_def a_def b_def t_def)
qed

theorem or_opt_is_valid_iff_witness:
  "is_valid_in_range ex_ls_input ex_or_opt ex_ls_state \<and>
   amounts_dim 1 ex_ls_input ex_ls_state \<and>
   is_valid ex_ls_input ex_or_opt ex_ls_state = Some True"
proof -
  have h1: "is_valid_in_range ex_ls_input ex_or_opt ex_ls_state"
    by (simp add: is_valid_in_range_def ex_ls_input_def ex_or_opt_def ex_ls_state_def)
  have h2: "amounts_dim 1 ex_ls_input ex_ls_state"
    by (simp add: amounts_dim_def ex_ls_input_def ex_ls_state_def)
  have "is_valid ex_ls_input ex_or_opt ex_ls_state = Some True"
    unfolding or_opt_is_valid_iff [OF h1 h2]
    by (simp add: ex_ls_input_def ex_or_opt_def ex_ls_state_def)
  with h1 h2 show ?thesis by simp
qed

lemma or_opt_apply_unfold:
  assumes ok: "apply_in_range inp p st" and ne: "source_vehicle p \<noteq> target_vehicle p"
  shows "or_opt_apply inp p st =
     Some \<lparr>ls_sol = (ls_sol st)
              [target_vehicle p :=
                 take (target_rank p) (ls_sol st ! target_vehicle p)
                 @ [ls_sol st ! source_vehicle p ! source_rank p,
                    ls_sol st ! source_vehicle p ! (source_rank p + 1)]
                 @ drop (target_rank p) (ls_sol st ! target_vehicle p),
               source_vehicle p :=
                 take (source_rank p) (ls_sol st ! source_vehicle p)
                 @ drop (source_rank p + 2) (ls_sol st ! source_vehicle p)],
           ls_amounts = (ls_amounts st)
              [target_vehicle p :=
                 amount_add (ls_amounts st ! target_vehicle p) (moved_amount inp p st),
               source_vehicle p :=
                 amount_sub (ls_amounts st ! source_vehicle p) (moved_amount inp p st)]\<rparr>"
proof -
  from ok have r: "source_rank p + 1 < length (ls_sol st ! source_vehicle p)"
    by (simp add: apply_in_range_def)
  show ?thesis
    using ok ne vector_range_pair [OF r]
    by (simp add: or_opt_apply_def Let_def moved_amount_def vector_insert_def
          vector_erase_def)
qed

subsection \<open>Applying a move and undoing it\<close>

text \<open>
  Claim C6. With distinct source and target vehicles and ranks in range, \<open>apply\<close>
  returns, and the state it leaves is the original one with exactly four entries
  replaced: the target route has the edge (the two consecutive jobs at the source rank,
  in their order) inserted at the target rank, the source route has lost these two
  positions, the target vehicle's amount has grown by the sum of the two jobs' amounts
  and the source vehicle's amount has shrunk by the same sum. Applying the inverse
  or-opt move to that state (the same edge, from the target back to the source at the
  original rank) returns as well and gives back the original state: the raw routes of
  all vehicles and all per-vehicle amounts.
\<close>

theorem or_opt_round_trip:
  assumes asserts: "compute_gain_asserts p st"
    and ok: "apply_in_range inp p st"
    and dim: "amounts_dim d inp st"
  shows "or_opt_apply inp p st =
      Some \<lparr>ls_sol = (ls_sol st)
               [target_vehicle p :=
                  take (target_rank p) (ls_sol st ! target_vehicle p)
                  @ [ls_sol st ! source_vehicle p ! source_rank p,
                     ls_sol st ! source_vehicle p ! (source_rank p + 1)]
                  @ drop (target_rank p) (ls_sol st ! target_vehicle p),
                source_vehicle p :=
                  take (source_rank p) (ls_sol st ! source_vehicle p)
                  @ drop (source_rank p + 2) (ls_sol st ! source_vehicle p)],
            ls_amounts = (ls_amounts st)
               [target_vehicle p :=
                  amount_add (ls_amounts st ! target_vehicle p)
                    (amount_add
                       (job_amount (ls_jobs inp ! (ls_sol st ! source_vehicle p ! source_rank p)))
                       (job_amount
                          (ls_jobs inp ! (ls_sol st ! source_vehicle p ! (source_rank p + 1))))),
                source_vehicle p :=
                  amount_sub (ls_amounts st ! source_vehicle p)
                    (amount_add
                       (job_amount (ls_jobs inp ! (ls_sol st ! source_vehicle p ! source_rank p)))
                       (job_amount
                          (ls_jobs inp
                             ! (ls_sol st ! source_vehicle p ! (source_rank p + 1)))))]\<rparr> \<and>
    Option.bind (or_opt_apply inp p st) (or_opt_apply inp (inverse_or_opt p)) = Some st"
proof -
  define s where "s = source_vehicle p"
  define t where "t = target_vehicle p"
  define sr where "sr = source_rank p"
  define tr where "tr = target_rank p"
  define S where "S = ls_sol st ! s"
  define T where "T = ls_sol st ! t"
  define a where "a = S ! sr"
  define b where "b = S ! (sr + 1)"
  define mv where "mv = moved_amount inp p st"
  define q where "q = inverse_or_opt p"
  define st' where "st' =
    \<lparr>ls_sol = (ls_sol st)[t := take tr T @ [a, b] @ drop tr T,
                            s := take sr S @ drop (sr + 2) S],
     ls_amounts = (ls_amounts st)[t := amount_add (ls_amounts st ! t) mv,
                                  s := amount_sub (ls_amounts st ! s) mv]\<rparr>"
  have ne: "s \<noteq> t" using asserts by (simp add: compute_gain_asserts_def s_def t_def)
  have rng: "s < length (ls_sol st)" "t < length (ls_sol st)"
    "s < length (ls_amounts st)" "t < length (ls_amounts st)"
    "sr + 1 < length S" "tr \<le> length T" "a < length (ls_jobs inp)" "b < length (ls_jobs inp)"
    using ok by (simp_all add: apply_in_range_def s_def t_def sr_def tr_def S_def T_def a_def b_def)
  have step1: "or_opt_apply inp p st = Some st'"
    using or_opt_apply_unfold [OF ok] ne
    by (simp add: st'_def s_def t_def sr_def tr_def S_def T_def a_def b_def mv_def)
  have q_simps: "source_vehicle q = t" "target_vehicle q = s" "source_rank q = tr"
    "target_rank q = sr"
    by (simp_all add: q_def inverse_or_opt_def s_def t_def sr_def tr_def)
  have sol't: "ls_sol st' ! t = take tr T @ [a, b] @ drop tr T"
    and sol's: "ls_sol st' ! s = take sr S @ drop (sr + 2) S"
    and am't: "ls_amounts st' ! t = amount_add (ls_amounts st ! t) mv"
    and am's: "ls_amounts st' ! s = amount_sub (ls_amounts st ! s) mv"
    using ne rng by (simp_all add: st'_def)
  have at_tr: "ls_sol st' ! t ! tr = a" "ls_sol st' ! t ! (tr + 1) = b"
    "ls_sol st' ! t ! Suc tr = b"
    using rng by (simp_all add: sol't nth_append)
  have ok': "apply_in_range inp q st'"
    unfolding apply_in_range_def q_simps at_tr
    using rng ne by (simp add: st'_def)
  have mv': "moved_amount inp q st' = mv"
    by (simp add: moved_amount_def q_simps at_tr mv_def s_def sr_def a_def b_def S_def)
  have lmv: "length mv = d"
    using dim rng
    by (simp add: mv_def moved_amount_def length_amount_add amounts_dim_job
          a_def b_def S_def s_def sr_def)
  have lam: "length (ls_amounts st ! s) = d" "length (ls_amounts st ! t) = d"
    using dim rng by (simp_all add: amounts_dim_nth)
  have back_T: "take tr (ls_sol st' ! t) @ drop (tr + 2) (ls_sol st' ! t) = T"
    using rng by (simp add: sol't)
  have back_S: "take sr (ls_sol st' ! s) @ [a, b] @ drop sr (ls_sol st' ! s) = S"
    using erase_then_insert [of sr S] vector_range_pair [of sr S] rng
    by (simp add: sol's vector_insert_def vector_erase_def a_def b_def)
  have back_at: "amount_sub (ls_amounts st' ! t) mv = ls_amounts st ! t"
    using lmv lam by (simp add: am't amount_add_sub_cancel)
  have back_as: "amount_add (ls_amounts st' ! s) mv = ls_amounts st ! s"
    using lmv lam by (simp add: am's amount_sub_add_cancel)
  have "or_opt_apply inp q st' =
     Some \<lparr>ls_sol = (ls_sol st')[s := S, t := T],
           ls_amounts = (ls_amounts st')[s := ls_amounts st ! s, t := ls_amounts st ! t]\<rparr>"
    using or_opt_apply_unfold [OF ok'] ne
    unfolding q_simps at_tr mv' back_T back_S back_at back_as by simp
  also have "(ls_sol st')[s := S, t := T] = ls_sol st"
    using ne by (simp add: st'_def S_def T_def list_update_swap [of s t])
  also have "(ls_amounts st')[s := ls_amounts st ! s, t := ls_amounts st ! t] = ls_amounts st"
    using ne by (simp add: st'_def list_update_swap [of s t])
  finally have restored: "or_opt_apply inp q st' = Some st" by simp
  have moved: "or_opt_apply inp p st =
      Some \<lparr>ls_sol = (ls_sol st)
               [target_vehicle p :=
                  take (target_rank p) (ls_sol st ! target_vehicle p)
                  @ [ls_sol st ! source_vehicle p ! source_rank p,
                     ls_sol st ! source_vehicle p ! (source_rank p + 1)]
                  @ drop (target_rank p) (ls_sol st ! target_vehicle p),
                source_vehicle p :=
                  take (source_rank p) (ls_sol st ! source_vehicle p)
                  @ drop (source_rank p + 2) (ls_sol st ! source_vehicle p)],
            ls_amounts = (ls_amounts st)
               [target_vehicle p :=
                  amount_add (ls_amounts st ! target_vehicle p)
                    (amount_add
                       (job_amount (ls_jobs inp ! (ls_sol st ! source_vehicle p ! source_rank p)))
                       (job_amount
                          (ls_jobs inp ! (ls_sol st ! source_vehicle p ! (source_rank p + 1))))),
                source_vehicle p :=
                  amount_sub (ls_amounts st ! source_vehicle p)
                    (amount_add
                       (job_amount (ls_jobs inp ! (ls_sol st ! source_vehicle p ! source_rank p)))
                       (job_amount
                          (ls_jobs inp
                             ! (ls_sol st ! source_vehicle p ! (source_rank p + 1)))))]\<rparr>"
    unfolding or_opt_apply_unfold [OF ok ne [unfolded s_def t_def]] moved_amount_def
    by (rule refl)
  have "Option.bind (or_opt_apply inp p st) (or_opt_apply inp (inverse_or_opt p)) = Some st"
    using step1 restored by (simp add: q_def)
  with moved show ?thesis by (rule conjI)
qed

theorem or_opt_round_trip_witness:
  "compute_gain_asserts ex_or_opt ex_ls_state \<and>
   apply_in_range ex_ls_input ex_or_opt ex_ls_state \<and>
   amounts_dim 1 ex_ls_input ex_ls_state \<and>
   or_opt_apply ex_ls_input ex_or_opt ex_ls_state =
     Some \<lparr>ls_sol = [[0], [1, 2, 3], []], ls_amounts = [[1], [9], [0]]\<rparr> \<and>
   or_opt_apply ex_ls_input (inverse_or_opt ex_or_opt)
     \<lparr>ls_sol = [[0], [1, 2, 3], []], ls_amounts = [[1], [9], [0]]\<rparr> = Some ex_ls_state"
proof -
  have h1: "compute_gain_asserts ex_or_opt ex_ls_state"
    by (simp add: compute_gain_asserts_def ex_or_opt_def ex_ls_state_def)
  have h2: "apply_in_range ex_ls_input ex_or_opt ex_ls_state"
    by (simp add: apply_in_range_def ex_ls_input_def ex_or_opt_def ex_ls_state_def)
  have h3: "amounts_dim 1 ex_ls_input ex_ls_state"
    by (simp add: amounts_dim_def ex_ls_input_def ex_ls_state_def)
  have step: "or_opt_apply ex_ls_input ex_or_opt ex_ls_state =
      Some \<lparr>ls_sol = [[0], [1, 2, 3], []], ls_amounts = [[1], [9], [0]]\<rparr>"
    by (simp add: or_opt_apply_def apply_in_range_def ex_ls_input_def ex_or_opt_def
          ex_ls_state_def Let_def vector_insert_def vector_range_def vector_erase_def
          amount_add_def amount_sub_def)
  have restored: "Option.bind (or_opt_apply ex_ls_input ex_or_opt ex_ls_state)
      (or_opt_apply ex_ls_input (inverse_or_opt ex_or_opt)) = Some ex_ls_state"
    using or_opt_round_trip [OF h1 h2 h3] by (rule conjunct2)
  show ?thesis
    using restored h1 h2 h3 by (simp add: step)
qed

subsection \<open>What a move preserves\<close>

text \<open>
  Claim C10. With distinct source and target vehicles and ranks in range, \<open>apply\<close>
  succeeds and keeps the multiset of job ranks over all routes; the two jobs of the edge
  leave the source route and stand, in the same order, at the target rank of the target
  route; the componentwise sum of all per-vehicle amounts is kept; routes and amounts of
  the other vehicles are unchanged; and when no job rank occurs twice in the solution,
  the two moved jobs occur in no route but the target's afterwards.
\<close>

theorem or_opt_apply_preserves:
  assumes asserts: "compute_gain_asserts p st"
    and ok: "apply_in_range inp p st"
    and dim: "amounts_dim d inp st"
  shows "case or_opt_apply inp p st of
      None \<Rightarrow> False
    | Some st' \<Rightarrow>
        mset (concat (ls_sol st')) = mset (concat (ls_sol st)) \<and>
        ls_sol st' ! source_vehicle p =
          take (source_rank p) (ls_sol st ! source_vehicle p)
          @ drop (source_rank p + 2) (ls_sol st ! source_vehicle p) \<and>
        ls_sol st' ! target_vehicle p =
          take (target_rank p) (ls_sol st ! target_vehicle p)
          @ [ls_sol st ! source_vehicle p ! source_rank p,
             ls_sol st ! source_vehicle p ! (source_rank p + 1)]
          @ drop (target_rank p) (ls_sol st ! target_vehicle p) \<and>
        amount_sum d (ls_amounts st') = amount_sum d (ls_amounts st) \<and>
        length (ls_sol st') = length (ls_sol st) \<and>
        length (ls_amounts st') = length (ls_amounts st) \<and>
        (\<forall>v. v \<noteq> source_vehicle p \<and> v \<noteq> target_vehicle p \<longrightarrow>
           ls_sol st' ! v = ls_sol st ! v \<and> ls_amounts st' ! v = ls_amounts st ! v) \<and>
        (distinct (concat (ls_sol st)) \<longrightarrow>
           (\<forall>v<length (ls_sol st'). v \<noteq> target_vehicle p \<longrightarrow>
              ls_sol st ! source_vehicle p ! source_rank p \<notin> set (ls_sol st' ! v) \<and>
              ls_sol st ! source_vehicle p ! (source_rank p + 1) \<notin> set (ls_sol st' ! v)))"
proof -
  define s where "s = source_vehicle p"
  define t where "t = target_vehicle p"
  define sr where "sr = source_rank p"
  define tr where "tr = target_rank p"
  define S where "S = ls_sol st ! s"
  define T where "T = ls_sol st ! t"
  define a where "a = S ! sr"
  define b where "b = S ! (sr + 1)"
  define mv where "mv = moved_amount inp p st"
  define S' where "S' = take sr S @ drop (sr + 2) S"
  define T' where "T' = take tr T @ [a, b] @ drop tr T"
  define st' where "st' =
    \<lparr>ls_sol = (ls_sol st)[t := T', s := S'],
     ls_amounts = (ls_amounts st)[t := amount_add (ls_amounts st ! t) mv,
                                  s := amount_sub (ls_amounts st ! s) mv]\<rparr>"
  have ne: "s \<noteq> t" using asserts by (simp add: compute_gain_asserts_def s_def t_def)
  have rng: "s < length (ls_sol st)" "t < length (ls_sol st)"
    "s < length (ls_amounts st)" "t < length (ls_amounts st)"
    "sr + 1 < length S" "tr \<le> length T" "a < length (ls_jobs inp)" "b < length (ls_jobs inp)"
    using ok by (simp_all add: apply_in_range_def s_def t_def sr_def tr_def S_def T_def a_def b_def)
  have step: "or_opt_apply inp p st = Some st'"
    using or_opt_apply_unfold [OF ok] ne
    by (simp add: st'_def s_def t_def sr_def tr_def S_def T_def a_def b_def mv_def S'_def T'_def)
  have lmv: "length mv = d"
    using dim rng
    by (simp add: mv_def moved_amount_def length_amount_add amounts_dim_job
          a_def b_def S_def s_def sr_def)
  have S_split: "S = take sr S @ [a, b] @ drop (sr + 2) S"
    using erase_then_insert [of sr S] vector_range_pair [of sr S] rng
    by (simp add: vector_insert_def vector_erase_def a_def b_def)
  have mS: "mset S = mset S' + {#a, b#}"
    by (subst S_split) (simp add: S'_def)
  have "mset (take tr T) + mset (drop tr T) = mset T"
    by (simp flip: mset_append)
  then have mT: "mset T' = mset T + {#a, b#}" by (simp add: T'_def)
  have c1: "mset (concat (ls_sol st')) = mset (concat (ls_sol st))"
    using mset_concat_update2 [of s "ls_sol st" t T' "{#a, b#}" S'] rng ne mS mT
    by (simp add: st'_def S_def T_def)
  have c2: "ls_sol st' ! s = S'" and c3: "ls_sol st' ! t = T'"
    using rng ne by (simp_all add: st'_def)
  have c4: "amount_sum d (ls_amounts st') = amount_sum d (ls_amounts st)"
    using amount_sum_update2 [of d "ls_amounts st" s t mv] dim rng ne lmv
    by (simp add: st'_def amounts_dim_def)
  have c5: "length (ls_sol st') = length (ls_sol st)"
    "length (ls_amounts st') = length (ls_amounts st)"
    by (simp_all add: st'_def)
  have c6: "ls_sol st' ! v = ls_sol st ! v \<and> ls_amounts st' ! v = ls_amounts st ! v"
    if "v \<noteq> s \<and> v \<noteq> t" for v
    using that by (simp add: st'_def)
  have c7: "a \<notin> set (ls_sol st' ! v) \<and> b \<notin> set (ls_sol st' ! v)"
    if d: "distinct (concat (ls_sol st))" and v: "v < length (ls_sol st')" "v \<noteq> t" for v
  proof (cases "v = s")
    case True
    have "distinct S" using d rng by (simp add: S_def distinct_concat_nth)
    then show ?thesis
      using distinct_pair_not_in_rest [of S sr] rng True
      by (simp add: c2 S'_def a_def b_def)
  next
    case False
    have "set S \<inter> set (ls_sol st ! v) = {}"
      using distinct_concat_disjoint [OF d, of s v] False v rng by (simp add: S_def c5)
    moreover have "a \<in> set S" "b \<in> set S"
      using rng by (simp_all add: a_def b_def)
    ultimately show ?thesis using c6 [of v] False v by auto
  qed
  show ?thesis
    unfolding step option.case
    using c1 c2 c3 c4 c5 c6 c7
    unfolding S'_def T'_def a_def b_def S_def T_def s_def t_def sr_def tr_def
    by blast
qed

theorem or_opt_apply_preserves_witness:
  "compute_gain_asserts ex_or_opt ex_ls_state \<and>
   apply_in_range ex_ls_input ex_or_opt ex_ls_state \<and>
   amounts_dim 1 ex_ls_input ex_ls_state \<and>
   (case or_opt_apply ex_ls_input ex_or_opt ex_ls_state of
      None \<Rightarrow> False
    | Some st' \<Rightarrow>
        mset (concat (ls_sol st')) = {#0, 1, 2, 3#} \<and>
        ls_sol st' ! 0 = [0] \<and> ls_sol st' ! 1 = [1, 2, 3] \<and> ls_sol st' ! 2 = [] \<and>
        amount_sum 1 (ls_amounts st') = [10] \<and> ls_amounts st' ! 2 = [0])"
proof -
  define st' where "st' = \<lparr>ls_sol = [[0], [1, 2, 3], []], ls_amounts = [[1], [9], [0]]\<rparr>"
  have h1: "compute_gain_asserts ex_or_opt ex_ls_state"
    by (simp add: compute_gain_asserts_def ex_or_opt_def ex_ls_state_def)
  have h2: "apply_in_range ex_ls_input ex_or_opt ex_ls_state"
    by (simp add: apply_in_range_def ex_ls_input_def ex_or_opt_def ex_ls_state_def)
  have h3: "amounts_dim 1 ex_ls_input ex_ls_state"
    by (simp add: amounts_dim_def ex_ls_input_def ex_ls_state_def)
  have s0: "amount_sum 1 (ls_amounts ex_ls_state) = [10]"
    by (simp add: amount_sum_def amount_add_def zero_amount_def ex_ls_state_def)
  have m0: "mset (concat (ls_sol ex_ls_state)) = {#0, 1, 2, 3#}"
    by (simp add: ex_ls_state_def)
  have step: "or_opt_apply ex_ls_input ex_or_opt ex_ls_state = Some st'"
    by (simp add: or_opt_apply_def apply_in_range_def ex_ls_input_def ex_or_opt_def
          ex_ls_state_def Let_def vector_insert_def vector_range_def vector_erase_def
          amount_add_def amount_sub_def st'_def)
  have kept: "mset (concat (ls_sol st')) = mset (concat (ls_sol ex_ls_state))"
    "amount_sum 1 (ls_amounts st') = amount_sum 1 (ls_amounts ex_ls_state)"
    using or_opt_apply_preserves [OF h1 h2 h3] unfolding step option.case by blast+
  have routes: "ls_sol st' ! 0 = [0]" "ls_sol st' ! 1 = [1, 2, 3]" "ls_sol st' ! 2 = []"
    "ls_amounts st' ! 2 = [0]"
    by (simp_all add: st'_def)
  show ?thesis
    unfolding step option.case using h1 h2 h3 kept routes by (simp only: s0 m0 simp_thms)
qed

section \<open>Properties of the input parser\<close>

subsection \<open>Sequencing\<close>

lemma and_then_Inr [simp]: "and_then (Inr x) f = f x"
  by (simp add: and_then_def)

lemma and_then_Inl [simp]: "and_then (Inl e) f = Inl e"
  by (simp add: and_then_def)

lemma and_then_throw [simp]: "and_then (throw msg) f = throw msg"
  by (simp add: throw_def)

lemma and_then_eq_Inr_iff:
  "and_then m f = Inr y \<longleftrightarrow> (\<exists>x. m = Inr x \<and> f x = Inr y)"
  by (cases m) simp_all

subsection \<open>More than one vehicle\<close>







subsection \<open>The vehicle's indices into a custom matrix\<close>

lemma not_isl_iff: "\<not> isl m \<longleftrightarrow> (\<exists>x. m = Inr x)"
  by (cases m) simp_all

lemma vehicle_index_absent:
  "HasMember v0 k = Inr False \<Longrightarrow> vehicle_index v0 k n = Inr None"
  by (simp add: vehicle_index_def)

lemma vehicle_index_not_number:
  "member_at v0 k = Inr x \<Longrightarrow> \<not> IsNumber x \<Longrightarrow>
     (vehicle_index v0 k n :: exn + 'i::len word option)
       = throw (''Vehicle '' @ k @ '' is not a number.'')"
  by (cases v0) (auto simp: vehicle_index_def split: option.splits)

lemma vehicle_index_too_large:
  "member_at v0 k = Inr x \<Longrightarrow> GetUint x = Inr u \<Longrightarrow> n \<le> unat (of_nat u :: 'i::len word) \<Longrightarrow>
     (vehicle_index v0 k n :: exn + 'i word option)
       = throw (''Vehicle '' @ k @ '' does not match to matrix size.'')"
  by (cases v0; cases x) (auto simp: vehicle_index_def split: option.splits if_splits)

lemma vehicle_index_valid:
  "member_at v0 k = Inr x \<Longrightarrow> GetUint x = Inr u \<Longrightarrow> unat (of_nat u :: 'i::len word) < n \<Longrightarrow>
     (vehicle_index v0 k n :: exn + 'i word option) = Inr (Some (of_nat u))"
  by (cases v0; cases x) (auto simp: vehicle_index_def split: option.splits if_splits)

lemma add_jobs_matrix_ok:
  fixes ops :: "('inp, 'i::len) input_class"
  assumes nt: "never_throws ops"
  shows "list_all (indexed_job_ok n) jobs \<Longrightarrow> \<not> isl (add_jobs_matrix ops n jobs st)"
proof (induction jobs arbitrary: st)
  case Nil
  then show ?case by simp
next
  case (Cons job jobs)
  obtain inp nec cnt where st: "st = (inp, nec, cnt)" by (cases st) auto
  from Cons.prems have ok: "indexed_job_ok n job" and rest: "list_all (indexed_job_ok n) jobs"
    by simp_all
  from ok obtain ms where job: "job = JObject ms" by (cases job) (simp_all add: indexed_job_ok_def)
  from ok job obtain jid where jid: "map_of ms ''id'' = Some jid" and u: "IsUint jid"
    by (auto simp: indexed_job_ok_def split: option.splits sum.splits)
  from ok job obtain loc l where loc: "map_of ms ''location_index'' = Some loc"
    and l: "GetUint loc = Inr l" and ln: "l < n"
    by (auto simp: indexed_job_ok_def split: option.splits sum.splits)
  from ok obtain c where c: "parse_coordinates job ''location'' = Inr c"
    by (auto simp: indexed_job_ok_def not_isl_iff)
  from u obtain i where i: "GetUint jid = Inr i" and num: "IsNumber jid"
    by (cases jid) auto
  from l have numl: "IsNumber loc" by (cases loc) auto
  from nt have "\<not> isl (add_job_indexed ops inp i c cnt)"
    by (simp add: never_throws_def)
  then obtain inp' where a: "add_job_indexed ops inp i c cnt = Inr inp'"
    by (auto simp: not_isl_iff)
  have "add_jobs_matrix ops n (job # jobs) st =
        add_jobs_matrix ops n jobs (inp', nec @ [of_nat l], cnt + 1)"
    using jid loc l ln i num numl a c [unfolded job]
    by (simp add: st job)
  then show ?case using Cons.IH [OF rest] by simp
qed

lemma index_absent_or_valid_Inr:
  "index_absent_or_valid (\<lambda>u. unat (of_nat u :: 'i::len word)) v0 k n \<Longrightarrow>
     \<not> isl (vehicle_index v0 k n :: exn + 'i word option)"
  by (auto simp: index_absent_or_valid_def vehicle_index_absent vehicle_index_valid
      split: sum.splits)

lemma parse_matrix_unfold:
  assumes w: "make_routing_wrapper LIBOSRM cl_args = Inr w"
    and doc: "cl_input cl_args = Inr doc"
    and checks: "required_checks doc = Inr ()"
    and m: "member_at doc ''matrix'' = Inr mj"
  shows "parse ops LIBOSRM cl_args =
     and_then (parse_with_matrix ops doc (new_input ops w (geometry cl_args))) (\<lambda>input_data.
       if get_location_number ops input_data \<le> 1
       then throw ''At least two locations required!''
       else Inr input_data)"
proof -
  have "HasMember doc ''matrix'' = Inr True"
    using m by (cases doc) (auto split: option.splits)
  then show ?thesis by (simp add: parse_def w doc checks)
qed

lemma parse_with_matrix_start_error:
  assumes m: "member_at doc ''matrix'' = Inr (JArray rows)"
    and mat: "load_matrix (length rows) rows = Inr mi"
    and v0: "and_then (member_at doc ''vehicles'') (\<lambda>vs. element_at vs 0) = Inr v0"
    and e: "vehicle_index v0 ''start_index'' (length rows) = (Inl e :: exn + 'i::len word option)"
  shows "parse_with_matrix (ops :: ('inp, 'i) input_class) doc inp = Inl e"
  by (simp add: parse_with_matrix_def m mat v0 e)

lemma parse_with_matrix_end_error:
  assumes m: "member_at doc ''matrix'' = Inr (JArray rows)"
    and mat: "load_matrix (length rows) rows = Inr mi"
    and v0: "and_then (member_at doc ''vehicles'') (\<lambda>vs. element_at vs 0) = Inr v0"
    and s: "vehicle_index v0 ''start_index'' (length rows) = (Inr si :: exn + 'i::len word option)"
    and e: "vehicle_index v0 ''end_index'' (length rows) = (Inl e :: exn + 'i::len word option)"
  shows "parse_with_matrix (ops :: ('inp, 'i) input_class) doc inp = Inl e"
  by (cases si) (simp_all add: parse_with_matrix_def m mat v0 s e)

lemma parse_with_matrix_ok:
  fixes ops :: "('inp, 'i::len) input_class"
  assumes m: "member_at doc ''matrix'' = Inr (JArray rows)"
    and mat: "load_matrix (length rows) rows = Inr mi"
    and v0: "and_then (member_at doc ''vehicles'') (\<lambda>vs. element_at vs 0) = Inr v0"
    and s: "vehicle_index v0 ''start_index'' (length rows) = (Inr si :: exn + 'i word option)"
    and e: "vehicle_index v0 ''end_index'' (length rows) = (Inr ei :: exn + 'i word option)"
    and vid: "and_then (member_at v0 ''id'') GetUint = Inr i"
    and sc: "parse_coordinates v0 ''start'' = Inr cs"
    and ec: "parse_coordinates v0 ''end'' = Inr ce"
    and jobs: "and_then (member_at doc ''jobs'') elements = Inr jobs"
    and ok: "list_all (indexed_job_ok (length rows)) jobs"
    and nt: "never_throws ops"
  shows "\<not> isl (parse_with_matrix ops doc inp)"
proof -
  define nec1 :: "'i word list"
    where "nec1 = (case si of None \<Rightarrow> [] | Some i \<Rightarrow> [i])"
  define cnt1 :: "'i word"
    where "cnt1 = (case si of None \<Rightarrow> 0 | Some i \<Rightarrow> 1)"
  define si' where "si' = (case si of None \<Rightarrow> None | Some i \<Rightarrow> Some (0 :: 'i word))"
  define nec2 cnt2
    where "nec2 = (case ei of None \<Rightarrow> nec1 | Some i \<Rightarrow> nec1 @ [i])"
      and "cnt2 = (case ei of None \<Rightarrow> cnt1 | Some i \<Rightarrow> cnt1 + 1)"
  define ei' where "ei' = (case ei of None \<Rightarrow> None | Some i \<Rightarrow> Some cnt1)"
  from nt have "\<not> isl (add_vehicle_indexed ops inp i cs ce si' ei')"
    by (simp add: never_throws_def)
  then obtain inp1 where a: "add_vehicle_indexed ops inp i cs ce si' ei' = Inr inp1"
    by (auto simp: not_isl_iff)
  from add_jobs_matrix_ok [OF nt ok, of "(inp1, nec2, cnt2)"]
  obtain inp2 nec3 cnt3 where j: "add_jobs_matrix ops (length rows) jobs (inp1, nec2, cnt2)
      = Inr (inp2, nec3, cnt3)"
    by (auto simp: not_isl_iff)
  from nt have "\<not> isl (get_sub_matrix ops mi nec3)" by (simp add: never_throws_def)
  then obtain sub where sub: "get_sub_matrix ops mi nec3 = Inr sub"
    by (auto simp: not_isl_iff)
  have "parse_with_matrix ops doc inp = Inr (set_matrix ops inp2 sub)"
    using a j sub
    by (cases si; cases ei)
       (simp_all add: parse_with_matrix_def m mat v0 s e vid sc ec jobs
          nec1_def cnt1_def si'_def nec2_def cnt2_def ei'_def)
  then show ?thesis by simp
qed

text \<open>
  Claim C8, as amended. When the input has a \<open>matrix\<close> member, the vehicle's
  \<open>start_index\<close> and \<open>end_index\<close> are optional. One that is present must be a
  number ("Vehicle start_index is not a number.") whose value is below the matrix size
  ("Vehicle start_index does not match to matrix size."), and likewise for
  \<open>end_index\<close>. When each is absent or valid and the rest of the document is well
  formed, the parser itself raises nothing on their account: with members of \<open>input\<close>
  that do not throw, it returns the problem model, unless fewer than two locations were
  given.
\<close>

theorem parse_matrix_indices_optional:
  fixes ops :: "('inp, 'i::len) input_class"
  assumes w: "\<not> isl (make_routing_wrapper LIBOSRM cl_args)"
    and doc: "cl_input cl_args = Inr doc"
    and checks: "required_checks doc = Inr ()"
    and m: "member_at doc ''matrix'' = Inr (JArray rows)"
    and mat: "\<not> isl (load_matrix (length rows) rows)"
    and v0: "and_then (member_at doc ''vehicles'') (\<lambda>vs. element_at vs 0) = Inr v0"
  shows
   "(\<forall>x. member_at v0 ''start_index'' = Inr x \<and> \<not> IsNumber x \<longrightarrow>
       parse ops LIBOSRM cl_args = throw ''Vehicle start_index is not a number.'') \<and>
    (\<forall>x u. member_at v0 ''start_index'' = Inr x \<and> GetUint x = Inr u \<and>
           length rows \<le> unat (of_nat u :: 'i word) \<longrightarrow>
       parse ops LIBOSRM cl_args = throw ''Vehicle start_index does not match to matrix size.'') \<and>
    (index_absent_or_valid (\<lambda>u. unat (of_nat u :: 'i word)) v0 ''start_index'' (length rows) \<longrightarrow>
       (\<forall>x. member_at v0 ''end_index'' = Inr x \<and> \<not> IsNumber x \<longrightarrow>
          parse ops LIBOSRM cl_args = throw ''Vehicle end_index is not a number.'') \<and>
       (\<forall>x u. member_at v0 ''end_index'' = Inr x \<and> GetUint x = Inr u \<and>
              length rows \<le> unat (of_nat u :: 'i word) \<longrightarrow>
          parse ops LIBOSRM cl_args =
            throw ''Vehicle end_index does not match to matrix size.'')) \<and>
    (never_throws ops \<and>
     index_absent_or_valid (\<lambda>u. unat (of_nat u :: 'i word)) v0 ''start_index'' (length rows) \<and>
     index_absent_or_valid (\<lambda>u. unat (of_nat u :: 'i word)) v0 ''end_index'' (length rows) \<and>
     \<not> isl (and_then (member_at v0 ''id'') GetUint) \<and>
     \<not> isl (parse_coordinates v0 ''start'') \<and>
     \<not> isl (parse_coordinates v0 ''end'') \<and>
     (\<exists>jobs. and_then (member_at doc ''jobs'') elements = Inr jobs \<and>
             list_all (indexed_job_ok (length rows)) jobs) \<longrightarrow>
       (\<exists>input_data. parse ops LIBOSRM cl_args = Inr input_data) \<or>
       parse ops LIBOSRM cl_args = throw ''At least two locations required!'')"
proof -
  from w obtain wr where wr: "make_routing_wrapper LIBOSRM cl_args = Inr wr"
    by (auto simp: not_isl_iff)
  from mat obtain mi where mi: "load_matrix (length rows) rows = Inr mi"
    by (auto simp: not_isl_iff)
  define inp0 where "inp0 = new_input ops wr (geometry cl_args)"
  note unfold = parse_matrix_unfold [OF wr doc checks m, of ops, folded inp0_def]
  have start_err: "parse ops LIBOSRM cl_args = Inl e"
    if "vehicle_index v0 ''start_index'' (length rows) = (Inl e :: exn + 'i word option)" for e
    using parse_with_matrix_start_error [OF m mi v0 that, of ops inp0] by (simp add: unfold)
  have end_err: "parse ops LIBOSRM cl_args = Inl e"
    if "index_absent_or_valid (\<lambda>u. unat (of_nat u :: 'i word)) v0 ''start_index'' (length rows)"
      and "vehicle_index v0 ''end_index'' (length rows) = (Inl e :: exn + 'i word option)" for e
  proof -
    from that(1) obtain si
      where "vehicle_index v0 ''start_index'' (length rows) = (Inr si :: exn + 'i word option)"
      using index_absent_or_valid_Inr [of v0 "''start_index''" "length rows"]
      by (auto simp: not_isl_iff)
    from parse_with_matrix_end_error [OF m mi v0 this that(2), of ops inp0]
    show ?thesis by (simp add: unfold)
  qed
  have c1: "parse ops LIBOSRM cl_args = throw ''Vehicle start_index is not a number.''"
    if "member_at v0 ''start_index'' = Inr x \<and> \<not> IsNumber x" for x
    using start_err vehicle_index_not_number [where ?'i = 'i, of v0 "''start_index''" x "length rows"] that
    by (simp add: throw_def)
  have c2: "parse ops LIBOSRM cl_args = throw ''Vehicle start_index does not match to matrix size.''"
    if "member_at v0 ''start_index'' = Inr x \<and> GetUint x = Inr u \<and>
           length rows \<le> unat (of_nat u :: 'i word)" for x u
    using start_err vehicle_index_too_large [where ?'i = 'i, of v0 "''start_index''" x u "length rows"] that
    by (simp add: throw_def)
  have c3: "parse ops LIBOSRM cl_args = throw ''Vehicle end_index is not a number.''"
    if "index_absent_or_valid (\<lambda>u. unat (of_nat u :: 'i word)) v0 ''start_index'' (length rows)"
      and "member_at v0 ''end_index'' = Inr x \<and> \<not> IsNumber x" for x
    using end_err [OF that(1)] vehicle_index_not_number [where ?'i = 'i, of v0 "''end_index''" x "length rows"] that(2)
    by (simp add: throw_def)
  have c4: "parse ops LIBOSRM cl_args = throw ''Vehicle end_index does not match to matrix size.''"
    if "index_absent_or_valid (\<lambda>u. unat (of_nat u :: 'i word)) v0 ''start_index'' (length rows)"
      and "member_at v0 ''end_index'' = Inr x \<and> GetUint x = Inr u \<and>
           length rows \<le> unat (of_nat u :: 'i word)" for x u
    using end_err [OF that(1)] vehicle_index_too_large [where ?'i = 'i, of v0 "''end_index''" x u "length rows"] that(2)
    by (simp add: throw_def)
  have c5: "(\<exists>input_data. parse ops LIBOSRM cl_args = Inr input_data) \<or>
       parse ops LIBOSRM cl_args = throw ''At least two locations required!''"
    if h: "never_throws ops \<and>
     index_absent_or_valid (\<lambda>u. unat (of_nat u :: 'i word)) v0 ''start_index'' (length rows) \<and>
     index_absent_or_valid (\<lambda>u. unat (of_nat u :: 'i word)) v0 ''end_index'' (length rows) \<and>
     \<not> isl (and_then (member_at v0 ''id'') GetUint) \<and>
     \<not> isl (parse_coordinates v0 ''start'') \<and>
     \<not> isl (parse_coordinates v0 ''end'') \<and>
     (\<exists>jobs. and_then (member_at doc ''jobs'') elements = Inr jobs \<and>
             list_all (indexed_job_ok (length rows)) jobs)"
  proof -
    from h obtain si ei
      where s: "vehicle_index v0 ''start_index'' (length rows) = (Inr si :: exn + 'i word option)"
        and e: "vehicle_index v0 ''end_index'' (length rows) = (Inr ei :: exn + 'i word option)"
      using index_absent_or_valid_Inr [of v0 "''start_index''" "length rows"]
        index_absent_or_valid_Inr [of v0 "''end_index''" "length rows"]
      by (auto simp: not_isl_iff)
    from h obtain i cs ce jobs
      where "and_then (member_at v0 ''id'') GetUint = Inr i"
        and "parse_coordinates v0 ''start'' = Inr cs"
        and "parse_coordinates v0 ''end'' = Inr ce"
        and "and_then (member_at doc ''jobs'') elements = Inr jobs"
        and "list_all (indexed_job_ok (length rows)) jobs"
      by (auto simp: not_isl_iff)
    from parse_with_matrix_ok [OF m mi v0 s e this, of ops inp0] h
    obtain r where "parse_with_matrix ops doc inp0 = Inr r"
      by (auto simp: not_isl_iff)
    then show ?thesis by (simp add: unfold)
  qed
  from c1 c2 c3 c4 c5 show ?thesis by blast
qed

theorem parse_matrix_indices_optional_witness:
  "\<not> isl (make_routing_wrapper False (ex_cl_args ex_doc_no_end_index)) \<and>
   cl_input (ex_cl_args ex_doc_no_end_index) = Inr ex_doc_no_end_index \<and>
   required_checks ex_doc_no_end_index = Inr () \<and>
   member_at ex_doc_no_end_index ''matrix''
     = Inr (JArray [JArray [JInt 0, JInt 7], JArray [JInt 9, JInt 0]]) \<and>
   load_matrix 2 [JArray [JInt 0, JInt 7], JArray [JInt 9, JInt 0]] = Inr [[0, 7], [9, 0]] \<and>
   and_then (member_at ex_doc_no_end_index ''vehicles'') (\<lambda>vs. element_at vs 0)
     = Inr (JObject [(''id'', JInt 0), (''start_index'', JInt 0)]) \<and>
   never_throws simple_input_class \<and>
   HasMember (JObject [(''id'', JInt 0), (''start_index'', JInt 0)]) ''end_index'' = Inr False \<and>
   isl (parse simple_input_class False (ex_cl_args ex_doc_no_end_index)) = False"
proof -
  define rows where "rows = [JArray [JInt 0, JInt 7], JArray [JInt 9, JInt 0]]"
  define v0 where "v0 = JObject [(''id'', JInt 0), (''start_index'', JInt 0)]"
  define jobs where "jobs = [JObject [(''id'', JInt 1), (''location_index'', JInt 1)]]"
  have doc_eq: "ex_doc_no_end_index =
      JObject [(''vehicles'', JArray [v0]), (''jobs'', JArray jobs), (''matrix'', JArray rows)]"
    by (simp add: ex_doc_no_end_index_def rows_def v0_def jobs_def)
  have h1: "\<not> isl (make_routing_wrapper False (ex_cl_args ex_doc_no_end_index))"
    by (simp add: make_routing_wrapper_def ex_cl_args_def)
  have h2: "cl_input (ex_cl_args ex_doc_no_end_index) = Inr ex_doc_no_end_index"
    by (simp add: ex_cl_args_def)
  have h3: "required_checks ex_doc_no_end_index = Inr ()"
    by (simp add: doc_eq required_checks_def v0_def)
  have h4: "member_at ex_doc_no_end_index ''matrix'' = Inr (JArray rows)"
    by (simp add: doc_eq)
  have lm: "load_matrix 2 rows = Inr [[0, 7], [9, 0]]"
    by (simp add: rows_def)
  have h5: "\<not> isl (load_matrix (length rows) rows)"
    using lm by (simp add: rows_def)
  have h6: "and_then (member_at ex_doc_no_end_index ''vehicles'') (\<lambda>vs. element_at vs 0) = Inr v0"
    by (simp add: doc_eq)
  have nt: "never_throws simple_input_class"
    by (simp add: never_throws_def simple_input_class_def)
  have absent: "HasMember v0 ''end_index'' = Inr False"
    by (simp add: v0_def)
  have g: "never_throws simple_input_class \<and>
     index_absent_or_valid (\<lambda>u. unat (of_nat u :: 16 word)) v0 ''start_index'' (length rows) \<and>
     index_absent_or_valid (\<lambda>u. unat (of_nat u :: 16 word)) v0 ''end_index'' (length rows) \<and>
     \<not> isl (and_then (member_at v0 ''id'') GetUint) \<and>
     \<not> isl (parse_coordinates v0 ''start'') \<and>
     \<not> isl (parse_coordinates v0 ''end'') \<and>
     (\<exists>jobs. and_then (member_at ex_doc_no_end_index ''jobs'') elements = Inr jobs \<and>
             list_all (indexed_job_ok (length rows)) jobs)"
    using nt
    by (simp add: index_absent_or_valid_def v0_def rows_def parse_coordinates_def doc_eq
          jobs_def indexed_job_ok_def)
  have ne: "parse simple_input_class False (ex_cl_args ex_doc_no_end_index)
      \<noteq> throw ''At least two locations required!''"
    by (simp add: parse_def ex_cl_args_def ex_doc_no_end_index_def make_routing_wrapper_def
          required_checks_def throw_def parse_with_matrix_def vehicle_index_def
          simple_input_class_def parse_coordinates_def simple_location_number_def
          count_some_def)
  have "(\<exists>input_data. parse simple_input_class False (ex_cl_args ex_doc_no_end_index)
          = Inr input_data) \<or>
       parse simple_input_class False (ex_cl_args ex_doc_no_end_index)
          = throw ''At least two locations required!''"
    using parse_matrix_indices_optional [OF h1 h2 h3 h4 h5 h6, of simple_input_class] g
    by blast
  with ne have "isl (parse simple_input_class False (ex_cl_args ex_doc_no_end_index)) = False"
    by auto
  then show ?thesis
    using h1 h2 h3 h4 lm h6 nt absent unfolding rows_def v0_def by simp
qed

text \<open>
  A document with a matrix whose vehicle has no \<open>end_index\<close> is parsed into a problem
  model.
\<close>

theorem parse_matrix_without_end_index_counterexample:
  "HasMember ex_doc_no_end_index ''matrix'' = Inr True \<and>
   and_then (member_at ex_doc_no_end_index ''vehicles'') (\<lambda>vs. element_at vs 0)
     = Inr (JObject [(''id'', JInt 0), (''start_index'', JInt 0)]) \<and>
   HasMember (JObject [(''id'', JInt 0), (''start_index'', JInt 0)]) ''end_index'' = Inr False \<and>
   parse simple_input_class False (ex_cl_args ex_doc_no_end_index) =
     Inr \<lparr>si_wrapper = routed_wrapper ''0.0.0.0'' ''5000'' ''car'', si_geometry = False,
          si_vehicles =
            [\<lparr>sv_id = 0, sv_start = None, sv_end = None,
               sv_start_index = Some 0, sv_end_index = None\<rparr>],
          si_jobs = [\<lparr>sj_id = 1, sj_location = None, sj_index = Some 1\<rparr>],
          si_matrix = [[0, 7], [9, 0]]\<rparr>"
  by (simp add: parse_def ex_cl_args_def ex_doc_no_end_index_def make_routing_wrapper_def
        required_checks_def throw_def parse_with_matrix_def vehicle_index_def
        simple_input_class_def parse_coordinates_def simple_location_number_def
        count_some_def)

section \<open>Properties of the route validation\<close>

subsection \<open>Ways out of the validator\<close>

lemma set_t_cols_Inl:
  "set_t_cols v d is st = Inl f \<Longrightarrow> f = infeasible_route v"
proof (induction "is" arbitrary: st)
  case Nil
  then show ?case by simp
next
  case (Cons i "is")
  obtain lp c where st: "st = (lp, c)" by (cases st) auto
  from Cons.prems show ?case
    unfolding st by (auto simp: Let_def split: if_splits dest: Cons.IH)
qed

lemma set_t_cols_throws:
  "\<exists>i\<in>set is. md_t_i_UB d ! i < md_t_i_LB d ! i \<Longrightarrow>
     set_t_cols v d is st = Inl (infeasible_route v)"
proof (induction "is" arbitrary: st)
  case Nil
  then show ?case by simp
next
  case (Cons i "is")
  obtain lp c where st: "st = (lp, c)" by (cases st) auto
  show ?case
  proof (cases "md_t_i_UB d ! i < md_t_i_LB d ! i")
    case True
    then show ?thesis by (simp add: st Let_def)
  next
    case False
    with Cons.prems have "\<exists>i\<in>set is. md_t_i_UB d ! i < md_t_i_LB d ! i" by auto
    from Cons.IH [OF this] False show ?thesis by (simp add: st Let_def)
  qed
qed

lemma set_t_cols_returns:
  "\<forall>i\<in>set is. \<not> md_t_i_UB d ! i < md_t_i_LB d ! i \<Longrightarrow>
     \<exists>st'. set_t_cols v d is st = Inr st'"
proof (induction "is" arbitrary: st)
  case Nil
  then show ?case by simp
next
  case (Cons i "is")
  obtain lp c where st: "st = (lp, c)" by (cases st) auto
  from Cons.prems have "\<forall>i\<in>set is. \<not> md_t_i_UB d ! i < md_t_i_LB d ! i"
    and "\<not> md_t_i_UB d ! i < md_t_i_LB d ! i" by auto
  then show ?case using Cons.IH by (simp add: st Let_def)
qed

lemma build_problem_throws:
  "contradictory_bounds d \<Longrightarrow> build_problem input v steps d lp = Inl (infeasible_route v)"
  by (simp add: build_problem_def contradictory_bounds_def list_ex_iff Let_def
        set_t_cols_throws del: upt_Suc)

lemma build_problem_returns:
  "\<not> contradictory_bounds d \<Longrightarrow> \<exists>lp'. build_problem input v steps d lp = Inr lp'"
proof -
  assume "\<not> contradictory_bounds d"
  then have "\<forall>i\<in>set [0 ..< md_n d + 2]. \<not> md_t_i_UB d ! i < md_t_i_LB d ! i"
    by (simp add: contradictory_bounds_def list_ex_iff)
  from set_t_cols_returns [OF this]
  obtain st' where "set_t_cols v d [0 ..< md_n d + 2]
      (set_rows input v steps d
         (set_first_objective d (lp\<lparr>prob_name := ''choose_ETA'', obj_dir := GLP_MIN\<rparr>)), 1)
      = Inr st'"
    by blast
  then show ?thesis by (simp add: build_problem_def Let_def del: upt_Suc)
qed

text \<open>
  Claim C2. Once the passes over the steps are through (no unset \<open>last_index\<close> is
  read), the validator throws \<open>Exception(ERROR::INPUT, "Infeasible route for vehicle
  <id>.")\<close>, with the vehicle's id, and returns no route, when some step's upper bound is
  below its lower bound, or when the MIP status after the first or after the second
  solving round is \<open>GLP_UNDEF\<close> or \<open>GLP_NOFEAS\<close>; in every other case it returns
  the route generated from the second solution, with the arrival, waiting time and
  violations of each step.
\<close>

theorem choose_invalid_route_outcome:
  assumes prep: "prepare input (inp_vehicles input ! vehicle_rank) steps = Inr d"
  shows
   "(contradictory_bounds d \<longrightarrow>
       fst (choose_invalid_route glp_intopt input vehicle_rank steps unassigned_ranks env) =
         Inl (Thrown (Exception INPUT
           (''Infeasible route for vehicle ''
            @ to_string (v_id (inp_vehicles input ! vehicle_rank)) @ ''.'')))) \<and>
    (\<not> contradictory_bounds d \<longrightarrow>
       (\<exists>lp. build_problem input (inp_vehicles input ! vehicle_rank) steps d
                (fst (glp_create_prob env)) = Inr lp \<and>
          fst (choose_invalid_route glp_intopt input vehicle_rank steps unassigned_ranks env) =
            (let v = inp_vehicles input ! vehicle_rank;
                 parm = \<lparr>presolve = True, br_tech = GLP_BR_MFV\<rparr>;
                 sol1 = glp_intopt lp parm;
                 sol2 = glp_intopt (set_second_objective d sol1 lp) parm
             in if mip_status sol1 = GLP_UNDEF \<or> mip_status sol1 = GLP_NOFEAS \<or>
                   mip_status sol2 = GLP_UNDEF \<or> mip_status sol2 = GLP_NOFEAS
                then Inl (Thrown (Exception INPUT
                       (''Infeasible route for vehicle '' @ to_string (v_id v) @ ''.'')))
                else Inr (generate_route input vehicle_rank v steps
                            (read_solution input v steps d sol2) unassigned_ranks))))"
proof (intro conjI impI)
  assume "contradictory_bounds d"
  then show "fst (choose_invalid_route glp_intopt input vehicle_rank steps unassigned_ranks env) =
         Inl (Thrown (Exception INPUT
           (''Infeasible route for vehicle ''
            @ to_string (v_id (inp_vehicles input ! vehicle_rank)) @ ''.'')))"
    by (simp add: choose_invalid_route_def prep Let_def build_problem_throws split_beta
          infeasible_route_def)
next
  assume "\<not> contradictory_bounds d"
  from build_problem_returns [OF this]
  obtain lp where lp: "build_problem input (inp_vehicles input ! vehicle_rank) steps d
                (fst (glp_create_prob env)) = Inr lp"
    by blast
  show "\<exists>lp. build_problem input (inp_vehicles input ! vehicle_rank) steps d
                (fst (glp_create_prob env)) = Inr lp \<and>
          fst (choose_invalid_route glp_intopt input vehicle_rank steps unassigned_ranks env) =
            (let v = inp_vehicles input ! vehicle_rank;
                 parm = \<lparr>presolve = True, br_tech = GLP_BR_MFV\<rparr>;
                 sol1 = glp_intopt lp parm;
                 sol2 = glp_intopt (set_second_objective d sol1 lp) parm
             in if mip_status sol1 = GLP_UNDEF \<or> mip_status sol1 = GLP_NOFEAS \<or>
                   mip_status sol2 = GLP_UNDEF \<or> mip_status sol2 = GLP_NOFEAS
                then Inl (Thrown (Exception INPUT
                       (''Infeasible route for vehicle '' @ to_string (v_id v) @ ''.'')))
                else Inr (generate_route input vehicle_rank v steps
                            (read_solution input v steps d sol2) unassigned_ranks))"
    by (rule exI [of _ lp])
       (simp add: choose_invalid_route_def prep Let_def lp split_beta infeasible_status_def
          infeasible_route_def)
qed

lemma choose_invalid_route_return_releases:
  assumes "choose_invalid_route glp_intopt input vehicle_rank steps unassigned_ranks env
             = (Inr r, env')"
  shows "glpk_released env'"
  using assms
  by (auto simp: choose_invalid_route_def Let_def split_beta glpk_released_def
        glp_free_env_def split: sum.splits if_splits)

text \<open>
  Claim C3 asks that every way out of \<open>choose_invalid_route\<close> releases the solver's
  resources. The return does (lemma \<open>choose_invalid_route_return_releases\<close>). Every
  throw after \<open>glp_create_prob\<close> does not: the problem object and GLPK's
  environment are still allocated when the exception leaves the function.
\<close>

theorem choose_invalid_route_throw_keeps_problem:
  assumes prep: "prepare input (inp_vehicles input ! vehicle_rank) steps = Inr d"
    and thrown: "choose_invalid_route glp_intopt input vehicle_rank steps unassigned_ranks env
             = (Inl f, env')"
  shows "env' = \<lparr>env_allocated = True, live_probs = live_probs env + 1\<rparr> \<and>
         \<not> glpk_released env'"
  using thrown
  by (auto simp: choose_invalid_route_def prep Let_def split_beta glpk_released_def
        glp_create_prob_def split: sum.splits if_splits)

lemma ex_prepare: "prepare (ex_input ex_vehicle) ex_vehicle ex_steps = Inr ex_data"
  by code_simp

lemma ex_prepare_forced:
  "prepare (ex_input ex_vehicle) ex_vehicle ex_steps_forced
     = Inr (ex_data\<lparr>md_t_i_UB := [38, 38, 5, 38]\<rparr>)"
  by code_simp

lemma ex_not_contradictory: "\<not> contradictory_bounds ex_data"
  by code_simp

lemma ex_contradictory: "contradictory_bounds (ex_data\<lparr>md_t_i_UB := [38, 38, 5, 38]\<rparr>)"
  by code_simp

lemma ex_choose:
  "choose_invalid_route ex_solver (ex_input ex_vehicle) 0 ex_steps ex_unassigned env0
     = (Inr (ex_route, {2, 3}), \<lparr>env_allocated = False, live_probs = 0\<rparr>)"
  by code_simp

lemma ex_choose_forced:
  "choose_invalid_route ex_solver (ex_input ex_vehicle) 0 ex_steps_forced ex_unassigned env0
     = (Inl (Thrown (Exception INPUT ''Infeasible route for vehicle 7.'')),
        \<lparr>env_allocated = True, live_probs = 1\<rparr>)"
  by code_simp

lemma ex_choose_nofeas:
  "choose_invalid_route ex_solver_nofeas (ex_input ex_vehicle) 0 ex_steps ex_unassigned env0
     = (Inl (Thrown (Exception INPUT ''Infeasible route for vehicle 7.'')),
        \<lparr>env_allocated = True, live_probs = 1\<rparr>)"
  by code_simp

lemma ex_vehicle_0: "inp_vehicles (ex_input ex_vehicle) ! 0 = ex_vehicle"
  by (simp add: ex_input_def)

lemma ex_message:
  "''Infeasible route for vehicle '' @ to_string (v_id ex_vehicle) @ ''.''
     = ''Infeasible route for vehicle 7.''"
  by code_simp

lemma ex_vehicle_id_string: "to_string (v_id ex_vehicle) = ''7''"
  by code_simp

lemma ex_generate:
  "generate_route (ex_input ex_vehicle) 0 ex_vehicle ex_steps
     (read_solution (ex_input ex_vehicle) ex_vehicle ex_steps ex_data
        \<lparr>mip_status = GLP_OPT, mip_col_val = ex_values\<rparr>) ex_unassigned
   = (ex_route, {2, 3})"
  by code_simp

theorem choose_invalid_route_outcome_witness:
  "prepare (ex_input ex_vehicle) (inp_vehicles (ex_input ex_vehicle) ! 0) ex_steps_forced
     = Inr (ex_data\<lparr>md_t_i_UB := [38, 38, 5, 38]\<rparr>) \<and>
   contradictory_bounds (ex_data\<lparr>md_t_i_UB := [38, 38, 5, 38]\<rparr>) \<and>
   fst (choose_invalid_route ex_solver (ex_input ex_vehicle) 0 ex_steps_forced ex_unassigned env0)
     = Inl (Thrown (Exception INPUT ''Infeasible route for vehicle 7.'')) \<and>
   prepare (ex_input ex_vehicle) (inp_vehicles (ex_input ex_vehicle) ! 0) ex_steps
     = Inr ex_data \<and>
   \<not> contradictory_bounds ex_data \<and>
   fst (choose_invalid_route ex_solver_nofeas (ex_input ex_vehicle) 0 ex_steps ex_unassigned env0)
     = Inl (Thrown (Exception INPUT ''Infeasible route for vehicle 7.'')) \<and>
   fst (choose_invalid_route ex_solver (ex_input ex_vehicle) 0 ex_steps ex_unassigned env0)
     = Inr (ex_route, {2, 3})"
proof -
  have p1: "prepare (ex_input ex_vehicle) (inp_vehicles (ex_input ex_vehicle) ! 0)
      ex_steps_forced = Inr (ex_data\<lparr>md_t_i_UB := [38, 38, 5, 38]\<rparr>)"
    by (simp only: ex_vehicle_0 ex_prepare_forced)
  have p2: "prepare (ex_input ex_vehicle) (inp_vehicles (ex_input ex_vehicle) ! 0)
      ex_steps = Inr ex_data"
    by (simp only: ex_vehicle_0 ex_prepare)
  note c1 = ex_contradictory and c2 = ex_not_contradictory
  have r1: "fst (choose_invalid_route ex_solver (ex_input ex_vehicle) 0 ex_steps_forced
        ex_unassigned env0)
     = Inl (Thrown (Exception INPUT ''Infeasible route for vehicle 7.''))"
    using choose_invalid_route_outcome [OF p1, of ex_solver ex_unassigned env0] c1
    by (simp only: ex_vehicle_0 ex_message simp_thms)
  have r2: "fst (choose_invalid_route ex_solver_nofeas (ex_input ex_vehicle) 0 ex_steps
        ex_unassigned env0)
     = Inl (Thrown (Exception INPUT ''Infeasible route for vehicle 7.''))"
    using choose_invalid_route_outcome [OF p2, of ex_solver_nofeas ex_unassigned env0] c2
    by (auto simp: ex_vehicle_0 ex_vehicle_id_string ex_solver_nofeas_def Let_def)
  have r3: "fst (choose_invalid_route ex_solver (ex_input ex_vehicle) 0 ex_steps
        ex_unassigned env0) = Inr (ex_route, {2, 3})"
    using choose_invalid_route_outcome [OF p2, of ex_solver ex_unassigned env0] c2
    by (auto simp: ex_vehicle_0 ex_vehicle_id_string ex_solver_def Let_def ex_generate)
  from p1 p2 c1 c2 r1 r2 r3 show ?thesis by (simp only: simp_thms)
qed

theorem choose_invalid_route_throw_keeps_problem_witness:
  "prepare (ex_input ex_vehicle) (inp_vehicles (ex_input ex_vehicle) ! 0) ex_steps_forced
     = Inr (ex_data\<lparr>md_t_i_UB := [38, 38, 5, 38]\<rparr>) \<and>
   choose_invalid_route ex_solver (ex_input ex_vehicle) 0 ex_steps_forced ex_unassigned env0
     = (Inl (Thrown (Exception INPUT ''Infeasible route for vehicle 7.'')),
        \<lparr>env_allocated = True, live_probs = 1\<rparr>) \<and>
   glpk_released env0 \<and>
   \<not> glpk_released \<lparr>env_allocated = True, live_probs = 1\<rparr>"
proof -
  have p1: "prepare (ex_input ex_vehicle) (inp_vehicles (ex_input ex_vehicle) ! 0)
      ex_steps_forced = Inr (ex_data\<lparr>md_t_i_UB := [38, 38, 5, 38]\<rparr>)"
    by (simp only: ex_vehicle_0 ex_prepare_forced)
  have "\<not> glpk_released \<lparr>env_allocated = True, live_probs = 1\<rparr>"
    using choose_invalid_route_throw_keeps_problem [OF p1 ex_choose_forced] by simp
  moreover have "glpk_released env0" by (simp add: glpk_released_def env0_def)
  ultimately show ?thesis using p1 ex_choose_forced by (simp only: simp_thms)
qed

lemma same_objective_refl [simp]: "same_objective lp lp"
  by (simp add: same_objective_def)

lemma same_objective_trans:
  "same_objective a b \<Longrightarrow> same_objective b c \<Longrightarrow> same_objective a c"
  by (simp add: same_objective_def)

lemma fold_invariant:
  assumes "\<And>x s. P s \<Longrightarrow> P (f x s)" and "P s"
  shows "P (fold f xs s)"
  using assms(2) by (induction xs arbitrary: s) (simp_all add: assms(1))

lemma next_row_same: "same_objective lp (fst st) \<Longrightarrow> same_objective lp (fst (next_row nm t lb ub st))"
  by (cases st) (simp add: next_row_def same_objective_def glp_set_row_bnds_def glp_set_row_name_def)

lemma next_col_same: "same_objective lp (fst st) \<Longrightarrow> same_objective lp (fst (next_col nm t lb ub st))"
  by (cases st) (simp add: next_col_def same_objective_def glp_set_col_bnds_def glp_set_col_name_def)

lemma next_X_col_same: "same_objective lp (fst st) \<Longrightarrow> same_objective lp (fst (next_X_col fr i k st))"
  by (cases st)
     (simp add: next_X_col_def same_objective_def glp_set_col_bnds_def glp_set_col_name_def
        glp_set_col_kind_def Let_def)

lemma set_rows_same: "same_objective lp (set_rows input v steps d lp)"
proof -
  define P where "P = (\<lambda>st :: glp_prob \<times> nat. same_objective lp (fst st))"
  have row: "\<And>nm t lb ub st. P st \<Longrightarrow> P (next_row nm t lb ub st)"
    by (simp add: P_def next_row_same)
  have f: "\<And>g xs st. P st \<Longrightarrow> (\<And>x st. P st \<Longrightarrow> P (g x st)) \<Longrightarrow> P (fold g xs st)"
    by (rule fold_invariant)
  have P0: "P (glp_add_rows (nb_constraints d) lp, 1)"
    by (simp add: P_def same_objective_def glp_add_rows_def)
  have final: "P st \<Longrightarrow> same_objective lp
          (glp_set_row_bnds (snd st) GLP_LO 0 0 (glp_set_row_name (snd st) ''Sigma_Y'' (fst st)))"
    for st
    by (simp add: P_def same_objective_def glp_set_row_bnds_def glp_set_row_name_def)
  show ?thesis
    unfolding set_rows_def Let_def split_beta
    apply (rule final)
    apply (intro row f P0 | assumption)+
    done
qed

lemma set_t_cols_same:
  "set_t_cols v d is st = Inr st' \<Longrightarrow> same_objective lp (fst st) \<Longrightarrow>
     same_objective lp (fst st')"
proof (induction "is" arbitrary: st)
  case Nil
  then show ?case by simp
next
  case (Cons i "is")
  obtain p c where st: "st = (p, c)" by (cases st) auto
  from Cons.prems show ?case
    unfolding st
    by (auto simp: Let_def same_objective_def glp_set_col_bnds_def glp_set_col_name_def
          split: if_splits dest!: Cons.IH)
qed

lemma set_other_cols_same:
  "same_objective lp (fst st) \<Longrightarrow> same_objective lp (set_other_cols input v steps d st)"
proof -
  assume st: "same_objective lp (fst st)"
  define P where "P = (\<lambda>st :: glp_prob \<times> nat. same_objective lp (fst st))"
  have col: "\<And>nm t lb ub st. P st \<Longrightarrow> P (next_col nm t lb ub st)"
    by (simp add: P_def next_col_same)
  have xcol: "\<And>fr i k st. P st \<Longrightarrow> P (next_X_col fr i k st)"
    by (simp add: P_def next_X_col_same)
  have f: "\<And>g xs st. P st \<Longrightarrow> (\<And>x st. P st \<Longrightarrow> P (g x st)) \<Longrightarrow> P (fold g xs st)"
    by (rule fold_invariant)
  have P0: "P st" using st by (simp add: P_def)
  have final: "P st \<Longrightarrow> same_objective lp (fst st)" for st by (simp add: P_def)
  show ?thesis
    unfolding set_other_cols_def Let_def
    apply (rule final)
    apply (intro col xcol f P0 | assumption)+
    done
qed

lemma first_objective_coef:
  "obj_coef (set_first_objective d lp) j =
     (if j = 1 then - 1
      else if j = md_n d + 2 then 1
      else if start_Y_col d \<le> j \<and> j < start_Y_col d + (md_n d + 2)
           then to_double (md_makespan_estimate d)
      else obj_coef lp j)"
proof -
  have fold_coef: "obj_coef (fold (\<lambda>i. glp_set_obj_coef (a + i) c) [0 ..< m] p) j =
      (if a \<le> j \<and> j < a + m then c else obj_coef p j)" for a c m p
    by (induction m) (auto simp: glp_set_obj_coef_def)
  show ?thesis
    by (simp add: set_first_objective_def Let_def glp_set_obj_coef_def fold_coef
          glp_add_cols_def start_Y_col_def del: upt_Suc)
qed

lemma first_objective_cols:
  "n_cols (set_first_objective d lp) = n_cols lp + nb_var d \<and>
   obj_dir (set_first_objective d lp) = obj_dir lp"
proof -
  have fold_keeps: "n_cols (fold (\<lambda>i. glp_set_obj_coef (a + i) c) xs p) = n_cols p \<and>
      obj_dir (fold (\<lambda>i. glp_set_obj_coef (a + i) c) xs p) = obj_dir p" for a c xs p
    by (induction xs arbitrary: p) (auto simp: glp_set_obj_coef_def)
  show ?thesis
    by (simp add: set_first_objective_def Let_def glp_set_obj_coef_def fold_keeps
          glp_add_cols_def del: upt_Suc)
qed

lemma build_problem_objective:
  assumes "build_problem input v steps d lp0 = Inr lp"
  shows "same_objective
           (set_first_objective d (lp0\<lparr>prob_name := ''choose_ETA'', obj_dir := GLP_MIN\<rparr>)) lp"
proof -
  let ?a = "set_first_objective d (lp0\<lparr>prob_name := ''choose_ETA'', obj_dir := GLP_MIN\<rparr>)"
  let ?b = "set_rows input v steps d ?a"
  from assms obtain st where st: "set_t_cols v d [0 ..< md_n d + 2] (?b, 1) = Inr st"
    and lp: "lp = glp_load_matrix (matrix_entries input v steps d)
                    (set_other_cols input v steps d st)"
    by (auto simp: build_problem_def Let_def split: sum.splits simp del: upt_Suc)
  have "same_objective ?a (fst st)"
    using set_t_cols_same [OF st, of ?a] set_rows_same [of ?a input v steps d] by simp
  then have "same_objective ?a (set_other_cols input v steps d st)"
    by (rule set_other_cols_same)
  then show ?thesis
    by (simp add: lp glp_load_matrix_def same_objective_def)
qed

lemma sum_list_upt_conv: "sum_list (map f [m ..< n]) = sum f {m ..< n}"
  by (simp add: interv_sum_list_conv_sum_set_nat)

lemma first_objective_value:
  fixes x :: "nat \<Rightarrow> real"
  assumes coef: "\<And>j. obj_coef lp j =
     (if j = 1 then - 1
      else if j = md_n d + 2 then 1
      else if start_Y_col d \<le> j \<and> j < start_Y_col d + (md_n d + 2)
           then to_double (md_makespan_estimate d)
      else 0)"
    and cols: "n_cols lp = nb_var d"
  shows "objective_value lp x =
     (x (md_n d + 2) - x 1)
     + to_double (md_makespan_estimate d) * (\<Sum>i \<leftarrow> [0 ..< md_n d + 2]. x (start_Y_col d + i))"
proof -
  define n where "n = md_n d"
  define M where "M = to_double (md_makespan_estimate d)"
  define N where "N = nb_var d"
  define g where "g = (\<lambda>j. obj_coef lp j * x j)"
  have N: "2 * n + 5 \<le> N"
    by (simp add: N_def nb_var_def start_delta_col_def start_X_col_def n_def)
  have g1: "g 1 = - x 1" by (simp add: g_def coef)
  have g2: "g j = 0" if "j \<in> {2 ..< n + 2}" for j
    using that by (simp add: g_def coef n_def start_Y_col_def)
  have g3: "g (n + 2) = x (n + 2)" by (simp add: g_def coef n_def)
  have g4: "g j = M * x j" if "j \<in> {n + 3 ..< 2 * n + 5}" for j
    using that by (simp add: g_def coef n_def start_Y_col_def M_def)
  have g5: "g j = 0" if "j \<in> {2 * n + 5 ..< N + 1}" for j
    using that by (simp add: g_def coef n_def start_Y_col_def)
  have "sum g {1 ..< N + 1} = sum g {1 ..< 2} + sum g {2 ..< N + 1}"
    using N by (subst sum.atLeastLessThan_concat) simp_all
  also have "sum g {2 ..< N + 1} = sum g {2 ..< n + 2} + sum g {n + 2 ..< N + 1}"
    using N by (subst sum.atLeastLessThan_concat) simp_all
  also have "sum g {n + 2 ..< N + 1} = sum g {n + 2 ..< n + 3} + sum g {n + 3 ..< N + 1}"
    using N by (subst sum.atLeastLessThan_concat) simp_all
  also have "sum g {n + 3 ..< N + 1} = sum g {n + 3 ..< 2 * n + 5} + sum g {2 * n + 5 ..< N + 1}"
    using N by (subst sum.atLeastLessThan_concat) simp_all
  finally have split: "sum g {1 ..< N + 1} =
      sum g {1 ..< 2} + (sum g {2 ..< n + 2} + (sum g {n + 2 ..< n + 3}
        + (sum g {n + 3 ..< 2 * n + 5} + sum g {2 * n + 5 ..< N + 1})))" .
  have s1: "sum g {1 ..< 2} = - x 1"
    using g1 by (simp add: numeral_2_eq_2)
  have s2: "sum g {2 ..< n + 2} = 0" using g2 by (rule sum.neutral [OF ballI])
  have s3: "sum g {n + 2 ..< n + 3} = x (n + 2)"
  proof -
    have "{n + 2 ..< n + 3} = {n + 2}" by auto
    then show ?thesis using g3 by simp
  qed
  have "sum g {n + 3 ..< 2 * n + 5} = (\<Sum>j \<in> {n + 3 ..< 2 * n + 5}. M * x j)"
    using g4 by (rule sum.cong [OF refl])
  also have "\<dots> = M * (\<Sum>j \<in> {n + 3 ..< 2 * n + 5}. x j)"
    by (simp add: sum_distrib_left)
  also have "(\<Sum>j \<in> {n + 3 ..< 2 * n + 5}. x j) = (\<Sum>i \<in> {0 ..< n + 2}. x (n + 3 + i))"
  proof -
    have e: "2 * n + 5 = (n + 2) + (n + 3)" and e0: "n + 3 = 0 + (n + 3)" by simp_all
    have "(\<Sum>j \<in> {n + 3 ..< 2 * n + 5}. x j) = (\<Sum>j \<in> {0 + (n + 3) ..< (n + 2) + (n + 3)}. x j)"
      by (subst e, subst (1) e0) (rule refl)
    also have "\<dots> = (\<Sum>i \<in> {0 ..< n + 2}. x (i + (n + 3)))"
      by (rule sum.shift_bounds_nat_ivl)
    finally show ?thesis by (simp only: add.commute [of "n + 3"])
  qed
  finally have s4: "sum g {n + 3 ..< 2 * n + 5} = M * (\<Sum>i \<in> {0 ..< n + 2}. x (n + 3 + i))" .
  have s5: "sum g {2 * n + 5 ..< N + 1} = 0" using g5 by (rule sum.neutral [OF ballI])
  have "objective_value lp x = sum g {1 ..< N + 1}"
    unfolding objective_value_def cols N_def g_def by (rule sum_list_upt_conv)
  also note split
  finally have "objective_value lp x
      = - x 1 + (0 + (x (n + 2) + (M * (\<Sum>i \<in> {0 ..< n + 2}. x (n + 3 + i)) + 0)))"
    by (simp only: s1 s2 s3 s4 s5)
  then have "objective_value lp x
      = (x (n + 2) - x 1) + M * (\<Sum>i \<in> {0 ..< n + 2}. x (n + 3 + i))"
    by linarith
  moreover have "(\<Sum>i \<leftarrow> [0 ..< md_n d + 2]. x (start_Y_col d + i))
      = (\<Sum>i \<in> {0 ..< n + 2}. x (n + 3 + i))"
    unfolding n_def start_Y_col_def by (rule sum_list_upt_conv)
  ultimately show ?thesis
    unfolding M_def n_def by (simp only:)
qed

lemma scan_step_sums:
  assumes "scan_step input v step s = Inr s'"
  shows "sc_service_sum s' = sc_service_sum s + step_service input v step"
    and "sc_duration_sum s' - sum_list (sc_durations s')
         = sc_duration_sum s - sum_list (sc_durations s)"
  using assms
  by (cases "step_type step";
      auto simp: scan_step_def step_service_def Let_def widen_horizon_def
        split: if_splits option.splits)+

lemma scan_steps_sums:
  "scan_steps input v steps s = Inr s' \<Longrightarrow>
     sc_service_sum s' = sc_service_sum s + service_total input v steps \<and>
     sc_duration_sum s' - sum_list (sc_durations s')
       = sc_duration_sum s - sum_list (sc_durations s)"
proof (induction steps arbitrary: s)
  case Nil
  then show ?case by (simp add: service_total_def)
next
  case (Cons step steps)
  from Cons.prems obtain s1 where s1: "scan_step input v step s = Inr s1"
    and rest: "scan_steps input v steps s1 = Inr s'"
    by (auto split: sum.splits)
  from Cons.IH [OF rest] scan_step_sums [OF s1]
  show ?case by (simp add: service_total_def algebra_simps)
qed

lemma prepare_makespan:
  assumes "prepare input v steps = Inr d"
  shows "\<exists>sc. scan_steps input v steps (scan_init v) = Inr sc \<and>
           md_durations d = sc_durations sc \<and>
           md_makespan_estimate d =
             (let total = travel_total d + service_total input v steps
              in if total = 0 \<and> sc_horizon_start sc \<noteq> - 1
                 then sc_horizon_end sc - sc_horizon_start sc
                 else total)"
proof -
  from assms obtain sc where sc: "scan_steps input v steps (scan_init v) = Inr sc"
    and d: "d = make_mip_data steps sc (fst (refine_horizon sc))
              (bounds_steps input v (sc_durations sc) steps
                 (bounds_init (fst (snd (refine_horizon sc))) (snd (snd (refine_horizon sc)))
                    (sc_durations sc)))"
    by (auto simp: prepare_def split_beta Let_def split: sum.splits)
  have init: "sc_service_sum (scan_init v) = 0" "sc_duration_sum (scan_init v) = 0"
    "sc_durations (scan_init v) = []"
    by (simp_all add: scan_init_def Let_def)
  from scan_steps_sums [OF sc]
  have sums: "sc_service_sum sc = service_total input v steps"
    "sc_duration_sum sc = sum_list (sc_durations sc)"
    by (simp_all add: init)
  have dur: "md_durations d = sc_durations sc"
    by (simp add: d make_mip_data_def)
  have "md_makespan_estimate d = fst (refine_horizon sc)"
    by (simp add: d make_mip_data_def)
  also have "\<dots> = (let total = travel_total d + service_total input v steps
              in if total = 0 \<and> sc_horizon_start sc \<noteq> - 1
                 then sc_horizon_end sc - sc_horizon_start sc
                 else total)"
    by (simp add: refine_horizon_def Let_def sums travel_total_def dur)
  finally show ?thesis using sc dur by blast
qed

text \<open>
  Claim C1, as amended. The problem handed to the first solving round is a minimisation
  whose objective is (vehicle end minus vehicle start) plus \<open>M_m\<close> times the sum of the
  violation variables \<open>Y_i\<close>: the makespan has weight 1 and every \<open>Y_i\<close> has weight
  \<open>M_m\<close>. The constant \<open>M_m\<close> is the sum of the services and of the travel durations
  of the sequence; when that sum is 0 and some time window of the input is not the
  default one, it is the width of the planning horizon found so far.
\<close>

theorem first_round_objective:
  assumes prep: "prepare input v steps = Inr d"
    and build: "build_problem input v steps d (fst (glp_create_prob env)) = Inr lp"
  shows "obj_dir lp = GLP_MIN \<and>
    (\<forall>x. objective_value lp x =
       (x (md_n d + 2) - x 1)
       + to_double (md_makespan_estimate d)
         * (\<Sum>i \<leftarrow> [0 ..< md_n d + 2]. x (start_Y_col d + i))) \<and>
    (travel_total d + service_total input v steps \<noteq> 0 \<longrightarrow>
       md_makespan_estimate d = travel_total d + service_total input v steps) \<and>
    (\<exists>sc. scan_steps input v steps (scan_init v) = Inr sc \<and>
       md_makespan_estimate d =
         (let total = travel_total d + service_total input v steps
          in if total = 0 \<and> sc_horizon_start sc \<noteq> - 1
             then sc_horizon_end sc - sc_horizon_start sc
             else total))"
proof -
  let ?lp0 = "(fst (glp_create_prob env))\<lparr>prob_name := ''choose_ETA'', obj_dir := GLP_MIN\<rparr>"
  from build_problem_objective [OF build]
  have same: "same_objective (set_first_objective d ?lp0) lp" .
  have coef: "obj_coef lp j =
     (if j = 1 then - 1
      else if j = md_n d + 2 then 1
      else if start_Y_col d \<le> j \<and> j < start_Y_col d + (md_n d + 2)
           then to_double (md_makespan_estimate d)
      else 0)" for j
    using same first_objective_coef [of d ?lp0 j]
    by (simp add: same_objective_def glp_create_prob_def)
  have cols: "n_cols lp = nb_var d" and dir: "obj_dir lp = GLP_MIN"
    using same first_objective_cols [of d ?lp0]
    by (simp_all add: same_objective_def glp_create_prob_def)
  from prepare_makespan [OF prep]
  obtain sc where sc: "scan_steps input v steps (scan_init v) = Inr sc"
    and m: "md_makespan_estimate d =
         (let total = travel_total d + service_total input v steps
          in if total = 0 \<and> sc_horizon_start sc \<noteq> - 1
             then sc_horizon_end sc - sc_horizon_start sc
             else total)"
    by blast
  from m have m': "travel_total d + service_total input v steps \<noteq> 0 \<longrightarrow>
       md_makespan_estimate d = travel_total d + service_total input v steps"
    by (simp add: Let_def)
  from dir first_objective_value [OF coef cols] m' sc m show ?thesis by blast
qed

text \<open>
  The objective is not the one the spec words. For the two-job sequence, where the sum
  of services and travel durations is 23, the assignment with vehicle end 1 and all else
  0 has the objective value 1, and the spec's formula gives 23.
\<close>

theorem first_round_objective_counterexample:
  "prepare (ex_input ex_vehicle) ex_vehicle ex_steps = Inr ex_data \<and>
   service_total (ex_input ex_vehicle) ex_vehicle ex_steps + travel_total ex_data = 23 \<and>
   (case build_problem (ex_input ex_vehicle) ex_vehicle ex_steps ex_data
           (fst (glp_create_prob env0)) of
      Inl f \<Rightarrow> False
    | Inr lp \<Rightarrow> objective_value lp ex_assignment = 1 \<and>
               spec_first_objective ex_data 23 ex_assignment = 23)"
  by code_simp

theorem first_round_objective_witness:
  "prepare (ex_input ex_vehicle) ex_vehicle ex_steps = Inr ex_data \<and>
   (case build_problem (ex_input ex_vehicle) ex_vehicle ex_steps ex_data
           (fst (glp_create_prob env0)) of
      Inl f \<Rightarrow> False
    | Inr lp \<Rightarrow> obj_dir lp = GLP_MIN \<and> objective_value lp ex_assignment = 1) \<and>
   travel_total ex_data + service_total (ex_input ex_vehicle) ex_vehicle ex_steps = 23 \<and>
   md_makespan_estimate ex_data = 23"
proof -
  from build_problem_returns [OF ex_not_contradictory]
  obtain lp where lp: "build_problem (ex_input ex_vehicle) ex_vehicle ex_steps ex_data
           (fst (glp_create_prob env0)) = Inr lp"
    by blast
  note main = first_round_objective [OF ex_prepare lp]
  have total: "travel_total ex_data + service_total (ex_input ex_vehicle) ex_vehicle ex_steps = 23"
    by code_simp
  have rhs: "(ex_assignment (md_n ex_data + 2) - ex_assignment 1)
       + to_double (md_makespan_estimate ex_data)
         * (\<Sum>i \<leftarrow> [0 ..< md_n ex_data + 2]. ex_assignment (start_Y_col ex_data + i)) = 1"
    by code_simp
  from main have "objective_value lp ex_assignment = 1"
    unfolding rhs [symmetric] by blast
  moreover from main have "obj_dir lp = GLP_MIN" by blast
  moreover from main total have "md_makespan_estimate ex_data = 23" by simp
  ultimately show ?thesis using ex_prepare total by (simp add: lp)
qed

section \<open>The route the validator returns\<close>

subsection \<open>What the statements of the loop do to the vector of steps\<close>

text \<open>
  Flagging a violation or setting a lead time or a delay touches the last step only, and
  leaves the type and the load of every step alone.
\<close>

lemma load_view_add_type [simp]: "load_view (add_type t c) = load_view c"
  by (simp add: load_view_def add_type_def)

lemma tw_view_add_type:
  "t \<noteq> LEAD_TIME \<Longrightarrow> t \<noteq> DELAY \<Longrightarrow> tw_view (add_type t c) = tw_view c"
  by (simp add: tw_view_def add_type_def)

lemma flag_steps:
  "rs_sol_steps s = xs @ [c] \<Longrightarrow> rs_sol_steps (flag t s) = xs @ [add_type t c]"
  by (simp add: flag_def)

lemma set_last_lead_time_steps:
  "rs_sol_steps s = xs @ [c] \<Longrightarrow>
     rs_sol_steps (set_last_lead_time lt s)
       = xs @ [c\<lparr>s_violations := (s_violations c)\<lparr>viol_lead_time := lt\<rparr>\<rparr>]"
  by (simp add: set_last_lead_time_def Let_def)

lemma set_last_delay_steps:
  "rs_sol_steps s = xs @ [c] \<Longrightarrow>
     rs_sol_steps (set_last_delay dl s)
       = xs @ [c\<lparr>s_violations := (s_violations c)\<lparr>viol_delay := dl\<rparr>\<rparr>]"
  by (simp add: set_last_delay_def Let_def)

lemma handle_tw_violations_steps:
  assumes "rs_sol_steps s = xs @ [c]"
  shows "\<exists>c'. rs_sol_steps (handle_tw_violations tw ss s) = xs @ [c'] \<and>
           load_view c' = load_view c \<and>
           s_arrival c' = s_arrival c \<and> s_waiting_time c' = s_waiting_time c \<and>
           (viol_types (s_violations c) = {} \<and> viol_lead_time (s_violations c) = 0 \<and>
            viol_delay (s_violations c) = 0 \<longrightarrow>
              (LEAD_TIME \<in> viol_types (s_violations c') \<longleftrightarrow> ss < tw_start tw) \<and>
              viol_lead_time (s_violations c')
                = (if ss < tw_start tw then tw_start tw - ss else 0) \<and>
              (DELAY \<in> viol_types (s_violations c') \<longleftrightarrow> tw_end tw < ss) \<and>
              viol_delay (s_violations c')
                = (if tw_end tw < ss then ss - tw_end tw else 0))"
  using assms
  by (simp add: handle_tw_violations_def Let_def flag_def set_last_lead_time_def
        set_last_delay_def add_type_def load_view_def)

lemma precedence_check_steps:
  assumes "rs_sol_steps s = xs @ [c]"
  shows "\<exists>c'. rs_sol_steps (precedence_check job r s) = xs @ [c'] \<and>
           load_view c' = load_view c \<and> tw_view c' = tw_view c"
  using assms
  by (cases "j_type job")
     (auto simp: precedence_check_def flag_def add_type_def load_view_def tw_view_def
        split: option.splits)

lemma precedence_check_fields:
  "rs_task_rank (precedence_check job r s) = rs_task_rank s"
  by (cases "j_type job")
     (auto simp: precedence_check_def flag_def split: option.splits)

lemma handle_tw_violations_fields:
  "rs_task_rank (handle_tw_violations tw ss s) = rs_task_rank s"
  by (simp add: handle_tw_violations_def Let_def flag_def set_last_lead_time_def
        set_last_delay_def)

lemma push_task_step_steps:
  "rs_sol_steps (push_task_step new out s) =
     rs_sol_steps s @
       [new\<lparr>s_duration := rs_duration s + rs_previous_travel s,
            s_arrival := rs_previous_start s + rs_previous_service s + rs_previous_travel s,
            s_waiting_time := mo_task_ETA out ! rs_task_rank s
               - (rs_previous_start s + rs_previous_service s + rs_previous_travel s)\<rparr>]"
  by (simp add: push_task_step_def Let_def)

lemma push_task_step_fields:
  "rs_task_rank (push_task_step new out s) = rs_task_rank s"
  by (simp add: push_task_step_def Let_def)

lemma flag_if_steps:
  assumes "rs_sol_steps s = xs @ [c]" and "t \<noteq> LEAD_TIME" and "t \<noteq> DELAY"
  shows "\<exists>c'. rs_sol_steps (if b then flag t s else s) = xs @ [c'] \<and>
           load_view c' = load_view c \<and> tw_view c' = tw_view c"
  using assms by (simp add: flag_steps tw_view_add_type)

lemma flag_fields: "rs_task_rank (flag t s) = rs_task_rank s"
  by (simp add: flag_def)

lemma handle_tw_violations_view:
  assumes st: "rs_sol_steps s = xs @ [c]"
    and fresh: "s_violations c = no_violations"
    and ss: "s_arrival c + s_waiting_time c = ss"
  shows "\<exists>c'. rs_sol_steps (handle_tw_violations tw ss s) = xs @ [c'] \<and>
           load_view c' = load_view c \<and> tw_view c' = expected_view (s_type c) tw ss"
proof -
  from handle_tw_violations_steps [OF st, of tw ss]
  obtain c' where c': "rs_sol_steps (handle_tw_violations tw ss s) = xs @ [c']"
    "load_view c' = load_view c" "s_arrival c' = s_arrival c"
    "s_waiting_time c' = s_waiting_time c"
    and v: "viol_types (s_violations c) = {} \<and> viol_lead_time (s_violations c) = 0 \<and>
            viol_delay (s_violations c) = 0 \<longrightarrow>
              (LEAD_TIME \<in> viol_types (s_violations c') \<longleftrightarrow> ss < tw_start tw) \<and>
              viol_lead_time (s_violations c')
                = (if ss < tw_start tw then tw_start tw - ss else 0) \<and>
              (DELAY \<in> viol_types (s_violations c') \<longleftrightarrow> tw_end tw < ss) \<and>
              viol_delay (s_violations c')
                = (if tw_end tw < ss then ss - tw_end tw else 0)"
    by blast
  from fresh have "viol_types (s_violations c) = {} \<and> viol_lead_time (s_violations c) = 0 \<and>
            viol_delay (s_violations c) = 0"
    by (simp add: no_violations_def)
  with v c' ss have "tw_view c' = expected_view (s_type c) tw ss"
    by (simp add: tw_view_def expected_view_def load_view_def)
  with c' show ?thesis by blast
qed

text \<open>
  One pass of the loop for a job, for a break, for the start and for the end step: the
  step that is appended, seen through \<open>tw_view\<close>.
\<close>

lemma route_step_job:
  assumes ty: "step_type step = JOB"
  shows "\<exists>c. rs_sol_steps (route_step input vr v out step s) = rs_sol_steps s @ [c] \<and>
           tw_view c = expected_view JOB
             (j_tws (inp_jobs input ! step_rank step) ! (mo_task_tw_ranks out ! rs_task_rank s))
             (mo_task_ETA out ! rs_task_rank s) \<and>
           rs_task_rank (route_step input vr v out step s) = rs_task_rank s + 1"
proof -
  define job where "job = inp_jobs input ! step_rank step"
  define s1 where "s1 = s\<lparr>rs_service := rs_service s + j_service job,
                    rs_priority := rs_priority s + j_priority job,
                    rs_current_load :=
                      amount_sub (amount_add (rs_current_load s) (j_pickup job))
                        (j_delivery job),
                    rs_sum_pickups := amount_add (rs_sum_pickups s) (j_pickup job),
                    rs_sum_deliveries := amount_add (rs_sum_deliveries s) (j_delivery job)\<rparr>"
  define s2 where "s2 = push_task_step (Step_of_job job (rs_current_load s1)) out s1"
  define ss where "ss = mo_task_ETA out ! rs_task_rank s2"
  define tw where "tw = j_tws job ! (mo_task_tw_ranks out ! rs_task_rank s2)"
  define s3 where "s3 = handle_tw_violations tw ss s2"
  define oc where "oc = (\<not> amount_le (rs_current_load s3) (v_capacity v))"
  define s4 where "s4 = (if rs_previous_over_capacity s3 \<or> oc then flag LOAD s3 else s3)"
  define s5 where "s5 = s4\<lparr>rs_previous_over_capacity := oc\<rparr>"
  define s6 where "s6 = (if \<not> inp_vehicle_ok_with_job input vr (step_rank step)
                         then flag SKILLS s5 else s5)"
  define s7 where "s7 = precedence_check job (step_rank step) s6"
  define s8 where "s8 = s7\<lparr>rs_unassigned_ranks := rs_unassigned_ranks s7 - {step_rank step},
               rs_previous_start := ss,
               rs_previous_service := j_service job,
               rs_previous_travel := mo_task_travels out ! rs_task_rank s7,
               rs_task_rank := rs_task_rank s7 + 1\<rparr>"
  have r2: "rs_task_rank s2 = rs_task_rank s"
    by (simp add: s2_def push_task_step_fields s1_def)
  have eq: "route_step input vr v out step s = s8"
    unfolding route_step_def ty STEP_TYPE.case Let_def s8_def s7_def s6_def s5_def s4_def
      oc_def s3_def tw_def ss_def s2_def s1_def job_def
    by (rule refl)
  obtain c2 where c2: "rs_sol_steps s2 = rs_sol_steps s @ [c2]"
    and fresh: "s_violations c2 = no_violations" and t2: "s_type c2 = JOB"
    and a2: "s_arrival c2 + s_waiting_time c2 = ss"
    by (simp add: s2_def push_task_step_steps s1_def Step_of_job_def ss_def
          push_task_step_fields)
  from handle_tw_violations_view [OF c2 fresh a2, of tw]
  obtain c3 where c3: "rs_sol_steps s3 = rs_sol_steps s @ [c3]"
    and v3: "tw_view c3 = expected_view JOB tw ss"
    by (auto simp: s3_def t2)
  from flag_if_steps [OF c3, of LOAD "rs_previous_over_capacity s3 \<or> oc"]
  obtain c4 where c4: "rs_sol_steps s4 = rs_sol_steps s @ [c4]" and v4: "tw_view c4 = tw_view c3"
    by (auto simp: s4_def)
  have c5: "rs_sol_steps s5 = rs_sol_steps s @ [c4]" by (simp add: s5_def c4)
  from flag_if_steps [OF c5, of SKILLS "\<not> inp_vehicle_ok_with_job input vr (step_rank step)"]
  obtain c6 where c6: "rs_sol_steps s6 = rs_sol_steps s @ [c6]" and v6: "tw_view c6 = tw_view c4"
    by (auto simp: s6_def)
  from precedence_check_steps [OF c6, of job "step_rank step"]
  obtain c7 where c7: "rs_sol_steps s7 = rs_sol_steps s @ [c7]" and v7: "tw_view c7 = tw_view c6"
    by (auto simp: s7_def)
  have rank: "rs_task_rank s7 = rs_task_rank s"
    by (simp add: s7_def precedence_check_fields s6_def s5_def s4_def flag_fields s3_def
          handle_tw_violations_fields r2)
  have "rs_sol_steps s8 = rs_sol_steps s @ [c7]" by (simp add: s8_def c7)
  moreover have "tw_view c7 = expected_view JOB tw ss" by (simp add: v7 v6 v4 v3)
  moreover have "rs_task_rank s8 = rs_task_rank s + 1" by (simp add: s8_def rank)
  ultimately show ?thesis unfolding eq tw_def ss_def job_def r2 by blast
qed

lemma route_step_break:
  assumes ty: "step_type step = BREAK"
  shows "\<exists>c. rs_sol_steps (route_step input vr v out step s) = rs_sol_steps s @ [c] \<and>
           tw_view c = expected_view BREAK
             (b_tws (v_breaks v ! step_rank step) ! (mo_task_tw_ranks out ! rs_task_rank s))
             (mo_task_ETA out ! rs_task_rank s) \<and>
           rs_task_rank (route_step input vr v out step s) = rs_task_rank s + 1"
proof -
  define b where "b = v_breaks v ! step_rank step"
  define s1 where "s1 = s\<lparr>rs_break_ids := rs_break_ids s - {b_id b},
                    rs_service := rs_service s + b_service b\<rparr>"
  define s2 where "s2 = push_task_step (Step_of_break b (rs_current_load s1)) out s1"
  define ss where "ss = mo_task_ETA out ! rs_task_rank s2"
  define tw where "tw = b_tws b ! (mo_task_tw_ranks out ! rs_task_rank s2)"
  define s3 where "s3 = handle_tw_violations tw ss s2"
  define s4 where "s4 = (if rs_previous_over_capacity s3 then flag LOAD s3 else s3)"
  define s5 where "s5 = s4\<lparr>rs_previous_start := ss,
               rs_previous_service := b_service b,
               rs_previous_travel := mo_task_travels out ! rs_task_rank s4,
               rs_task_rank := rs_task_rank s4 + 1\<rparr>"
  have r2: "rs_task_rank s2 = rs_task_rank s"
    by (simp add: s2_def push_task_step_fields s1_def)
  have eq: "route_step input vr v out step s = s5"
    unfolding route_step_def ty STEP_TYPE.case Let_def s5_def s4_def s3_def tw_def ss_def
      s2_def s1_def b_def
    by (rule refl)
  obtain c2 where c2: "rs_sol_steps s2 = rs_sol_steps s @ [c2]"
    and fresh: "s_violations c2 = no_violations" and t2: "s_type c2 = BREAK"
    and a2: "s_arrival c2 + s_waiting_time c2 = ss"
    by (simp add: s2_def push_task_step_steps s1_def Step_of_break_def ss_def
          push_task_step_fields)
  from handle_tw_violations_view [OF c2 fresh a2, of tw]
  obtain c3 where c3: "rs_sol_steps s3 = rs_sol_steps s @ [c3]"
    and v3: "tw_view c3 = expected_view BREAK tw ss"
    by (auto simp: s3_def t2)
  from flag_if_steps [OF c3, of LOAD "rs_previous_over_capacity s3"]
  obtain c4 where c4: "rs_sol_steps s4 = rs_sol_steps s @ [c4]" and v4: "tw_view c4 = tw_view c3"
    by (auto simp: s4_def)
  have rank: "rs_task_rank s4 = rs_task_rank s"
    by (simp add: s4_def flag_fields s3_def handle_tw_violations_fields r2)
  have "rs_sol_steps s5 = rs_sol_steps s @ [c4]" by (simp add: s5_def c4)
  moreover have "tw_view c4 = expected_view BREAK tw ss" by (simp add: v4 v3)
  moreover have "rs_task_rank s5 = rs_task_rank s + 1" by (simp add: s5_def rank)
  ultimately show ?thesis unfolding eq tw_def ss_def b_def r2 by blast
qed

lemma route_step_task:
  assumes "step_type step = JOB \<or> step_type step = BREAK"
  shows "\<exists>c. rs_sol_steps (route_step input vr v out step s) = rs_sol_steps s @ [c] \<and>
           tw_view c = expected_view (step_type step)
             (task_tws input v step ! (mo_task_tw_ranks out ! rs_task_rank s))
             (mo_task_ETA out ! rs_task_rank s) \<and>
           rs_task_rank (route_step input vr v out step s) = rs_task_rank s + 1"
  using assms route_step_job [of step input vr v out s] route_step_break [of step input vr v out s]
  by (auto simp: task_tws_def)

lemma route_step_start:
  "step_type step = START \<Longrightarrow> route_step input vr v out step s = s"
  by (simp add: route_step_def)

lemma route_step_end_none:
  "step_type step = END \<Longrightarrow> \<not> has_end v \<Longrightarrow> route_step input vr v out step s = s"
  by (simp add: route_step_def)

lemma route_step_end:
  assumes ty: "step_type step = END" and e: "has_end v"
  shows "\<exists>c. rs_sol_steps (route_step input vr v out step s) = rs_sol_steps s @ [c] \<and>
           tw_view c = (END, mo_v_end out, False, 0,
             tw_end (v_tw v) < mo_v_end out,
             (if tw_end (v_tw v) < mo_v_end out then mo_v_end out - tw_end (v_tw v) else 0))"
proof -
  define arrival where "arrival = rs_previous_start s + rs_previous_service s + rs_previous_travel s"
  define c1 where "c1 = (Step_at END (the (v_end v)) (rs_current_load s))
                           \<lparr>s_duration := rs_duration s + rs_previous_travel s,
                            s_arrival := arrival,
                            s_waiting_time := mo_v_end out - arrival\<rparr>"
  define s1 where "s1 = s\<lparr>rs_duration := rs_duration s + rs_previous_travel s,
                      rs_sol_steps := rs_sol_steps s @ [c1],
                      rs_forward_wt := rs_forward_wt s + (mo_v_end out - arrival)\<rparr>"
  define s2 where "s2 = (if tw_end (v_tw v) < mo_v_end out
                     then set_last_delay (mo_v_end out - tw_end (v_tw v)) (flag DELAY s1)
                     else s1)"
  define s3 where "s3 = (if rs_previous_over_capacity s2 then flag LOAD s2 else s2)"
  have eq: "route_step input vr v out step s = s3"
    unfolding route_step_def ty STEP_TYPE.case Let_def s3_def s2_def s1_def c1_def arrival_def
    using e by simp
  have c1: "rs_sol_steps s1 = rs_sol_steps s @ [c1]" by (simp add: s1_def)
  have v1: "tw_view c1 = (END, mo_v_end out, False, 0, False, 0)"
    by (simp add: tw_view_def c1_def Step_at_def no_violations_def)
  obtain c2 where c2: "rs_sol_steps s2 = rs_sol_steps s @ [c2]"
    and v2: "tw_view c2 = (END, mo_v_end out, False, 0,
             tw_end (v_tw v) < mo_v_end out,
             (if tw_end (v_tw v) < mo_v_end out then mo_v_end out - tw_end (v_tw v) else 0))"
    using c1 v1
    by (cases "tw_end (v_tw v) < mo_v_end out")
       (simp_all add: s2_def set_last_delay_def flag_def Let_def add_type_def tw_view_def)
  from flag_if_steps [OF c2, of LOAD "rs_previous_over_capacity s2"]
  obtain c3 where "rs_sol_steps s3 = rs_sol_steps s @ [c3]" and "tw_view c3 = tw_view c2"
    by (auto simp: s3_def)
  with v2 show ?thesis unfolding eq by auto
qed

subsection \<open>The steps after the loop\<close>

lemma route_tasks_fold:
  assumes "list_all is_task tasks"
  shows "\<exists>cs. rs_sol_steps (fold (route_step input vr v out) tasks s) = rs_sol_steps s @ cs \<and>
     length cs = length tasks \<and>
     (\<forall>k<length tasks.
        tw_view (cs ! k) = expected_view (step_type (tasks ! k))
          (task_tws input v (tasks ! k) ! (mo_task_tw_ranks out ! (rs_task_rank s + k)))
          (mo_task_ETA out ! (rs_task_rank s + k))) \<and>
     rs_task_rank (fold (route_step input vr v out) tasks s) = rs_task_rank s + length tasks"
  using assms
proof (induction tasks arbitrary: s)
  case Nil
  then show ?case by simp
next
  case (Cons step tasks)
  from Cons.prems have ty: "step_type step = JOB \<or> step_type step = BREAK"
    by (simp add: is_task_def)
  from Cons.prems have rest: "list_all is_task tasks" by simp
  define s1 where "s1 = route_step input vr v out step s"
  from route_step_task [OF ty, of input vr v out s]
  obtain c where c: "rs_sol_steps s1 = rs_sol_steps s @ [c]"
    and vc: "tw_view c = expected_view (step_type step)
             (task_tws input v step ! (mo_task_tw_ranks out ! rs_task_rank s))
             (mo_task_ETA out ! rs_task_rank s)"
    and r1: "rs_task_rank s1 = rs_task_rank s + 1"
    unfolding s1_def by blast
  from Cons.IH [OF rest, of s1]
  obtain cs where cs: "rs_sol_steps (fold (route_step input vr v out) tasks s1)
        = rs_sol_steps s1 @ cs"
    and len: "length cs = length tasks"
    and vs: "\<forall>k<length tasks.
        tw_view (cs ! k) = expected_view (step_type (tasks ! k))
          (task_tws input v (tasks ! k) ! (mo_task_tw_ranks out ! (rs_task_rank s1 + k)))
          (mo_task_ETA out ! (rs_task_rank s1 + k))"
    and rk: "rs_task_rank (fold (route_step input vr v out) tasks s1)
        = rs_task_rank s1 + length tasks"
    by blast
  have "rs_sol_steps (fold (route_step input vr v out) (step # tasks) s)
      = rs_sol_steps s @ (c # cs)"
    by (simp add: s1_def [symmetric] cs c)
  moreover have "length (c # cs) = length (step # tasks)" by (simp add: len)
  moreover have "\<forall>k<length (step # tasks).
        tw_view ((c # cs) ! k) = expected_view (step_type ((step # tasks) ! k))
          (task_tws input v ((step # tasks) ! k) ! (mo_task_tw_ranks out ! (rs_task_rank s + k)))
          (mo_task_ETA out ! (rs_task_rank s + k))"
  proof (intro allI impI)
    fix k assume k: "k < length (step # tasks)"
    show "tw_view ((c # cs) ! k) = expected_view (step_type ((step # tasks) ! k))
          (task_tws input v ((step # tasks) ! k) ! (mo_task_tw_ranks out ! (rs_task_rank s + k)))
          (mo_task_ETA out ! (rs_task_rank s + k))"
    proof (cases k)
      case 0
      then show ?thesis by (simp add: vc)
    next
      case (Suc j)
      with k have "j < length tasks" by simp
      with vs Suc show ?thesis by (simp add: r1)
    qed
  qed
  moreover have "rs_task_rank (fold (route_step input vr v out) (step # tasks) s)
      = rs_task_rank s + length (step # tasks)"
    by (simp add: s1_def [symmetric] rk r1)
  ultimately show ?case by blast
qed

lemma flag_pickups_views:
  "map tw_view (rs_sol_steps (fold flag_pickup_without_delivery ds s))
     = map tw_view (rs_sol_steps s) \<and>
   map load_view (rs_sol_steps (fold flag_pickup_without_delivery ds s))
     = map load_view (rs_sol_steps s)"
proof (induction ds arbitrary: s)
  case Nil
  then show ?case by simp
next
  case (Cons d ds)
  define k where "k = the (rs_delivery_to_pickup_step_rank s d)"
  have "map tw_view (rs_sol_steps (flag_pickup_without_delivery d s))
          = map tw_view (rs_sol_steps s) \<and>
        map load_view (rs_sol_steps (flag_pickup_without_delivery d s))
          = map load_view (rs_sol_steps s)"
    by (cases "k < length (rs_sol_steps s)")
       (simp_all add: flag_pickup_without_delivery_def Let_def k_def [symmetric] map_update
          tw_view_add_type list_update_same_conv list_update_beyond)
  with Cons.IH [of "flag_pickup_without_delivery d s"] show ?case by simp
qed

lemma valid_steps_split:
  assumes "valid_steps input v steps"
  obtains st0 tasks en where "steps = st0 # tasks @ [en]"
    and "step_type st0 = START" and "step_type en = END"
    and "list_all (valid_task input v) tasks" and "length tasks = length steps - 2"
proof -
  from assms have len: "2 < length steps" and h: "step_type (hd steps) = START"
    and l: "step_type (last steps) = END"
    and t: "list_all (valid_task input v) (butlast (tl steps))"
    by (simp_all add: valid_steps_def)
  from len obtain st0 rest where s: "steps = st0 # rest"
    by (cases steps) auto
  from len s have r: "rest \<noteq> []" by auto
  from r have rest: "rest = butlast rest @ [last rest]" by simp
  have "steps = st0 # butlast rest @ [last rest]" using s rest by simp
  moreover have "step_type st0 = START" using h s by simp
  moreover have "step_type (last rest) = END" using l s r by simp
  moreover have "list_all (valid_task input v) (butlast rest)" using t s by simp
  moreover have "length (butlast rest) = length steps - 2" using s by simp
  ultimately show ?thesis by (rule that)
qed

lemma valid_task_is_task: "valid_task input v step \<Longrightarrow> is_task step"
  by (auto simp: valid_task_def is_task_def)

lemma route_init_start:
  assumes "has_start v"
  shows "\<exists>c0. rs_sol_steps (route_init input v steps out un) = [c0] \<and>
           load_view c0 = (START, startup_load input steps) \<and>
           rs_task_rank (route_init input v steps out un) = 0"
  using assms
  by (simp add: route_init_def Let_def flag_def set_last_lead_time_def load_view_def
        Step_at_def add_type_def)

lemma route_init_no_start:
  assumes "\<not> has_start v"
  shows "rs_sol_steps (route_init input v steps out un) = [] \<and>
         rs_task_rank (route_init input v steps out un) = 0"
  using assms by (simp add: route_init_def Let_def)

lemma generate_route_views:
  "map tw_view (r_steps (fst (generate_route input vr v steps out un)))
     = map tw_view (rs_sol_steps (fold (route_step input vr v out) steps
                                   (route_init input v steps out un))) \<and>
   map load_view (r_steps (fst (generate_route input vr v steps out un)))
     = map load_view (rs_sol_steps (fold (route_step input vr v out) steps
                                   (route_init input v steps out un)))"
proof -
  define s1 where "s1 = fold (route_step input vr v out) steps (route_init input v steps out un)"
  define s2 where "s2 = (if \<not> has_end v then s1\<lparr>rs_delay := rs_delay s1 + mo_end_delay out\<rparr>
                         else s1)"
  define s3 where "s3 = fold flag_pickup_without_delivery (rs_expected_delivery_ranks s2) s2"
  have "r_steps (fst (generate_route input vr v steps out un)) = rs_sol_steps s3"
    by (simp add: generate_route_def Let_def s3_def s2_def s1_def)
  moreover have "rs_sol_steps s2 = rs_sol_steps s1" by (simp add: s2_def)
  ultimately show ?thesis
    using flag_pickups_views [of "rs_expected_delivery_ranks s2" s2]
    by (simp add: s3_def s1_def)
qed

lemma route_fold_steps:
  assumes valid: "valid_steps input v steps"
  shows "\<exists>c0s cs ce.
     rs_sol_steps (fold (route_step input vr v out) steps (route_init input v steps out un))
       = c0s @ cs @ ce \<and>
     (has_start v \<longrightarrow> (\<exists>c0. c0s = [c0] \<and> load_view c0 = (START, startup_load input steps))) \<and>
     (\<not> has_start v \<longrightarrow> c0s = []) \<and>
     length cs = length steps - 2 \<and>
     (\<forall>r<length steps - 2.
        tw_view (cs ! r) = expected_view (step_type (steps ! (r + 1)))
          (task_tws input v (steps ! (r + 1)) ! (mo_task_tw_ranks out ! r))
          (mo_task_ETA out ! r)) \<and>
     (has_end v \<longrightarrow>
        (\<exists>c. ce = [c] \<and>
           tw_view c = (END, mo_v_end out, False, 0, tw_end (v_tw v) < mo_v_end out,
             (if tw_end (v_tw v) < mo_v_end out then mo_v_end out - tw_end (v_tw v) else 0)))) \<and>
     (\<not> has_end v \<longrightarrow> ce = [])"
proof -
  from valid obtain st0 tasks en where steps: "steps = st0 # tasks @ [en]"
    and st0: "step_type st0 = START" and en: "step_type en = END"
    and tasks: "list_all (valid_task input v) tasks" and len: "length tasks = length steps - 2"
    by (rule valid_steps_split)
  from tasks have is_tasks: "list_all is_task tasks"
    by (auto simp: list_all_iff intro: valid_task_is_task)
  define s0 where "s0 = route_init input v steps out un"
  define s1 where "s1 = fold (route_step input vr v out) tasks s0"
  define s2 where "s2 = route_step input vr v out en s1"
  have fold_eq: "fold (route_step input vr v out) steps s0 = s2"
    by (simp add: steps s2_def s1_def route_step_start [OF st0])
  have r0: "rs_task_rank s0 = 0"
    using route_init_start [of v input steps out un] route_init_no_start [of v input steps out un]
    by (cases "has_start v") (auto simp: s0_def)
  from route_tasks_fold [OF is_tasks, of input vr v out s0, folded s1_def]
  obtain cs where cs: "rs_sol_steps s1 = rs_sol_steps s0 @ cs"
    and lcs: "length cs = length tasks"
    and vcs0: "\<forall>k<length tasks.
        tw_view (cs ! k) = expected_view (step_type (tasks ! k))
          (task_tws input v (tasks ! k) ! (mo_task_tw_ranks out ! (rs_task_rank s0 + k)))
          (mo_task_ETA out ! (rs_task_rank s0 + k))"
    by (elim exE conjE)
  from vcs0 have vcs: "\<forall>k<length tasks.
        tw_view (cs ! k) = expected_view (step_type (tasks ! k))
          (task_tws input v (tasks ! k) ! (mo_task_tw_ranks out ! k))
          (mo_task_ETA out ! k)"
    by (simp add: r0)
  have nth_task: "steps ! (r + 1) = tasks ! r" if "r < length tasks" for r
    using that by (simp add: steps nth_append)
  have vcs': "\<forall>r<length steps - 2.
        tw_view (cs ! r) = expected_view (step_type (steps ! (r + 1)))
          (task_tws input v (steps ! (r + 1)) ! (mo_task_tw_ranks out ! r))
          (mo_task_ETA out ! r)"
    using vcs nth_task by (simp add: len)
  have "\<exists>ce. rs_sol_steps s2 = rs_sol_steps s1 @ ce \<and>
     (has_end v \<longrightarrow>
        (\<exists>c. ce = [c] \<and>
           tw_view c = (END, mo_v_end out, False, 0, tw_end (v_tw v) < mo_v_end out,
             (if tw_end (v_tw v) < mo_v_end out then mo_v_end out - tw_end (v_tw v) else 0)))) \<and>
     (\<not> has_end v \<longrightarrow> ce = [])"
  proof (cases "has_end v")
    case True
    from route_step_end [OF en True, of input vr out s1]
    obtain c where "rs_sol_steps s2 = rs_sol_steps s1 @ [c]"
      and "tw_view c = (END, mo_v_end out, False, 0, tw_end (v_tw v) < mo_v_end out,
             (if tw_end (v_tw v) < mo_v_end out then mo_v_end out - tw_end (v_tw v) else 0))"
      unfolding s2_def by (elim exE conjE)
    with True show ?thesis by (intro exI [of _ "[c]"]) simp
  next
    case False
    from route_step_end_none [OF en False, of input vr out s1]
    have "rs_sol_steps s2 = rs_sol_steps s1 @ []" by (simp add: s2_def)
    with False show ?thesis by (intro exI [of _ "[]"]) simp
  qed
  then obtain ce where ce: "rs_sol_steps s2 = rs_sol_steps s1 @ ce"
    and ce1: "has_end v \<longrightarrow>
        (\<exists>c. ce = [c] \<and>
           tw_view c = (END, mo_v_end out, False, 0, tw_end (v_tw v) < mo_v_end out,
             (if tw_end (v_tw v) < mo_v_end out then mo_v_end out - tw_end (v_tw v) else 0)))"
    and ce0: "\<not> has_end v \<longrightarrow> ce = []"
    by (elim exE conjE)
  have c0a: "has_start v \<longrightarrow>
       (\<exists>c0. rs_sol_steps s0 = [c0] \<and> load_view c0 = (START, startup_load input steps))"
    using route_init_start [of v input steps out un] by (auto simp: s0_def)
  have c0b: "\<not> has_start v \<longrightarrow> rs_sol_steps s0 = []"
    using route_init_no_start [of v input steps out un] by (auto simp: s0_def)
  have all: "rs_sol_steps (fold (route_step input vr v out) steps s0)
      = rs_sol_steps s0 @ cs @ ce"
    by (simp add: fold_eq ce cs)
  have lcs': "length cs = length steps - 2" by (simp add: lcs len)
  show ?thesis
    unfolding s0_def [symmetric]
    by (intro exI [of _ "rs_sol_steps s0"] exI [of _ cs] exI [of _ ce] conjI
          all c0a c0b lcs' vcs' ce1 ce0)
qed

subsection \<open>The startup load\<close>

text \<open>A route that is returned is generated from the solution of the second round.\<close>

lemma choose_invalid_route_returned:
  assumes res: "choose_invalid_route glp_intopt input vehicle_rank steps un env = (Inr x, env')"
    and prep: "prepare input (inp_vehicles input ! vehicle_rank) steps = Inr d"
    and build: "build_problem input (inp_vehicles input ! vehicle_rank) steps d
                  (fst (glp_create_prob env)) = Inr lp"
  shows "x = generate_route input vehicle_rank (inp_vehicles input ! vehicle_rank) steps
               (read_solution input (inp_vehicles input ! vehicle_rank) steps d
                  (second_solution glp_intopt d lp)) un"
  using res
  by (simp add: choose_invalid_route_def prep build Let_def split_beta second_solution_def
        split: if_splits)

text \<open>The loop that computes the startup load adds up the deliveries of the single jobs.\<close>

lemma amount_add_assoc:
  "length a = d \<Longrightarrow> length b = d \<Longrightarrow> length c = d \<Longrightarrow>
     amount_add (amount_add a b) c = amount_add a (amount_add b c)"
  by (rule nth_equalityI) (simp_all add: amount_add_def)

lemma amount_add_zero_right: "length a = d \<Longrightarrow> amount_add a (zero_amount d) = a"
  by (rule nth_equalityI) (simp_all add: amount_add_def zero_amount_def)

lemma amount_add_zero_left: "length a = d \<Longrightarrow> amount_add (zero_amount d) a = a"
  by (rule nth_equalityI) (simp_all add: amount_add_def zero_amount_def)

lemma fold_amount_add:
  "list_all (\<lambda>a. length a = d) xs \<Longrightarrow> length z = d \<Longrightarrow>
     fold (\<lambda>a acc. amount_add acc a) xs z = amount_add z (amount_sum d xs)"
proof (induction xs arbitrary: z)
  case Nil
  then show ?case by (simp add: amount_sum_def amount_add_zero_right)
next
  case (Cons a xs)
  then have la: "length a = d" and lxs: "list_all (\<lambda>a. length a = d) xs" by simp_all
  have lz: "length (amount_add z a) = d" using Cons.prems(2) la by (simp add: amount_add_def)
  have ls: "length (amount_sum d xs) = d" using lxs by (rule length_amount_sum)
  have "fold (\<lambda>a acc. amount_add acc a) (a # xs) z
      = amount_add (amount_add z a) (amount_sum d xs)"
    using Cons.IH [OF lxs lz] by simp
  also have "\<dots> = amount_add z (amount_add a (amount_sum d xs))"
    using Cons.prems(2) la ls by (rule amount_add_assoc)
  finally show ?case by (simp add: amount_sum_def)
qed

lemma startup_load_fold:
  "fold (\<lambda>step current_load.
             if step_type step = JOB \<and> step_job_type step = SINGLE
             then amount_add current_load (j_delivery (inp_jobs input ! step_rank step))
             else current_load) steps z
   = fold (\<lambda>a acc. amount_add acc a) (single_deliveries input steps) z"
  by (induction steps arbitrary: z) (simp_all add: single_deliveries_def)

lemma startup_load_sum:
  assumes "inp_zero_amount input = zero_amount d"
    and "list_all (\<lambda>a. length a = d) (single_deliveries input steps)"
  shows "startup_load input steps = amount_sum d (single_deliveries input steps)"
proof -
  have "startup_load input steps
      = amount_add (zero_amount d) (amount_sum d (single_deliveries input steps))"
    unfolding startup_load_def startup_load_fold assms(1)
    using assms(2) by (rule fold_amount_add) (simp add: zero_amount_def)
  also have "\<dots> = amount_sum d (single_deliveries input steps)"
    using assms(2) by (intro amount_add_zero_left length_amount_sum)
  finally show ?thesis .
qed

lemma choose_invalid_route_generated:
  assumes "choose_invalid_route glp_intopt input vehicle_rank steps un env = (Inr x, env')"
  shows "\<exists>out. x = generate_route input vehicle_rank (inp_vehicles input ! vehicle_rank)
                     steps out un"
proof (cases "prepare input (inp_vehicles input ! vehicle_rank) steps")
  case (Inl f)
  with assms show ?thesis by (simp add: choose_invalid_route_def)
next
  case prep: (Inr d)
  show ?thesis
  proof (cases "build_problem input (inp_vehicles input ! vehicle_rank) steps d
                  (fst (glp_create_prob env))")
    case (Inl f)
    with assms prep show ?thesis by (simp add: choose_invalid_route_def split_beta)
  next
    case build: (Inr lp)
    from choose_invalid_route_returned [OF assms prep build] show ?thesis by (rule exI)
  qed
qed

lemma generate_route_start_load:
  assumes valid: "valid_steps input v steps" and start: "has_start v"
  shows "r_steps (fst (generate_route input vr v steps out un)) \<noteq> [] \<and>
         load_view (hd (r_steps (fst (generate_route input vr v steps out un))))
           = (START, startup_load input steps)"
proof -
  define rs where "rs = r_steps (fst (generate_route input vr v steps out un))"
  from route_fold_steps [OF valid, of vr out un]
  obtain c0s cs ce where
    all0: "rs_sol_steps (fold (route_step input vr v out) steps (route_init input v steps out un))
       = c0s @ cs @ ce"
    and c0s: "has_start v \<longrightarrow> (\<exists>c0. c0s = [c0] \<and> load_view c0 = (START, startup_load input steps))"
    by (elim exE conjE)
  from c0s start obtain c0 where c0s': "c0s = [c0]"
    and c0: "load_view c0 = (START, startup_load input steps)"
    by (elim impE exE conjE)
  note all = all0 [unfolded c0s']
  from generate_route_views [of input vr v steps out un]
  have m: "map load_view rs = map load_view ([c0] @ cs @ ce)"
    by (simp only: rs_def all)
  then have ne: "rs \<noteq> []" by (cases rs) simp_all
  from m ne have "load_view (hd rs) = load_view c0"
    by (cases rs) simp_all
  with ne c0 show ?thesis by (simp add: rs_def)
qed

text \<open>
  Claim C4, as amended. When the validator returns a route for a vehicle that has a
  start, the first step of the route is the start step, and the load it reports is the
  sum of the delivery amounts of the jobs of type \<open>SINGLE\<close> that appear in the step
  sequence. The deliveries of pickup-delivery pairs do not count: they are loaded at
  their pickup.
\<close>

theorem start_step_load:
  assumes valid: "valid_steps input (inp_vehicles input ! vehicle_rank) steps"
    and start: "has_start (inp_vehicles input ! vehicle_rank)"
    and zero: "inp_zero_amount input = zero_amount d"
    and dim: "list_all (\<lambda>a. length a = d) (single_deliveries input steps)"
    and res: "choose_invalid_route glp_intopt input vehicle_rank steps un env
                = (Inr (route, un'), env')"
  shows "r_steps route \<noteq> [] \<and>
         s_type (hd (r_steps route)) = START \<and>
         s_load (hd (r_steps route)) = amount_sum d (single_deliveries input steps)"
proof -
  from choose_invalid_route_generated [OF res]
  obtain out where "(route, un') = generate_route input vehicle_rank
      (inp_vehicles input ! vehicle_rank) steps out un"
    by (elim exE)
  then have route: "route = fst (generate_route input vehicle_rank
      (inp_vehicles input ! vehicle_rank) steps out un)"
    by (simp add: prod_eq_iff)
  from generate_route_start_load [OF valid start, of vehicle_rank out un, folded route]
  have ne: "r_steps route \<noteq> []"
    and lv: "load_view (hd (r_steps route)) = (START, startup_load input steps)"
    by (rule conjunct1, rule conjunct2)
  from lv have "s_type (hd (r_steps route)) = START"
    and "s_load (hd (r_steps route)) = startup_load input steps"
    by (simp_all add: load_view_def)
  with ne startup_load_sum [OF zero dim] show ?thesis by simp
qed

text \<open>
  The startup load is not the sum over the single jobs and the pickup-delivery pairs.
  For the sequence start, pickup, delivery, end, where the delivery has the amount 5,
  that sum is 5, and the start step of the returned route reports the load 0.
\<close>

theorem start_step_load_counterexample:
  "(case fst (choose_invalid_route ex_solver (ex_input ex_vehicle) 0 ex_steps_shipment
               ex_unassigned env0) of
      Inl f \<Rightarrow> False
    | Inr (route, un) \<Rightarrow>
        s_type (hd (r_steps route)) = START \<and> s_load (hd (r_steps route)) = [0]) \<and>
   spec_startup_load 1 (ex_input ex_vehicle) ex_steps_shipment = [5]"
proof (rule conjI)
  show "case fst (choose_invalid_route ex_solver (ex_input ex_vehicle) 0 ex_steps_shipment
               ex_unassigned env0) of
      Inl f \<Rightarrow> False
    | Inr (route, un) \<Rightarrow>
        s_type (hd (r_steps route)) = START \<and> s_load (hd (r_steps route)) = [0]"
    by code_simp
  show "spec_startup_load 1 (ex_input ex_vehicle) ex_steps_shipment = [5]"
    by code_simp
qed

theorem start_step_load_witness:
  "valid_steps (ex_input ex_vehicle) (inp_vehicles (ex_input ex_vehicle) ! 0) ex_steps \<and>
   has_start (inp_vehicles (ex_input ex_vehicle) ! 0) \<and>
   inp_zero_amount (ex_input ex_vehicle) = zero_amount 1 \<and>
   single_deliveries (ex_input ex_vehicle) ex_steps = [[2], [3]] \<and>
   choose_invalid_route ex_solver (ex_input ex_vehicle) 0 ex_steps ex_unassigned env0
     = (Inr (ex_route, {2, 3}), \<lparr>env_allocated = False, live_probs = 0\<rparr>) \<and>
   s_type (hd (r_steps ex_route)) = START \<and>
   s_load (hd (r_steps ex_route)) = [5]"
proof -
  have h1: "valid_steps (ex_input ex_vehicle) (inp_vehicles (ex_input ex_vehicle) ! 0) ex_steps"
    by code_simp
  have h2: "has_start (inp_vehicles (ex_input ex_vehicle) ! 0)"
    by code_simp
  have h3: "inp_zero_amount (ex_input ex_vehicle) = zero_amount 1"
    by code_simp
  have sd: "single_deliveries (ex_input ex_vehicle) ex_steps = [[2], [3]]"
    by code_simp
  have h4: "list_all (\<lambda>a. length a = 1) (single_deliveries (ex_input ex_vehicle) ex_steps)"
    unfolding sd by simp
  have s: "amount_sum 1 [[2], [3]] = [5]"
    by code_simp
  from start_step_load [OF h1 h2 h3 h4 ex_choose]
  have c0: "s_type (hd (r_steps ex_route)) = START \<and>
      s_load (hd (r_steps ex_route)) = amount_sum 1 (single_deliveries (ex_input ex_vehicle) ex_steps)"
    by (rule conjunct2)
  have c: "s_type (hd (r_steps ex_route)) = START \<and> s_load (hd (r_steps ex_route)) = [5]"
    using c0 unfolding sd s .
  show ?thesis
    by (intro conjI h1 h2 h3 sd ex_choose c [THEN conjunct1] c [THEN conjunct2])
qed

subsection \<open>Time window violations of the steps\<close>










end
